(* ===== verification/CxPrelude.thy ===== *)
theory CxPrelude
  imports Main "HOL-Library.Word" "HOL-Library.Signed_Division"
begin

text \<open>
  Shared vocabulary of the development: the machine integer types of the C sources, the result
  type in which every crash of the code (a failed assertion, a fail-fast, a trap or an access the
  language leaves undefined) is a value, generic facts about words, and the two locales
  \<open>safe_system\<close> and \<open>simulation\<close> under which the state machines of the components prove their
  invariants and their refinements.
\<close>

unbundle bit_operations_syntax

section \<open>Machine integers\<close>

type_synonym u8 = "8 word"
type_synonym u16 = "16 word"
type_synonym u32 = "32 word"
type_synonym u64 = "64 word"

text \<open>Signed C types share the representation; \<open>sint\<close> reads the value.\<close>

type_synonym i16 = "16 word"
type_synonym i32 = "32 word"
type_synonym i64 = "64 word"

section \<open>Crashing computations\<close>

text \<open>
  \<open>AssertFailed\<close> is a failed \<open>CXPLAT_FRE_ASSERT\<close> (or \<open>CXPLAT_DBG_ASSERT\<close> in a debug build),
  \<open>FailFast\<close> is \<open>RtlFailFast\<close>, the others are what the C and C++ languages leave undefined.
  \<open>RawAccess\<close> is the use of an object whose lifetime has not begun or has ended and
  \<open>LeakedObject\<close> the reuse or release of the storage of an object whose destructor has not run.
\<close>

datatype fault =
    AssertFailed
  | FailFast
  | DivByZero
  | NullDeref
  | OutOfBounds
  | UseAfterFree
  | DoubleFree
  | RawAccess
  | LeakedObject
  | DataRace
  | Undefined

type_synonym 'a result = "fault + 'a"

definition bindR :: "'a result \<Rightarrow> ('a \<Rightarrow> 'b result) \<Rightarrow> 'b result" where
  "bindR r f = (case r of Inl e \<Rightarrow> Inl e | Inr x \<Rightarrow> f x)"

definition guardR :: "bool \<Rightarrow> fault \<Rightarrow> 'b result \<Rightarrow> 'b result" where
  "guardR c e r = (if c then r else Inl e)"

named_theorems result_simps \<open>evaluation of the result combinators\<close>

lemma bindR_Inl [simp, result_simps]: "bindR (Inl e) f = Inl e"
  by (simp add: bindR_def)

lemma bindR_Inr [simp, result_simps]: "bindR (Inr x) f = f x"
  by (simp add: bindR_def)

lemma guardR_True [simp, result_simps]: "guardR True e r = r"
  by (simp add: guardR_def)

lemma guardR_False [simp, result_simps]: "guardR False e r = Inl e"
  by (simp add: guardR_def)

lemma bindR_assoc: "bindR (bindR r f) g = bindR r (\<lambda>x. bindR (f x) g)"
  by (cases r) simp_all

lemma bindR_return [simp]: "bindR r Inr = r"
  by (cases r) simp_all

lemma bindR_eq_Inr_iff: "bindR r f = Inr y \<longleftrightarrow> (\<exists>x. r = Inr x \<and> f x = Inr y)"
  by (cases r) simp_all

lemma guardR_eq_Inr_iff [simp]: "guardR c e r = Inr y \<longleftrightarrow> c \<and> r = Inr y"
  by (simp add: guardR_def)

lemma bindR_cong [fundef_cong]:
  "r = r' \<Longrightarrow> (\<And>x. r' = Inr x \<Longrightarrow> f x = f' x) \<Longrightarrow> bindR r f = bindR r' f'"
  by (cases r') simp_all

section \<open>Words\<close>

named_theorems word_nat \<open>transport of word arithmetic to the naturals\<close>

lemma unat_mult_bounded [word_nat]:
  fixes a b :: "'a::len word"
  shows "unat a * unat b < 2 ^ LENGTH('a) \<Longrightarrow> unat (a * b) = unat a * unat b"
  by (simp add: unat_mult_lem)

lemma unat_add_bounded [word_nat]:
  fixes a b :: "'a::len word"
  shows "unat a + unat b < 2 ^ LENGTH('a) \<Longrightarrow> unat (a + b) = unat a + unat b"
  by (simp add: unat_add_lem)

lemma push_bit_word_of_nat:
  fixes w :: "'a::len word"
  shows "push_bit n w = of_nat (unat w * 2 ^ n)"
  by (simp add: push_bit_eq_mult)

lemma unat_push_bit_bounded [word_nat]:
  fixes w :: "'a::len word"
  assumes "unat w * 2 ^ n < 2 ^ LENGTH('a)"
  shows "unat (push_bit n w) = unat w * 2 ^ n"
  using assms by (simp only: push_bit_word_of_nat unat_of_nat mod_less)

lemma unat_and_mask32 [word_nat]: "unat (c AND 0xFFFFFFFF :: 64 word) = unat c mod 2 ^ 32"
proof -
  have "c AND 0xFFFFFFFF = take_bit 32 c"
    by (simp add: take_bit_eq_mask mask_numeral)
  then show ?thesis by (metis unsigned_take_bit_eq take_bit_eq_mod)
qed

lemma unat_drop_bit [word_nat]: "unat (drop_bit n (c :: 'a::len word)) = unat c div 2 ^ n"
  by (metis unat_drop_bit_eq drop_bit_eq_div)

lemma unat_neg32: "unat (- d :: u32) = (if d = 0 then 0 else 2 ^ 32 - unat d)"
proof (cases "d = 0")
  case False
  then have "0 < unat d" by (simp add: unat_gt_0)
  moreover have "unat d < 2 ^ 32" using unsigned_less [of d] by simp
  ultimately show ?thesis using False unat_sub_if' [of 0 d] by simp
qed simp

lemma signed_shift32:
  fixes n :: int
  assumes "0 \<le> n" and "n < 2 ^ 32"
  shows "(n + 2 ^ 31) mod 2 ^ 32 - 2 ^ 31 = (if n < 2 ^ 31 then n else n - 2 ^ 32)"
proof (cases "n < 2 ^ 31")
  case True
  then show ?thesis using assms by simp
next
  case False
  have "(n + 2 ^ 31) mod 2 ^ 32 = (n - 2 ^ 31 + 2 ^ 32) mod 2 ^ 32" by (simp add: add.commute)
  also have "\<dots> = (n - 2 ^ 31) mod 2 ^ 32" by (rule mod_add_self2)
  also have "\<dots> = n - 2 ^ 31" using assms False by (intro mod_pos_pos_trivial) simp_all
  finally show ?thesis using False by simp
qed

lemma sint_u32: "sint (w :: u32) = (if unat w < 2 ^ 31 then int (unat w) else int (unat w) - 2 ^ 32)"
proof -
  have "uint w < 2 ^ 32" using uint_lt2p [of w] by simp
  moreover have "sint w = (uint w + 2 ^ 31) mod 2 ^ 32 - 2 ^ 31"
    by (simp add: sint_uint signed_take_bit_eq_take_bit_shift take_bit_eq_mod)
  ultimately have "sint w = (if uint w < 2 ^ 31 then uint w else uint w - 2 ^ 32)"
    using signed_shift32 [of "uint w"] by simp
  moreover have "uint w < 2 ^ 31 \<longleftrightarrow> unat w < 2 ^ 31" by (simp add: uint_nat del: of_nat_unat)
  ultimately show ?thesis by (simp add: uint_nat del: of_nat_unat)
qed

lemma sint_neg_nonpos_iff: "sint (- d :: u32) \<le> 0 \<longleftrightarrow> unat d \<le> 2 ^ 31"
proof -
  have "unat d < 2 ^ 32" using unsigned_less [of d] by simp
  then show ?thesis by (auto simp: sint_u32 unat_neg32 unat_eq_zero)
qed

subsection \<open>Scaling a 64-bit count without a 128-bit product\<close>

text \<open>
  Both performance counter conversions of the sources multiply the high and the low half of a
  64-bit count separately and recombine the two quotients. The identity behind it, over the
  naturals, and the exact condition under which no 64-bit intermediate overflows.
\<close>

lemma div_split_scale:
  fixes h l n d :: nat
  assumes "0 < d"
  shows "(h * 2 ^ 32 + l) * n div d = (h * n div d) * 2 ^ 32 + (l * n + (h * n mod d) * 2 ^ 32) div d"
proof -
  have "(h * 2 ^ 32 + l) * n = (h * n) * 2 ^ 32 + l * n"
    by (simp add: algebra_simps)
  also have "(h * n) * 2 ^ 32 = (h * n div d * d + h * n mod d) * 2 ^ 32"
    by simp
  finally have "(h * 2 ^ 32 + l) * n = (l * n + (h * n mod d) * 2 ^ 32) + (h * n div d * 2 ^ 32) * d"
    by (simp only: distrib_left distrib_right ac_simps)
  then show ?thesis
    using assms by simp
qed

lemma scale_sum_bound:
  fixes x m n d :: nat
  shows "x \<le> (2 ^ 32 - 1) * n \<Longrightarrow> m < d \<Longrightarrow> n + d \<le> 2 ^ 32 \<Longrightarrow> x + m * 2 ^ 32 < 2 ^ 64"
  by simp

lemma muldiv64:
  fixes c num den :: "64 word"
  assumes den: "den \<noteq> 0" and bound: "unat num + unat den \<le> 2 ^ 32"
  shows "push_bit 32 (drop_bit 32 c * num div den) +
      ((c AND 0xFFFFFFFF) * num + push_bit 32 (drop_bit 32 c * num mod den)) div den
      = of_nat (unat c * unat num div unat den)"
proof -
  define h l where "h = unat c div 2 ^ 32" and "l = unat c mod 2 ^ 32"
  have d0: "0 < unat den" using den by (simp add: unat_gt_0)
  have c_lt: "unat c < 2 ^ 64" using unsigned_less [of c] by simp
  have h_lt: "h < 2 ^ 32" using c_lt by (simp add: h_def less_mult_imp_div_less)
  have l_lt: "l < 2 ^ 32" by (simp add: l_def)
  have n_le: "unat num < 2 ^ 32" and d_le: "unat den \<le> 2 ^ 32" using bound d0 by linarith+
  have "h * unat num \<le> (2 ^ 32 - 1) * (2 ^ 32 - 1)"
    using h_lt n_le by (intro mult_mono) auto
  then have High: "unat (drop_bit 32 c * num) = h * unat num"
    using unat_mult_bounded [of "drop_bit 32 c" num] by (simp add: unat_drop_bit h_def)
  have ln: "l * unat num \<le> (2 ^ 32 - 1) * unat num"
    using l_lt by (intro mult_right_mono) auto
  also have "\<dots> < 2 ^ 64" using n_le by simp
  finally have "l * unat num < 2 ^ 64" .
  then have "unat (c AND 0xFFFFFFFF) * unat num < 2 ^ LENGTH(64)"
    by (simp add: unat_and_mask32 l_def)
  then have Low: "unat ((c AND 0xFFFFFFFF) * num) = l * unat num"
    by (simp add: unat_mult_bounded unat_and_mask32 l_def)
  have mod_lt: "h * unat num mod unat den < unat den" using d0 by simp
  have R: "unat (push_bit 32 (drop_bit 32 c * num mod den)) = (h * unat num mod unat den) * 2 ^ 32"
    using unat_push_bit_bounded [of "drop_bit 32 c * num mod den" 32] mod_lt d_le
    by (simp add: unat_mod High)
  have sum_lt: "l * unat num + (h * unat num mod unat den) * 2 ^ 32 < 2 ^ 64"
    by (rule scale_sum_bound [OF ln mod_lt bound])
  have S: "unat ((c AND 0xFFFFFFFF) * num + push_bit 32 (drop_bit 32 c * num mod den))
      = l * unat num + (h * unat num mod unat den) * 2 ^ 32"
    using unat_add_bounded [of "(c AND 0xFFFFFFFF) * num"] sum_lt by (simp add: Low R)
  have Q: "push_bit 32 (drop_bit 32 c * num div den) = of_nat ((h * unat num div unat den) * 2 ^ 32)"
    by (simp only: push_bit_word_of_nat unat_div High)
  have c_eq: "unat c = h * 2 ^ 32 + l" by (simp add: h_def l_def)
  have "push_bit 32 (drop_bit 32 c * num div den) +
      ((c AND 0xFFFFFFFF) * num + push_bit 32 (drop_bit 32 c * num mod den)) div den
      = of_nat ((h * unat num div unat den) * 2 ^ 32
          + (l * unat num + (h * unat num mod unat den) * 2 ^ 32) div unat den)"
    by (simp only: Q word_arith_nat_div [of "_ + _"] S of_nat_add)
  also have "\<dots> = of_nat (unat c * unat num div unat den)"
    by (simp only: c_eq div_split_scale [OF d0])
  finally show ?thesis .
qed

lemma scale_roundtrip:
  fixes t f m :: nat
  assumes "0 < m" and "m \<le> f"
  shows "(t * f div m) * m div f \<le> t" and "t \<le> (t * f div m) * m div f + 1"
proof -
  have f0: "0 < f" using assms by simp
  have le: "(t * f div m) * m \<le> t * f" by simp
  then have "(t * f div m) * m div f \<le> (t * f) div f" by (rule div_le_mono)
  then show "(t * f div m) * m div f \<le> t" using f0 by simp
  have "t * f < (t * f div m) * m + m"
    using assms(1) by (metis add_less_cancel_left div_mod_decomp mod_less_divisor mult.commute)
  then have "t * f < (t * f div m) * m + f" using assms(2) by simp
  then have "(t - 1) * f \<le> (t * f div m) * m" by (cases t) simp_all
  then have "((t - 1) * f) div f \<le> (t * f div m) * m div f" by (rule div_le_mono)
  then show "t \<le> (t * f div m) * m div f + 1" using f0 by simp
qed

section \<open>State machines\<close>

text \<open>
  The states a machine can reach: the same notion for every component that is modelled as a step
  relation.
\<close>

inductive reachable :: "('s \<Rightarrow> bool) \<Rightarrow> ('s \<Rightarrow> 's \<Rightarrow> bool) \<Rightarrow> 's \<Rightarrow> bool"
  for start :: "'s \<Rightarrow> bool" and step :: "'s \<Rightarrow> 's \<Rightarrow> bool" where
  reach_start: "start s \<Longrightarrow> reachable start step s"
| reach_step: "reachable start step s \<Longrightarrow> step s t \<Longrightarrow> reachable start step t"

text \<open>A machine with an inductive invariant: every reachable state satisfies it.\<close>

locale safe_system =
  fixes start :: "'s \<Rightarrow> bool" and step :: "'s \<Rightarrow> 's \<Rightarrow> bool" and inv :: "'s \<Rightarrow> bool"
  assumes start_inv: "start s \<Longrightarrow> inv s"
    and step_inv: "inv s \<Longrightarrow> step s t \<Longrightarrow> inv t"
begin

lemma reachable_inv: "reachable start step s \<Longrightarrow> inv s"
  by (induction rule: reachable.induct) (auto intro: start_inv step_inv)

lemma inv_of_weaker: "reachable start step s \<Longrightarrow> (\<And>s. inv s \<Longrightarrow> P s) \<Longrightarrow> P s"
  by (blast dest: reachable_inv)

end

text \<open>
  A safe machine that simulates an abstract one: every step is matched by an abstract step or
  leaves the abstract state alone, so reachable states abstract to reachable states.
\<close>

locale simulation = safe_system start step inv
  for start :: "'s \<Rightarrow> bool" and step :: "'s \<Rightarrow> 's \<Rightarrow> bool" and inv :: "'s \<Rightarrow> bool" +
  fixes astart :: "'a \<Rightarrow> bool" and astep :: "'a \<Rightarrow> 'a \<Rightarrow> bool" and abs :: "'s \<Rightarrow> 'a"
  assumes start_abs: "start s \<Longrightarrow> astart (abs s)"
    and step_abs: "inv s \<Longrightarrow> step s t \<Longrightarrow> abs t = abs s \<or> astep (abs s) (abs t)"
begin

lemma reachable_abs: "reachable start step s \<Longrightarrow> reachable astart astep (abs s)"
proof (induction rule: reachable.induct)
  case (reach_start s)
  then show ?case by (blast intro: reachable.reach_start start_abs)
next
  case (reach_step s t)
  from reach_step.hyps(1) have "inv s" by (rule reachable_inv)
  from step_abs [OF this reach_step.hyps(2)] reach_step.IH
  show ?case by (auto intro: reachable.reach_step)
qed

end

end
