(* ===== verification/CxTime.thy ===== *)
theory CxTime
  imports CxPrelude
begin

text \<open>
  Time measurement: the unit macros of \<open>inc/cxplat.h\<close>, the wrapping 32-bit clocks and the 64-bit
  clocks of the three platform headers, the performance counter conversions of the two Windows
  headers, and the \<open>timespec\<close> arithmetic of \<open>src/lib/cxplat_posix.c\<close>. The three platforms define
  their clocks separately; each definition here is the one of its own header, and the locales
  \<open>wrap_clock32\<close>, \<open>tick_clock\<close> and \<open>perf_clock\<close> hold what they have in common.
  A clock reading is an argument (\<open>clock_gettime\<close>, \<open>QueryPerformanceCounter\<close> and their like are
  outside the sources).
\<close>

section \<open>Time unit conversion\<close>

text \<open>The macros at the unsigned 64-bit type they are used at.\<close>

definition NS_TO_US :: "u64 \<Rightarrow> u64" where "NS_TO_US x = x div 1000"
definition US_TO_NS :: "u64 \<Rightarrow> u64" where "US_TO_NS x = x * 1000"
definition NS100_TO_US :: "u64 \<Rightarrow> u64" where "NS100_TO_US x = x div 10"
definition US_TO_NS100 :: "u64 \<Rightarrow> u64" where "US_TO_NS100 x = x * 10"
definition MS_TO_NS100 :: "u64 \<Rightarrow> u64" where "MS_TO_NS100 x = x * 10000"
definition NS100_TO_MS :: "u64 \<Rightarrow> u64" where "NS100_TO_MS x = x div 10000"
definition US_TO_MS :: "u64 \<Rightarrow> u64" where "US_TO_MS x = x div 1000"
definition MS_TO_US :: "u64 \<Rightarrow> u64" where "MS_TO_US x = x * 1000"
definition US_TO_S :: "u64 \<Rightarrow> u64" where "US_TO_S x = x div (1000 * 1000)"
definition S_TO_US :: "u64 \<Rightarrow> u64" where "S_TO_US x = x * 1000 * 1000"
definition S_TO_NS :: "u64 \<Rightarrow> u64" where "S_TO_NS x = x * 1000 * 1000 * 1000"
definition MS_TO_S :: "u64 \<Rightarrow> u64" where "MS_TO_S x = x div 1000"
definition S_TO_MS :: "u64 \<Rightarrow> u64" where "S_TO_MS x = x * 1000"

section \<open>Clock comparison and difference\<close>

definition posix_CxPlatTimeDiff64 :: "u64 \<Rightarrow> u64 \<Rightarrow> u64" where
  "posix_CxPlatTimeDiff64 T1 T2 = T2 - T1"

definition posix_CxPlatTimeDiff32 :: "u32 \<Rightarrow> u32 \<Rightarrow> u32" where
  "posix_CxPlatTimeDiff32 T1 T2 =
     (if T2 > T1 then T2 - T1 else T2 + (0xFFFFFFFF - T1) + 1)"

definition posix_CxPlatTimeAtOrBefore64 :: "u64 \<Rightarrow> u64 \<Rightarrow> bool" where
  "posix_CxPlatTimeAtOrBefore64 T1 T2 \<longleftrightarrow> T1 \<le> T2"

definition posix_CxPlatTimeAtOrBefore32 :: "u32 \<Rightarrow> u32 \<Rightarrow> bool" where
  "posix_CxPlatTimeAtOrBefore32 T1 T2 \<longleftrightarrow> sint (T1 - T2) \<le> 0"

definition winuser_CxPlatTimeDiff64 :: "u64 \<Rightarrow> u64 \<Rightarrow> u64" where
  "winuser_CxPlatTimeDiff64 T1 T2 = T2 - T1"

definition winuser_CxPlatTimeDiff32 :: "u32 \<Rightarrow> u32 \<Rightarrow> u32" where
  "winuser_CxPlatTimeDiff32 T1 T2 =
     (if T2 > T1 then T2 - T1 else T2 + (0xFFFFFFFF - T1) + 1)"

definition winuser_CxPlatTimeAtOrBefore64 :: "u64 \<Rightarrow> u64 \<Rightarrow> bool" where
  "winuser_CxPlatTimeAtOrBefore64 T1 T2 \<longleftrightarrow> T1 \<le> T2"

definition winuser_CxPlatTimeAtOrBefore32 :: "u32 \<Rightarrow> u32 \<Rightarrow> bool" where
  "winuser_CxPlatTimeAtOrBefore32 T1 T2 \<longleftrightarrow> sint (T1 - T2) \<le> 0"

definition winkernel_CxPlatTimeDiff64 :: "u64 \<Rightarrow> u64 \<Rightarrow> u64" where
  "winkernel_CxPlatTimeDiff64 T1 T2 = T2 - T1"

definition winkernel_CxPlatTimeDiff32 :: "u32 \<Rightarrow> u32 \<Rightarrow> u32" where
  "winkernel_CxPlatTimeDiff32 T1 T2 =
     (if T2 > T1 then T2 - T1 else T2 + (0xFFFFFFFF - T1) + 1)"

definition winkernel_CxPlatTimeAtOrBefore64 :: "u64 \<Rightarrow> u64 \<Rightarrow> bool" where
  "winkernel_CxPlatTimeAtOrBefore64 T1 T2 \<longleftrightarrow> T1 \<le> T2"

definition winkernel_CxPlatTimeAtOrBefore32 :: "u32 \<Rightarrow> u32 \<Rightarrow> bool" where
  "winkernel_CxPlatTimeAtOrBefore32 T1 T2 \<longleftrightarrow> sint (T1 - T2) \<le> 0"

section \<open>Performance counter conversion (Windows)\<close>

text \<open>
  \<open>Freq\<close> is the global \<open>CxPlatPerfFreq\<close>. It is zero until \<open>CxPlatInitialize\<close> has run, and then
  the division traps.
\<close>

definition winuser_CxPlatTimePlatToUs64 :: "u64 \<Rightarrow> u64 \<Rightarrow> u64 result" where
  "winuser_CxPlatTimePlatToUs64 Freq Count =
     (let High = drop_bit 32 Count * 1000000;
          Low = (Count AND 0xFFFFFFFF) * 1000000
      in guardR (Freq \<noteq> 0) DivByZero
           (Inr (push_bit 32 (High div Freq) + (Low + push_bit 32 (High mod Freq)) div Freq)))"

definition winuser_CxPlatTimeUs64ToPlat :: "u64 \<Rightarrow> u64 \<Rightarrow> u64 result" where
  "winuser_CxPlatTimeUs64ToPlat Freq TimeUs =
     (let High = drop_bit 32 TimeUs * Freq;
          Low = (TimeUs AND 0xFFFFFFFF) * Freq
      in guardR (Freq \<noteq> 0) DivByZero
           (Inr (push_bit 32 (High div 1000000) + (Low + push_bit 32 (High mod 1000000)) div Freq)))"

definition winkernel_CxPlatTimePlatToUs64 :: "u64 \<Rightarrow> u64 \<Rightarrow> u64 result" where
  "winkernel_CxPlatTimePlatToUs64 Freq Count =
     (let High = drop_bit 32 Count * 1000000;
          Low = (Count AND 0xFFFFFFFF) * 1000000
      in guardR (Freq \<noteq> 0) DivByZero
           (Inr (push_bit 32 (High div Freq) + (Low + push_bit 32 (High mod Freq)) div Freq)))"

definition winkernel_CxPlatTimeUs64ToPlat :: "u64 \<Rightarrow> u64 \<Rightarrow> u64 result" where
  "winkernel_CxPlatTimeUs64ToPlat Freq TimeUs =
     (let High = drop_bit 32 TimeUs * Freq;
          Low = (TimeUs AND 0xFFFFFFFF) * Freq
      in Inr (push_bit 32 (High div 1000000) + (Low + push_bit 32 (High mod 1000000)) div 1000000))"

text \<open>The derived clocks: \<open>Plat\<close> is the counter value \<open>CxPlatTimePlat()\<close> read.\<close>

text \<open>The reading of the performance counter is an argument.\<close>

definition winuser_CxPlatTimePlat :: "u64 \<Rightarrow> u64" where
  "winuser_CxPlatTimePlat Count = Count"

definition winkernel_CxPlatTimePlat :: "i64 \<Rightarrow> u64" where
  "winkernel_CxPlatTimePlat QuadPart = QuadPart"

definition winuser_CxPlatTimeUs64 :: "u64 \<Rightarrow> u64 \<Rightarrow> u64 result" where
  "winuser_CxPlatTimeUs64 Freq Count = winuser_CxPlatTimePlatToUs64 Freq (winuser_CxPlatTimePlat Count)"

definition winuser_CxPlatTimeUs32 :: "u64 \<Rightarrow> u64 \<Rightarrow> u32 result" where
  "winuser_CxPlatTimeUs32 Freq Plat = bindR (winuser_CxPlatTimeUs64 Freq Plat) (\<lambda>t. Inr (ucast t))"

definition winuser_CxPlatTimeMs64 :: "u64 \<Rightarrow> u64 \<Rightarrow> u64 result" where
  "winuser_CxPlatTimeMs64 Freq Plat = bindR (winuser_CxPlatTimeUs64 Freq Plat) (\<lambda>t. Inr (US_TO_MS t))"

definition winuser_CxPlatTimeMs32 :: "u64 \<Rightarrow> u64 \<Rightarrow> u32 result" where
  "winuser_CxPlatTimeMs32 Freq Plat = bindR (winuser_CxPlatTimeMs64 Freq Plat) (\<lambda>t. Inr (ucast t))"

definition winkernel_CxPlatTimeUs64 :: "u64 \<Rightarrow> u64 \<Rightarrow> u64 result" where
  "winkernel_CxPlatTimeUs64 Freq QuadPart = winkernel_CxPlatTimePlatToUs64 Freq (winkernel_CxPlatTimePlat QuadPart)"

definition winkernel_CxPlatTimeUs32 :: "u64 \<Rightarrow> u64 \<Rightarrow> u32 result" where
  "winkernel_CxPlatTimeUs32 Freq Plat = bindR (winkernel_CxPlatTimeUs64 Freq Plat) (\<lambda>t. Inr (ucast t))"

definition winkernel_CxPlatTimeMs64 :: "u64 \<Rightarrow> u64 \<Rightarrow> u64 result" where
  "winkernel_CxPlatTimeMs64 Freq Plat = bindR (winkernel_CxPlatTimeUs64 Freq Plat) (\<lambda>t. Inr (US_TO_MS t))"

definition winkernel_CxPlatTimeMs32 :: "u64 \<Rightarrow> u64 \<Rightarrow> u32 result" where
  "winkernel_CxPlatTimeMs32 Freq Plat = bindR (winkernel_CxPlatTimeMs64 Freq Plat) (\<lambda>t. Inr (ucast t))"

section \<open>Timer resolution, epoch time and relative timeouts\<close>

text \<open>\<open>Increment\<close> and \<open>MaximumTime\<close> are the 32-bit values the system call stores.\<close>

definition winuser_CxPlatGetTimerResolution :: "u32 \<Rightarrow> u64" where
  "winuser_CxPlatGetTimerResolution Increment = ucast (Increment div 10)"

definition winkernel_CxPlatGetTimerResolution :: "u32 \<Rightarrow> u64" where
  "winkernel_CxPlatGetTimerResolution MaximumTime = ucast (MaximumTime div 10)"

definition UNIX_EPOCH_AS_FILE_TIME :: int where
  "UNIX_EPOCH_AS_FILE_TIME = 0x19db1ded53e8000"

text \<open>\<open>QuadPart\<close> is a signed 64-bit value and C's signed division truncates.\<close>

definition winuser_CxPlatTimeEpochMs64 :: "i64 \<Rightarrow> int" where
  "winuser_CxPlatTimeEpochMs64 QuadPart = (sint QuadPart - UNIX_EPOCH_AS_FILE_TIME) sdiv 10000"

definition winkernel_CxPlatTimeEpochMs64 :: "i64 \<Rightarrow> int" where
  "winkernel_CxPlatTimeEpochMs64 QuadPart = (sint QuadPart - UNIX_EPOCH_AS_FILE_TIME) sdiv 10000"

text \<open>
  The kernel's timers take a signed 64-bit count of 100ns units in which a negative value is
  relative to now and a positive one an absolute date. \<open>Mul\<close> stands for the SDK macro
  \<open>Int32x32To64\<close> and \<open>UMul\<close> for \<open>UInt32x32To64\<close>.
\<close>

definition winkernel_CxPlatSleep :: "bool \<Rightarrow> (i32 \<Rightarrow> i32 \<Rightarrow> i64) \<Rightarrow> u32 \<Rightarrow> i64 result" where
  "winkernel_CxPlatSleep dbg Mul DurationMs =
     guardR (dbg \<longrightarrow> DurationMs \<noteq> -1) AssertFailed (Inr (Mul DurationMs (-10000)))"

definition winkernel_Timeout100Ns :: "bool \<Rightarrow> (u32 \<Rightarrow> u32 \<Rightarrow> u64) \<Rightarrow> u32 \<Rightarrow> i64 result" where
  "winkernel_Timeout100Ns dbg UMul TimeoutMs =
     guardR (dbg \<longrightarrow> TimeoutMs \<noteq> 0xFFFFFFFF) AssertFailed (Inr (-1 * UMul TimeoutMs 10000))"

section \<open>The POSIX clock\<close>

text \<open>\<open>time_t\<close> and \<open>long\<close> are signed 64-bit; \<open>wrap_s64\<close> is the value such a variable then holds.\<close>

record timespec =
  tv_sec :: int
  tv_nsec :: int

definition wrap_s64 :: "int \<Rightarrow> int" where
  "wrap_s64 x = signed_take_bit 63 x"

definition posix_CxPlatTimespecToUs :: "timespec \<Rightarrow> u64" where
  "posix_CxPlatTimespecToUs Time =
     word_of_int (tv_sec Time * 1000000 + tv_nsec Time sdiv 1000)"

text \<open>\<open>Clock\<close> is the pair of the error code and the stored \<open>timespec\<close> of the system call.\<close>

definition posix_CxPlatGetTimerResolution :: "bool \<Rightarrow> int \<times> timespec \<Rightarrow> u64 result" where
  "posix_CxPlatGetTimerResolution dbg Clock =
     (case Clock of (ErrorCode, Res) \<Rightarrow>
        guardR (dbg \<longrightarrow> ErrorCode = 0) AssertFailed (Inr (posix_CxPlatTimespecToUs Res)))"

definition posix_CxPlatTimeUs64 :: "bool \<Rightarrow> int \<times> timespec \<Rightarrow> u64 result" where
  "posix_CxPlatTimeUs64 dbg Clock =
     (case Clock of (ErrorCode, CurrTime) \<Rightarrow>
        guardR (dbg \<longrightarrow> ErrorCode = 0) AssertFailed (Inr (posix_CxPlatTimespecToUs CurrTime)))"

definition posix_CxPlatTimeUs32 :: "bool \<Rightarrow> int \<times> timespec \<Rightarrow> u32 result" where
  "posix_CxPlatTimeUs32 dbg Clock = bindR (posix_CxPlatTimeUs64 dbg Clock) (\<lambda>t. Inr (ucast t))"

definition posix_CxPlatTimeMs64 :: "bool \<Rightarrow> int \<times> timespec \<Rightarrow> u64 result" where
  "posix_CxPlatTimeMs64 dbg Clock = bindR (posix_CxPlatTimeUs64 dbg Clock) (\<lambda>t. Inr (t div 1000))"

definition posix_CxPlatTimeMs32 :: "bool \<Rightarrow> int \<times> timespec \<Rightarrow> u32 result" where
  "posix_CxPlatTimeMs32 dbg Clock = bindR (posix_CxPlatTimeMs64 dbg Clock) (\<lambda>t. Inr (ucast t))"

definition posix_CxPlatTimeUs64ToPlat :: "u64 \<Rightarrow> u64" where
  "posix_CxPlatTimeUs64ToPlat x = x"

definition posix_CxPlatTimeEpochMs64 :: "int \<Rightarrow> int \<Rightarrow> int" where
  "posix_CxPlatTimeEpochMs64 sec usec = sec * 1000 + usec sdiv 1000"

definition posix_CxPlatGetAbsoluteTime :: "bool \<Rightarrow> int \<times> timespec \<Rightarrow> u64 \<Rightarrow> timespec result" where
  "posix_CxPlatGetAbsoluteTime dbg Clock DeltaMs =
     (case Clock of (ErrorCode, Time) \<Rightarrow>
        guardR (dbg \<longrightarrow> ErrorCode = 0) AssertFailed
          (let Time = Time\<lparr>tv_sec := wrap_s64 (tv_sec Time + uint (DeltaMs div 1000))\<rparr>;
               Time = Time\<lparr>tv_nsec := wrap_s64 (tv_nsec Time + uint ((DeltaMs mod 1000) * 1000000))\<rparr>;
               Time = (if tv_nsec Time \<ge> 1000000000
                       then Time\<lparr>tv_sec := wrap_s64 (tv_sec Time + 1),
                                 tv_nsec := tv_nsec Time - 1000000000\<rparr>
                       else Time)
           in guardR (dbg \<longrightarrow> tv_sec Time \<ge> 0 \<and> tv_nsec Time \<ge> 0 \<and> tv_nsec Time < 1000000000)
                AssertFailed (Inr Time)))"

text \<open>\<open>NanoSleep\<close> is the system call: the error code for a requested duration.\<close>

definition posix_CxPlatSleep :: "bool \<Rightarrow> (timespec \<Rightarrow> int) \<Rightarrow> u32 \<Rightarrow> timespec result" where
  "posix_CxPlatSleep dbg NanoSleep DurationMs =
     (let TS = \<lparr>tv_sec = uint (DurationMs div 1000), tv_nsec = uint (1000000 * (DurationMs mod 1000))\<rparr>
      in guardR (dbg \<longrightarrow> NanoSleep TS = 0) AssertFailed (Inr TS))"

section \<open>Wrapping 32-bit clocks\<close>

lemma diff32_wraps:
  fixes T1 T2 :: u32
  shows "(if T2 > T1 then T2 - T1 else T2 + (0xFFFFFFFF - T1) + 1) = T2 - T1"
proof -
  have "T2 + (0xFFFFFFFF - T1) + 1 = T2 - T1 + (0xFFFFFFFF + 1 :: u32)"
    by (simp add: algebra_simps)
  also have "(0xFFFFFFFF + 1 :: u32) = 0" by simp
  finally show ?thesis by simp
qed

locale wrap_clock32 =
  fixes diff :: "u32 \<Rightarrow> u32 \<Rightarrow> u32" and before :: "u32 \<Rightarrow> u32 \<Rightarrow> bool"
  assumes diff_sub: "diff t1 t2 = t2 - t1"
    and before_signed: "before t1 t2 \<longleftrightarrow> sint (t1 - t2) \<le> 0"
begin

lemma diff_chain: "diff t1 t2 + diff t2 t3 = diff t1 t3"
  by (simp add: diff_sub)

lemma diff_advance: "diff t (t + d) = d"
  by (simp add: diff_sub)

lemma before_iff_diff: "before t1 t2 \<longleftrightarrow> unat (diff t1 t2) \<le> 2 ^ 31"
  using sint_neg_nonpos_iff [of "t2 - t1"] by (simp add: before_signed diff_sub)

lemma diff_flip: "unat (diff t2 t1) = (if t1 = t2 then 0 else 2 ^ 32 - unat (diff t1 t2))"
  using unat_neg32 [of "diff t1 t2"] by (auto simp: diff_sub)

text \<open>A 32-bit clock that shows the low bits of an unbounded one measures it exactly.\<close>

lemma diff_elapsed:
  assumes "a \<le> b" and "b - a < 2 ^ 32"
  shows "unat (diff (of_nat a) (of_nat b)) = b - a"
proof -
  have "diff (of_nat a) (of_nat b) = of_nat (b - a)"
    using assms(1) by (simp add: diff_sub of_nat_diff)
  then show ?thesis using assms(2) by (simp add: unat_of_nat)
qed

lemma before_elapsed:
  assumes "a \<le> b" and "b - a \<le> 2 ^ 31"
  shows "before (of_nat a) (of_nat b)"
  using assms diff_elapsed [of a b] by (simp add: before_iff_diff)

lemma not_before_elapsed:
  assumes "a < b" and "b - a < 2 ^ 31"
  shows "\<not> before (of_nat b) (of_nat a)"
proof -
  have d: "unat (diff (of_nat a) (of_nat b)) = b - a"
    using assms by (intro diff_elapsed) simp_all
  then have "of_nat a \<noteq> (of_nat b :: u32)" using assms by (auto simp: diff_sub)
  then have "unat (diff (of_nat b) (of_nat a)) = 2 ^ 32 - (b - a)"
    using diff_flip [of "of_nat b" "of_nat a"] d by simp
  then show ?thesis using assms by (simp add: before_iff_diff)
qed

lemma before_total: "before t1 t2 \<or> before t2 t1"
  unfolding before_iff_diff diff_flip [of t2 t1] by auto

lemma before_both_iff: "before t1 t2 \<and> before t2 t1 \<longleftrightarrow> t1 = t2 \<or> unat (diff t1 t2) = 2 ^ 31"
proof (cases "t1 = t2")
  case True
  then show ?thesis by (simp add: before_iff_diff diff_sub)
next
  case False
  then show ?thesis unfolding before_iff_diff diff_flip [of t2 t1] by auto
qed

lemma before_trans:
  assumes "before t1 t2" and "before t2 t3" and "unat (diff t1 t2) + unat (diff t2 t3) \<le> 2 ^ 31"
  shows "before t1 t3"
proof -
  have "unat (diff t1 t3) = unat (diff t1 t2) + unat (diff t2 t3)"
    unfolding diff_chain [of t1 t2 t3, symmetric] using assms(3)
    by (intro unat_add_bounded) simp
  then show ?thesis using assms(3) by (simp add: before_iff_diff)
qed

end

lemmas clock32_defs =
  posix_CxPlatTimeDiff32_def posix_CxPlatTimeAtOrBefore32_def
  winuser_CxPlatTimeDiff32_def winuser_CxPlatTimeAtOrBefore32_def
  winkernel_CxPlatTimeDiff32_def winkernel_CxPlatTimeAtOrBefore32_def

interpretation posix_clock: wrap_clock32 posix_CxPlatTimeDiff32 posix_CxPlatTimeAtOrBefore32
  by unfold_locales (simp_all only: clock32_defs diff32_wraps)

interpretation winuser_clock: wrap_clock32 winuser_CxPlatTimeDiff32 winuser_CxPlatTimeAtOrBefore32
  by unfold_locales (simp_all only: clock32_defs diff32_wraps)

interpretation winkernel_clock: wrap_clock32 winkernel_CxPlatTimeDiff32 winkernel_CxPlatTimeAtOrBefore32
  by unfold_locales (simp_all only: clock32_defs diff32_wraps)

section \<open>Performance counters\<close>

lemma winuser_PlatToUs64_scaled:
  assumes "f \<noteq> 0" and "unat f + 1000000 \<le> 2 ^ 32"
  shows "winuser_CxPlatTimePlatToUs64 f c = Inr (of_nat (unat c * 1000000 div unat f))"
  using assms muldiv64 [of f 1000000 c]
  by (simp add: winuser_CxPlatTimePlatToUs64_def Let_def)

lemma winkernel_PlatToUs64_scaled:
  assumes "f \<noteq> 0" and "unat f + 1000000 \<le> 2 ^ 32"
  shows "winkernel_CxPlatTimePlatToUs64 f c = Inr (of_nat (unat c * 1000000 div unat f))"
  using assms muldiv64 [of f 1000000 c]
  by (simp add: winkernel_CxPlatTimePlatToUs64_def Let_def)

lemma winkernel_Us64ToPlat_scaled:
  assumes "unat f + 1000000 \<le> 2 ^ 32"
  shows "winkernel_CxPlatTimeUs64ToPlat f t = Inr (of_nat (unat t * unat f div 1000000))"
  using assms muldiv64 [of 1000000 f t]
  by (simp add: winkernel_CxPlatTimeUs64ToPlat_def Let_def)

locale tick_clock =
  fixes to_us :: "u64 \<Rightarrow> u64 \<Rightarrow> u64 result"
  assumes to_us_scaled: "f \<noteq> 0 \<Longrightarrow> unat f + 1000000 \<le> 2 ^ 32 \<Longrightarrow>
      to_us f c = Inr (of_nat (unat c * 1000000 div unat f))"
    and to_us_zero: "to_us 0 c = Inl DivByZero"
begin

lemma to_us_exact:
  assumes "f \<noteq> 0" and "unat f + 1000000 \<le> 2 ^ 32" and "unat c * 1000000 div unat f < 2 ^ 64"
  shows "\<exists>t. to_us f c = Inr t \<and> unat t = unat c * 1000000 div unat f"
  using assms by (simp add: to_us_scaled unat_of_nat)

lemma to_us_mono:
  assumes "f \<noteq> 0" and "unat f + 1000000 \<le> 2 ^ 32" and "c1 \<le> c2"
    and "unat c2 * 1000000 div unat f < 2 ^ 64"
  shows "\<exists>t1 t2. to_us f c1 = Inr t1 \<and> to_us f c2 = Inr t2 \<and> t1 \<le> t2"
proof -
  have "unat c1 * 1000000 div unat f \<le> unat c2 * 1000000 div unat f"
    using assms(3) by (intro div_le_mono) (simp add: word_le_nat_alt)
  then show ?thesis
    using assms to_us_exact [of f c1] to_us_exact [of f c2] by (force simp: word_le_nat_alt)
qed

text \<open>Counting one more second of ticks advances the clock by exactly a million microseconds.\<close>

lemma to_us_second:
  assumes "f \<noteq> 0" and "unat f + 1000000 \<le> 2 ^ 32" and "unat c + unat f < 2 ^ 64"
  shows "to_us f (c + f) = bindR (to_us f c) (\<lambda>t. Inr (t + 1000000))"
proof -
  have "unat (c + f) = unat c + unat f" using assms(3) by (simp add: unat_add_bounded)
  then have "unat (c + f) * 1000000 div unat f = unat c * 1000000 div unat f + 1000000"
    using assms(1) by (simp add: distrib_right unat_gt_0)
  then show ?thesis using assms(1,2) by (simp add: to_us_scaled)
qed

end

locale perf_clock = tick_clock to_us
  for to_us :: "u64 \<Rightarrow> u64 \<Rightarrow> u64 result" +
  fixes to_plat :: "u64 \<Rightarrow> u64 \<Rightarrow> u64 result"
  assumes to_plat_scaled: "unat f + 1000000 \<le> 2 ^ 32 \<Longrightarrow>
      to_plat f t = Inr (of_nat (unat t * unat f div 1000000))"
begin

lemma to_plat_roundtrip:
  assumes "1000000 \<le> unat f" and "unat f + 1000000 \<le> 2 ^ 32"
    and "unat t * unat f div 1000000 < 2 ^ 64"
  shows "\<exists>p r. to_plat f t = Inr p \<and> to_us f p = Inr r \<and> unat r \<le> unat t \<and> unat t \<le> unat r + 1"
proof -
  have f0: "f \<noteq> 0" using assms(1) by auto
  let ?p = "of_nat (unat t * unat f div 1000000) :: u64"
  have p: "to_plat f t = Inr ?p" using assms(2) by (rule to_plat_scaled)
  have up: "unat ?p = unat t * unat f div 1000000" using assms(3) by (simp add: unat_of_nat)
  have rt: "unat ?p * 1000000 div unat f \<le> unat t" "unat t \<le> unat ?p * 1000000 div unat f + 1"
    unfolding up using assms(1) by (intro scale_roundtrip; simp)+
  have "unat t < 2 ^ 64" using unsigned_less [of t] by simp
  then obtain r where "to_us f ?p = Inr r" "unat r = unat ?p * 1000000 div unat f"
    using to_us_exact [OF f0 assms(2), of ?p] rt(1) by auto
  with p rt show ?thesis by auto
qed

end

interpretation winuser_ticks: tick_clock winuser_CxPlatTimePlatToUs64
  by unfold_locales (simp_all add: winuser_PlatToUs64_scaled, simp add: winuser_CxPlatTimePlatToUs64_def)

interpretation winkernel_ticks: perf_clock winkernel_CxPlatTimePlatToUs64 winkernel_CxPlatTimeUs64ToPlat
  by unfold_locales
    (simp_all add: winkernel_PlatToUs64_scaled winkernel_Us64ToPlat_scaled,
     simp add: winkernel_CxPlatTimePlatToUs64_def)

text \<open>
  The user mode \<open>CxPlatTimeUs64ToPlat\<close> divides the low half by the frequency where the kernel one
  divides by a million, so below \<open>2 ^ 32\<close> microseconds it returns its argument.
\<close>

lemma winuser_Us64ToPlat_low:
  assumes "f \<noteq> 0" and "unat f < 2 ^ 32" and "unat t < 2 ^ 32"
  shows "winuser_CxPlatTimeUs64ToPlat f t = Inr t"
proof -
  have h: "drop_bit 32 t = 0"
    using assms(3) by (intro word_unat_eq_iff [THEN iffD2]) (simp add: unat_drop_bit)
  have l: "t AND 0xFFFFFFFF = t"
    using assms(3) by (intro word_unat_eq_iff [THEN iffD2]) (simp add: unat_and_mask32)
  have "unat t * unat f \<le> (2 ^ 32 - 1) * (2 ^ 32 - 1)"
    using assms(2,3) by (intro mult_mono) simp_all
  then have "unat (t * f) = unat t * unat f" by (intro unat_mult_bounded) simp
  then have "t * f div f = t"
    using assms(1) by (intro word_unat_eq_iff [THEN iffD2]) (simp add: unat_div unat_gt_0)
  then show ?thesis using assms(1) by (simp add: winuser_CxPlatTimeUs64ToPlat_def Let_def h l)
qed

section \<open>POSIX deadlines\<close>

text \<open>The nanoseconds a \<open>timespec\<close> stands for, and the form the system calls require.\<close>

definition timespec_ns :: "timespec \<Rightarrow> int" where
  "timespec_ns ts = tv_sec ts * 1000000000 + tv_nsec ts"

definition timespec_valid :: "timespec \<Rightarrow> bool" where
  "timespec_valid ts \<longleftrightarrow> 0 \<le> tv_sec ts \<and> 0 \<le> tv_nsec ts \<and> tv_nsec ts < 1000000000"

lemma wrap_s64_id: "- (2 ^ 63) \<le> x \<Longrightarrow> x < 2 ^ 63 \<Longrightarrow> wrap_s64 x = x"
  by (simp add: wrap_s64_def signed_take_bit_int_eq_self)

lemma GetAbsoluteTime_spec:
  assumes "timespec_valid now" and "tv_sec now + uint (DeltaMs div 1000) + 1 < 2 ^ 63"
  shows "\<exists>ts. posix_CxPlatGetAbsoluteTime dbg (0, now) DeltaMs = Inr ts \<and> timespec_valid ts \<and>
    timespec_ns ts = timespec_ns now + uint DeltaMs * 1000000"
proof -
  let ?s = "uint DeltaMs div 1000" and ?m = "uint DeltaMs mod 1000"
  have s: "uint (DeltaMs div 1000) = ?s" and m: "uint (DeltaMs mod 1000) = ?m"
    by (simp_all add: uint_div uint_mod)
  have split: "uint DeltaMs = ?s * 1000 + ?m" by simp
  have m_bounds: "0 \<le> ?m" "?m < 1000" by simp_all
  have s0: "0 \<le> ?s" by (simp add: pos_imp_zdiv_nonneg_iff)
  have ns: "uint ((DeltaMs mod 1000) * 1000000) = ?m * 1000000"
    using m_bounds by (simp add: uint_word_ariths m)
  have total: "?s * 1000000000 + ?m * 1000000 = uint DeltaMs * 1000000" using split by linarith
  show ?thesis
    using assms m_bounds s0
    by (auto simp: posix_CxPlatGetAbsoluteTime_def Let_def s ns wrap_s64_id timespec_valid_def
        timespec_ns_def total)
qed

lemma Sleep_request:
  "posix_CxPlatSleep dbg NanoSleep DurationMs = Inr ts \<Longrightarrow>
    timespec_valid ts \<and> timespec_ns ts = uint DurationMs * 1000000"
proof -
  let ?s = "uint DurationMs div 1000" and ?m = "uint DurationMs mod 1000"
  have m_bounds: "0 \<le> ?m" "?m < 1000" by simp_all
  have ns: "uint (1000000 * (DurationMs mod 1000)) = 1000000 * ?m"
    using m_bounds by (simp add: uint_word_ariths uint_mod)
  have "uint DurationMs = ?s * 1000 + ?m" by simp
  then have "?s * 1000000000 + 1000000 * ?m = uint DurationMs * 1000000" by linarith
  moreover assume "posix_CxPlatSleep dbg NanoSleep DurationMs = Inr ts"
  ultimately show ?thesis using m_bounds
    by (auto simp: posix_CxPlatSleep_def Let_def timespec_valid_def timespec_ns_def uint_div ns
        pos_imp_zdiv_nonneg_iff)
qed

text \<open>Two signed 32-bit factors have a signed 64-bit product.\<close>

lemma Int32x32To64_product: "sint (word_of_int (sint a * sint b) :: i64) = sint (a :: i32) * sint (b :: i32)"
proof -
  have bound: "\<bar>sint w\<bar> \<le> 2 ^ 31" for w :: i32
    using sint_ge [of w] sint_lt [of w] by simp
  have "\<bar>sint a * sint b\<bar> \<le> 2 ^ 31 * 2 ^ 31"
    unfolding abs_mult by (intro mult_mono bound) simp_all
  then have "- (2 ^ 63) \<le> sint a * sint b" "sint a * sint b < 2 ^ 63" by simp_all
  then show ?thesis by (simp only: sint_sbintrunc') (simp add: signed_take_bit_int_eq_self)
qed

section \<open>Properties\<close>

text \<open>
  A 32-bit timestamp shows the low bits of the real time. On every platform
  \<open>CxPlatTimeDiff32\<close> of two timestamps is the exact elapsed time, through the wrap-around of the
  counter, as long as less than \<open>2 ^ 32\<close> units have passed.
\<close>

theorem TimeDiff32_elapsed:
  assumes "a \<le> b" and "b - a < 2 ^ 32"
  shows "unat (posix_CxPlatTimeDiff32 (of_nat a) (of_nat b)) = b - a \<and>
    unat (winuser_CxPlatTimeDiff32 (of_nat a) (of_nat b)) = b - a \<and>
    unat (winkernel_CxPlatTimeDiff32 (of_nat a) (of_nat b)) = b - a"
  using assms
  by (intro conjI posix_clock.diff_elapsed winuser_clock.diff_elapsed winkernel_clock.diff_elapsed)

theorem TimeDiff32_elapsed_witness:
  "unat (posix_CxPlatTimeDiff32 (of_nat 4294967290) (of_nat 4294967306)) = 16"
  using TimeDiff32_elapsed [of 4294967290 4294967306] by simp

text \<open>
  On every platform \<open>CxPlatTimeAtOrBefore32\<close> of two 32-bit timestamps is the order of the real
  times they were taken at, whenever these are less than \<open>2 ^ 31\<close> units apart, in either order
  and across the wrap-around.
\<close>

theorem TimeAtOrBefore32_orders:
  assumes "\<bar>int a - int b\<bar> < 2 ^ 31"
  shows "(posix_CxPlatTimeAtOrBefore32 (of_nat a) (of_nat b) \<longleftrightarrow> a \<le> b) \<and>
    (winuser_CxPlatTimeAtOrBefore32 (of_nat a) (of_nat b) \<longleftrightarrow> a \<le> b) \<and>
    (winkernel_CxPlatTimeAtOrBefore32 (of_nat a) (of_nat b) \<longleftrightarrow> a \<le> b)"
proof (cases "a \<le> b")
  case True
  then have "b - a \<le> 2 ^ 31" using assms by (simp add: abs_less_iff)
  with True show ?thesis
    using posix_clock.before_elapsed winuser_clock.before_elapsed winkernel_clock.before_elapsed
    by blast
next
  case False
  then have "b < a" and "a - b < 2 ^ 31" using assms by (simp_all add: abs_less_iff)
  with False show ?thesis
    using posix_clock.not_before_elapsed winuser_clock.not_before_elapsed
      winkernel_clock.not_before_elapsed
    by blast
qed

theorem TimeAtOrBefore32_orders_witness:
  "posix_CxPlatTimeAtOrBefore32 (of_nat 4294967295) (of_nat 4294967297) \<and>
    \<not> posix_CxPlatTimeAtOrBefore32 (of_nat 4294967297) (of_nat 4294967295)"
  using TimeAtOrBefore32_orders [of 4294967295 4294967297]
    TimeAtOrBefore32_orders [of 4294967297 4294967295] by simp

text \<open>
  C21. \<open>CxPlatTimePlatToUs64\<close> of both Windows platforms converts every counter value to
  \<open>floor (Count * 1000000 / Freq)\<close> exactly, with no 64-bit intermediate overflowing, for every
  counter frequency up to \<open>2 ^ 32 - 1000000\<close> ticks per second, whenever the result itself fits.
\<close>

theorem PlatToUs64_exact:
  assumes "f \<noteq> 0" and "unat f + 1000000 \<le> 2 ^ 32" and "unat c * 1000000 div unat f < 2 ^ 64"
  shows "(\<exists>t. winuser_CxPlatTimePlatToUs64 f c = Inr t \<and> unat t = unat c * 1000000 div unat f) \<and>
    (\<exists>t. winkernel_CxPlatTimePlatToUs64 f c = Inr t \<and> unat t = unat c * 1000000 div unat f)"
  using winuser_ticks.to_us_exact [OF assms] winkernel_ticks.to_us_exact [OF assms] by blast

theorem PlatToUs64_exact_witness:
  "\<exists>t. winkernel_CxPlatTimePlatToUs64 10000000 0x123456789ABCDEF = Inr t \<and>
    unat t = 0x123456789ABCDEF * 1000000 div 10000000"
  using PlatToUs64_exact [of 10000000 "0x123456789ABCDEF"] by simp

text \<open>
  C37. The 32-bit millisecond clock with its difference, on the three platforms: when the 64-bit clock reads \<open>t1\<close> and later \<open>t2\<close>, and fewer than
  \<open>2 ^ 32\<close> milliseconds lie between them, then \<open>CxPlatTimeDiff32\<close> of the two readings of \<open>CxPlatTimeMs32\<close> is exactly the number of milliseconds
  by which the clock has advanced, also when the 32-bit clock has wrapped around in between.
\<close>

theorem Ms32_clock_measures_elapsed:
  assumes "unat t1 \<le> unat t2" and "unat t2 div 1000 - unat t1 div 1000 < 2 ^ 32"
  shows "(posix_CxPlatTimeUs64 dbg C1 = Inr t1 \<and> posix_CxPlatTimeUs64 dbg C2 = Inr t2 \<longrightarrow>
      (\<exists>m1 m2. posix_CxPlatTimeMs32 dbg C1 = Inr m1 \<and> posix_CxPlatTimeMs32 dbg C2 = Inr m2 \<and>
         unat (posix_CxPlatTimeDiff32 m1 m2) = unat t2 div 1000 - unat t1 div 1000)) \<and>
    (winuser_CxPlatTimeUs64 f c1 = Inr t1 \<and> winuser_CxPlatTimeUs64 f c2 = Inr t2 \<longrightarrow>
      (\<exists>m1 m2. winuser_CxPlatTimeMs32 f c1 = Inr m1 \<and> winuser_CxPlatTimeMs32 f c2 = Inr m2 \<and>
         unat (winuser_CxPlatTimeDiff32 m1 m2) = unat t2 div 1000 - unat t1 div 1000)) \<and>
    (winkernel_CxPlatTimeUs64 f c1 = Inr t1 \<and> winkernel_CxPlatTimeUs64 f c2 = Inr t2 \<longrightarrow>
      (\<exists>m1 m2. winkernel_CxPlatTimeMs32 f c1 = Inr m1 \<and> winkernel_CxPlatTimeMs32 f c2 = Inr m2 \<and>
         unat (winkernel_CxPlatTimeDiff32 m1 m2) = unat t2 div 1000 - unat t1 div 1000))"
proof -
  have low: "ucast (t div 1000) = (of_nat (unat t div 1000) :: u32)" for t :: u64
  proof -
    have "(of_nat (unat (t div 1000)) :: u32) = ucast (t div 1000)" by (rule of_nat_unat)
    then show ?thesis by (simp add: unat_div)
  qed
  note elapsed = div_le_mono [OF assms(1), of 1000] assms(2)
  show ?thesis
    using posix_clock.diff_elapsed [OF elapsed] winuser_clock.diff_elapsed [OF elapsed] winkernel_clock.diff_elapsed [OF elapsed]
    by (simp add: posix_CxPlatTimeMs32_def posix_CxPlatTimeMs64_def winuser_CxPlatTimeMs32_def winuser_CxPlatTimeMs64_def
        winkernel_CxPlatTimeMs32_def winkernel_CxPlatTimeMs64_def US_TO_MS_def low)
qed

theorem Ms32_clock_measures_elapsed_witness:
  "\<exists>m1 m2. winkernel_CxPlatTimeMs32 10000000 42949672950000 = Inr m1 \<and> winkernel_CxPlatTimeMs32 10000000 42949673960000 = Inr m2 \<and>
     unat (winkernel_CxPlatTimeDiff32 m1 m2) = 101"
proof -
  have "winkernel_CxPlatTimeUs64 10000000 42949672950000 = Inr 4294967295000" "winkernel_CxPlatTimeUs64 10000000 42949673960000 = Inr 4294967396000"
    by (simp_all add: winkernel_CxPlatTimeUs64_def winkernel_CxPlatTimePlat_def winkernel_CxPlatTimePlatToUs64_def Let_def)
  then show ?thesis
    using Ms32_clock_measures_elapsed [of 4294967295000 4294967396000 True "(0, \<lparr>tv_sec = 0, tv_nsec = 0\<rparr>)" "(0, \<lparr>tv_sec = 0, tv_nsec = 0\<rparr>)"
        10000000 42949672950000 42949673960000] by simp
qed

text \<open>
  In the kernel, converting microseconds to counter ticks and back loses at most one
  microsecond and never gains one, for every frequency from 1 MHz to \<open>2 ^ 32 - 1000000\<close> Hz.
\<close>

theorem Us64ToPlat_roundtrip:
  assumes "1000000 \<le> unat f" and "unat f + 1000000 \<le> 2 ^ 32"
    and "unat t * unat f div 1000000 < 2 ^ 64"
  shows "\<exists>p r. winkernel_CxPlatTimeUs64ToPlat f t = Inr p \<and>
    winkernel_CxPlatTimePlatToUs64 f p = Inr r \<and> unat r \<le> unat t \<and> unat t \<le> unat r + 1"
  using assms by (rule winkernel_ticks.to_plat_roundtrip)

theorem Us64ToPlat_roundtrip_witness:
  "\<exists>p r. winkernel_CxPlatTimeUs64ToPlat 14318180 987654321 = Inr p \<and>
    winkernel_CxPlatTimePlatToUs64 14318180 p = Inr r \<and>
    unat r \<le> 987654321 \<and> 987654321 \<le> unat r + 1"
  using Us64ToPlat_roundtrip [of 14318180 987654321] by simp

text \<open>
  The user mode \<open>CxPlatTimeUs64ToPlat\<close> is not the conversion the kernel one is: it divides the
  low half by \<open>CxPlatPerfFreq\<close> where it should divide by a million. For less than \<open>2 ^ 32\<close>
  microseconds it returns its argument whatever the frequency, and so agrees with the kernel's
  exact conversion only where \<open>TimeUs * Freq div 1000000 = TimeUs\<close>.
\<close>

theorem winuser_Us64ToPlat_is_identity:
  assumes "f \<noteq> 0" and "unat f + 1000000 \<le> 2 ^ 32" and "unat t < 2 ^ 32"
  shows "winuser_CxPlatTimeUs64ToPlat f t = Inr t \<and>
    (winuser_CxPlatTimeUs64ToPlat f t = winkernel_CxPlatTimeUs64ToPlat f t \<longleftrightarrow>
      unat t * unat f div 1000000 = unat t)"
proof -
  have "unat t * unat f \<le> (2 ^ 32 - 1) * 2 ^ 32"
    using assms(2,3) by (intro mult_mono) simp_all
  also have "\<dots> < 2 ^ 64" by simp
  finally have "unat t * unat f div 1000000 < 2 ^ 64"
    by (rule le_less_trans [OF div_le_dividend])
  then have "unat (of_nat (unat t * unat f div 1000000) :: u64) = unat t * unat f div 1000000"
    by (simp add: unat_of_nat)
  moreover have "winuser_CxPlatTimeUs64ToPlat f t = Inr t"
    using assms by (intro winuser_Us64ToPlat_low) simp_all
  ultimately show ?thesis
    using assms(2) by (auto simp: winkernel_Us64ToPlat_scaled word_unat_eq_iff)
qed

theorem winuser_Us64ToPlat_is_identity_witness:
  "winuser_CxPlatTimeUs64ToPlat 10000000 1 = Inr 1 \<and>
    winuser_CxPlatTimeUs64ToPlat 10000000 1 \<noteq> winkernel_CxPlatTimeUs64ToPlat 10000000 1"
  using winuser_Us64ToPlat_is_identity [of 10000000 1] by auto

text \<open>
  C22. \<open>CxPlatGetAbsoluteTime\<close> never fails one of its assertions when the clock reading is a valid
  time that does not overflow \<open>time_t\<close>: the deadline it returns is a valid \<open>timespec\<close> (the carry
  out of the nanoseconds is propagated) exactly \<open>DeltaMs\<close> milliseconds after the reading.
\<close>

theorem GetAbsoluteTime_deadline:
  assumes "timespec_valid now" and "tv_sec now + uint (DeltaMs div 1000) + 1 < 2 ^ 63"
  shows "\<exists>ts. posix_CxPlatGetAbsoluteTime dbg (0, now) DeltaMs = Inr ts \<and> timespec_valid ts \<and>
    timespec_ns ts = timespec_ns now + uint DeltaMs * 1000000"
  using assms by (rule GetAbsoluteTime_spec)

theorem GetAbsoluteTime_deadline_witness:
  "\<exists>ts. posix_CxPlatGetAbsoluteTime True (0, \<lparr>tv_sec = 5, tv_nsec = 999999999\<rparr>) 1500 = Inr ts \<and>
    timespec_valid ts \<and> timespec_ns ts = 7499999999"
  using GetAbsoluteTime_deadline [of "\<lparr>tv_sec = 5, tv_nsec = 999999999\<rparr>" 1500 True]
  by (simp add: timespec_valid_def timespec_ns_def)

text \<open>
  The kernel's \<open>CxPlatSleep\<close> arms its timer with a relative due time of exactly \<open>DurationMs\<close>
  milliseconds for every duration below \<open>2 ^ 31\<close>, and with a positive (absolute, long past) due
  time for every longer one, where the signed reading of \<open>DurationMs\<close> is negative; \<open>Mul\<close> is the
  SDK macro \<open>Int32x32To64\<close>, documented as the signed 64-bit product.
\<close>

theorem winkernel_Sleep_due_time:
  assumes "\<And>a b. sint (Mul a b) = sint a * sint b" and "DurationMs \<noteq> -1"
  shows "\<exists>due. winkernel_CxPlatSleep dbg Mul DurationMs = Inr due \<and>
    sint due = (if unat DurationMs < 2 ^ 31 then - (int (unat DurationMs) * 10000)
                else (2 ^ 32 - int (unat DurationMs)) * 10000)"
  using assms by (simp add: winkernel_CxPlatSleep_def sint_u32 [of DurationMs] algebra_simps)

theorem winkernel_Sleep_due_time_witness:
  "\<exists>due. winkernel_CxPlatSleep True (\<lambda>a b. word_of_int (sint a * sint b)) 0x80000000 = Inr due \<and> 0 < sint due"
  using winkernel_Sleep_due_time [of "\<lambda>a b. word_of_int (sint a * sint b)" "0x80000000" True,
      OF Int32x32To64_product] by auto

text \<open>
  \<open>CxPlatSleep\<close> on POSIX hands \<open>nanosleep\<close> a valid \<open>timespec\<close> of exactly \<open>DurationMs\<close>
  milliseconds, the 32-bit product of the nanoseconds never wrapping.
\<close>

theorem posix_Sleep_request:
  assumes "posix_CxPlatSleep dbg NanoSleep DurationMs = Inr ts"
  shows "timespec_valid ts \<and> timespec_ns ts = uint DurationMs * 1000000"
  using assms by (rule Sleep_request)

theorem posix_Sleep_request_witness:
  "\<exists>ts. posix_CxPlatSleep True (\<lambda>_. 0) 4294967295 = Inr ts \<and> timespec_ns ts = 4294967295000000"
proof -
  obtain ts where "posix_CxPlatSleep True (\<lambda>_. 0) 4294967295 = Inr ts"
    by (simp add: posix_CxPlatSleep_def Let_def)
  with posix_Sleep_request [OF this] show ?thesis by simp
qed

end
