(* ===== verification/CxTraits.thy ===== *)
theory CxTraits
  imports Main
begin

text \<open>
  The namespace \<open>cxplatstd\<close> at the top of \<open>inc/karray.h\<close>: \<open>remove_reference\<close>, \<open>move\<close> and the type
  traits. A template argument is an object type or a reference to one; the rules of the language
  the templates rest on (deduction of a forwarding reference, collapsing of references, the value
  category of a call) are functions on such types. The compiler's builtins behind the traits are
  the fields of a record.
\<close>

section \<open>References and value categories\<close>

datatype 'o cxx_type = Object 'o | LvalueRef 'o | RvalueRef 'o

datatype value_category = Lvalue | Rvalue

text \<open>
  The language: \<open>_Tp&&\<close> as a parameter deduces \<open>X&\<close> from an lvalue of type \<open>X\<close> and \<open>X\<close> from an
  rvalue; \<open>&&\<close> behind a reference collapses; a call that returns an lvalue reference is an lvalue.
\<close>

fun deduce_forwarding :: "value_category \<Rightarrow> 'o \<Rightarrow> 'o cxx_type" where
  "deduce_forwarding Lvalue x = LvalueRef x"
| "deduce_forwarding Rvalue x = Object x"

fun add_rvalue_reference :: "'o cxx_type \<Rightarrow> 'o cxx_type" where
  "add_rvalue_reference (Object x) = RvalueRef x"
| "add_rvalue_reference (LvalueRef x) = LvalueRef x"
| "add_rvalue_reference (RvalueRef x) = RvalueRef x"

fun category_of_call :: "'o cxx_type \<Rightarrow> value_category" where
  "category_of_call (LvalueRef x) = Lvalue"
| "category_of_call (RvalueRef x) = Rvalue"
| "category_of_call (Object x) = Rvalue"

section \<open>The library\<close>

text \<open>
  \<open>remove_reference\<close> has its primary template, which keeps the type, and one specialisation, for
  \<open>_Tp&&\<close>. There is none for \<open>_Tp&\<close>.
\<close>

fun remove_reference :: "'o cxx_type \<Rightarrow> 'o cxx_type" where
  "remove_reference (RvalueRef x) = Object x"
| "remove_reference t = t"

text \<open>The type of the call \<open>move(e)\<close> of an expression \<open>e\<close> of type \<open>x\<close> and the given category.\<close>

definition cxplatstd_move :: "value_category \<Rightarrow> 'o \<Rightarrow> 'o cxx_type" where
  "cxplatstd_move c x = add_rvalue_reference (remove_reference (deduce_forwarding c x))"

definition move_category :: "value_category \<Rightarrow> value_category" where
  "move_category c = category_of_call (cxplatstd_move c ())"

text \<open>
  Overload resolution for an argument \<open>move(t)\<close>, where \<open>t\<close> names a variable and so is an lvalue:
  the overload for \<open>T&&\<close> is viable only for an rvalue.
\<close>

definition overload_of_move :: "'f \<Rightarrow> 'f \<Rightarrow> 'f" where
  "overload_of_move for_rvalue for_lvalue =
     (case move_category Lvalue of Rvalue \<Rightarrow> for_rvalue | Lvalue \<Rightarrow> for_lvalue)"

section \<open>Traits\<close>

record 'o builtins =
  builtin_is_constructible :: "'o \<Rightarrow> bool"
  builtin_is_trivially_constructible :: "'o \<Rightarrow> bool"
  builtin_is_destructible :: "'o \<Rightarrow> bool"
  builtin_has_trivial_destructor :: "'o \<Rightarrow> bool"

definition is_constructible :: "'o builtins \<Rightarrow> 'o \<Rightarrow> bool" where
  "is_constructible B T = builtin_is_constructible B T"

definition is_trivially_constructible :: "'o builtins \<Rightarrow> 'o \<Rightarrow> bool" where
  "is_trivially_constructible B T = builtin_is_trivially_constructible B T"

definition is_trivially_default_constructible_v :: "'o builtins \<Rightarrow> 'o \<Rightarrow> bool" where
  "is_trivially_default_constructible_v B T = is_trivially_constructible B T"

definition is_destructible :: "'o builtins \<Rightarrow> 'o \<Rightarrow> bool" where
  "is_destructible B T = builtin_is_destructible B T"

definition is_trivially_destructible_v :: "'o builtins \<Rightarrow> 'o \<Rightarrow> bool" where
  "is_trivially_destructible_v B T \<longleftrightarrow> is_destructible B T \<and> builtin_has_trivial_destructor B T"

section \<open>What move returns\<close>

lemma cxplatstd_move_types [simp]:
  "cxplatstd_move Lvalue x = LvalueRef x"
  "cxplatstd_move Rvalue x = RvalueRef x"
  by (simp_all add: cxplatstd_move_def)

lemma move_category_id [simp]: "move_category c = c"
  by (cases c) (simp_all add: move_category_def)

lemma overload_of_move_lvalue [simp]: "overload_of_move for_rvalue for_lvalue = for_lvalue"
  by (simp add: overload_of_move_def)

end
