(* ===== verification/KArray.thy ===== *)
theory KArray
  imports CxPrelude CxTraits "HOL-Library.Multiset"
begin

text \<open>
  The container \<open>Rtl::KArray\<close> of \<open>inc/karray.h\<close> over an explicit pool of memory blocks. A block is
  a list of element cells; a cell is raw storage, an object, or an object that was moved from and
  still waits for its destructor. Reading raw or freed storage, writing out of bounds, constructing
  over a live object, freeing storage that holds one and freeing twice are faults of the model, so
  that "the result is not a fault" is memory safety and the absence of object leaks.

  \<open>size_t\<close> is 64 bits and \<open>ULONG\<close> 32 bits wide; both are natural numbers with the wrap-around of
  casts and subtractions written out.
\<close>

section \<open>Element types and memory\<close>

text \<open>What the templates ask of the element type \<open>T\<close>, and the two values \<open>resize\<close> can create.\<close>

record 'a traits =
  sizeofT :: nat
  trivially_copyable :: bool
  trivially_default_constructible :: bool
  trivially_destructible :: bool
  defaultT :: 'a
  zeroT :: 'a

definition wf_traits :: "'a traits \<Rightarrow> bool" where
  "wf_traits T \<longleftrightarrow> 0 < sizeofT T \<and>
     (trivially_copyable T \<longrightarrow> trivially_destructible T) \<and>
     (trivially_default_constructible T \<longrightarrow> trivially_destructible T)"

datatype 'a cell = Raw | Obj 'a | Husk

record 'a pool =
  blocks :: "nat \<Rightarrow> 'a cell list option"
  next_block :: nat
  refuses :: "nat \<Rightarrow> bool"

type_synonym ptr = "nat option"

text \<open>An argument of reference type: a temporary of the caller, or the object at a pool address.\<close>

datatype 'a cref = Temp 'a | At ptr nat

definition ULONG :: "nat \<Rightarrow> nat" where
  "ULONG n = n mod 2 ^ 32"

definition ULONG_sub :: "nat \<Rightarrow> nat \<Rightarrow> nat" where
  "ULONG_sub a b = (a + 2 ^ 32 - b) mod 2 ^ 32"

definition size_sub :: "nat \<Rightarrow> nat \<Rightarrow> nat" where
  "size_sub a b = (a + 2 ^ 64 - b) mod 2 ^ 64"

subsection \<open>Pool and object primitives\<close>

definition ExAllocatePoolUninitialized :: "'a traits \<Rightarrow> nat \<Rightarrow> 'a pool \<Rightarrow> ptr \<times> 'a pool" where
  "ExAllocatePoolUninitialized T NumberOfBytes pl =
     (let b = next_block pl; pl = pl\<lparr>next_block := Suc b\<rparr>
      in if refuses pl b then (None, pl)
         else (Some b, pl\<lparr>blocks := (blocks pl)(b \<mapsto> replicate (NumberOfBytes div sizeofT T) Raw)\<rparr>))"

definition get_block :: "'a pool \<Rightarrow> ptr \<Rightarrow> 'a cell list result" where
  "get_block pl p = (case p of None \<Rightarrow> Inl NullDeref
     | Some b \<Rightarrow> (case blocks pl b of None \<Rightarrow> Inl UseAfterFree | Some cs \<Rightarrow> Inr cs))"

definition set_block :: "'a pool \<Rightarrow> ptr \<Rightarrow> 'a cell list \<Rightarrow> 'a pool" where
  "set_block pl p cs = (case p of None \<Rightarrow> pl | Some b \<Rightarrow> pl\<lparr>blocks := (blocks pl)(b \<mapsto> cs)\<rparr>)"

definition ExFreePoolWithTag :: "'a traits \<Rightarrow> ptr \<Rightarrow> 'a pool \<Rightarrow> 'a pool result" where
  "ExFreePoolWithTag T p pl = (case p of None \<Rightarrow> Inr pl
     | Some b \<Rightarrow> (case blocks pl b of None \<Rightarrow> Inl DoubleFree
         | Some cs \<Rightarrow> guardR (trivially_destructible T \<or> (\<forall>c \<in> set cs. c = Raw)) LeakedObject
             (Inr (pl\<lparr>blocks := (blocks pl)(b := None)\<rparr>))))"

definition get_cell :: "'a pool \<Rightarrow> ptr \<Rightarrow> nat \<Rightarrow> 'a cell result" where
  "get_cell pl p i = bindR (get_block pl p) (\<lambda>cs. guardR (i < length cs) OutOfBounds (Inr (cs ! i)))"

definition set_cell :: "'a pool \<Rightarrow> ptr \<Rightarrow> nat \<Rightarrow> 'a cell \<Rightarrow> 'a pool result" where
  "set_cell pl p i c = bindR (get_block pl p)
     (\<lambda>cs. guardR (i < length cs) OutOfBounds (Inr (set_block pl p (cs[i := c]))))"

definition read_obj :: "'a pool \<Rightarrow> ptr \<Rightarrow> nat \<Rightarrow> 'a result" where
  "read_obj pl p i = bindR (get_cell pl p i) (\<lambda>c. case c of Obj v \<Rightarrow> Inr v | _ \<Rightarrow> Inl RawAccess)"

definition deref :: "'a pool \<Rightarrow> 'a cref \<Rightarrow> 'a result" where
  "deref pl t = (case t of Temp v \<Rightarrow> Inr v | At p i \<Rightarrow> read_obj pl p i)"

text \<open>Placement \<open>new (addressof(p[i])) T(v)\<close>.\<close>

definition construct :: "'a traits \<Rightarrow> 'a pool \<Rightarrow> ptr \<Rightarrow> nat \<Rightarrow> 'a \<Rightarrow> 'a pool result" where
  "construct T pl p i v = bindR (get_cell pl p i)
     (\<lambda>c. guardR (trivially_destructible T \<or> c = Raw) LeakedObject (set_cell pl p i (Obj v)))"

text \<open>The destructor call \<open>p[i].~T()\<close>.\<close>

definition destroy :: "'a traits \<Rightarrow> 'a pool \<Rightarrow> ptr \<Rightarrow> nat \<Rightarrow> 'a pool result" where
  "destroy T pl p i = bindR (get_cell pl p i)
     (\<lambda>c. if trivially_destructible T then Inr pl
          else guardR (c \<noteq> Raw) RawAccess (set_cell pl p i Raw))"

text \<open>Placement \<open>new (addressof(p[i])) T(move(q[j]))\<close>.\<close>

text \<open>
  The object at \<open>q[j]\<close> is moved from only when \<open>move\<close> yields an rvalue and so selects the move
  constructor; otherwise the copy constructor runs and the object stays as it is.
\<close>

definition leave_source :: "'a pool \<Rightarrow> ptr \<Rightarrow> nat \<Rightarrow> 'a pool result" where
  "leave_source pl q j = overload_of_move (set_cell pl q j Husk) (Inr pl)"

definition move_construct :: "'a traits \<Rightarrow> 'a pool \<Rightarrow> ptr \<Rightarrow> nat \<Rightarrow> ptr \<Rightarrow> nat \<Rightarrow> 'a pool result" where
  "move_construct T pl p i q j = bindR (read_obj pl q j)
     (\<lambda>v. bindR (construct T pl p i v) (\<lambda>pl. leave_source pl q j))"

text \<open>The assignment \<open>p[i] = v\<close>: its target has to be an object unless the type is trivial.\<close>

definition assign :: "'a traits \<Rightarrow> 'a pool \<Rightarrow> ptr \<Rightarrow> nat \<Rightarrow> 'a \<Rightarrow> 'a pool result" where
  "assign T pl p i v = bindR (get_cell pl p i)
     (\<lambda>c. guardR (trivially_copyable T \<or> c \<noteq> Raw) RawAccess (set_cell pl p i (Obj v)))"

text \<open>\<open>memcpy\<close> and \<open>memmove\<close> of \<open>n\<close> elements, and \<open>memset\<close> to zero.\<close>

definition copy_cells :: "'a pool \<Rightarrow> ptr \<Rightarrow> nat \<Rightarrow> ptr \<Rightarrow> nat \<Rightarrow> nat \<Rightarrow> 'a pool result" where
  "copy_cells pl dst di src si n =
     (if n = 0 then Inr pl
      else bindR (get_block pl src) (\<lambda>s. bindR (get_block pl dst) (\<lambda>d.
        guardR (si + n \<le> length s \<and> di + n \<le> length d) OutOfBounds
          (Inr (set_block pl dst (take di d @ take n (drop si s) @ drop (di + n) d))))))"

definition zero_cells :: "'a traits \<Rightarrow> 'a pool \<Rightarrow> ptr \<Rightarrow> nat \<Rightarrow> nat \<Rightarrow> 'a pool result" where
  "zero_cells T pl p i n =
     (if n = 0 then Inr pl
      else bindR (get_block pl p) (\<lambda>d. guardR (i + n \<le> length d) OutOfBounds
        (Inr (set_block pl p (take i d @ replicate n (Obj (zeroT T)) @ drop (i + n) d)))))"

text \<open>A counting loop: the body for each index in turn.\<close>

fun forR :: "nat list \<Rightarrow> (nat \<Rightarrow> 's \<Rightarrow> 's result) \<Rightarrow> 's \<Rightarrow> 's result" where
  "forR [] body s = Inr s"
| "forR (i # is) body s = bindR (body i s) (forR is body)"

section \<open>The container\<close>

record karray =
  m_bufferSize :: nat
  m_numElements :: nat
  data_p :: ptr

type_synonym 'a karray_state = "'a pool \<times> karray"

definition KArray_empty :: karray where
  "KArray_empty = \<lparr>m_bufferSize = 0, m_numElements = 0, data_p = None\<rparr>"

definition KArray_count :: "karray \<Rightarrow> nat" where
  "KArray_count a = m_numElements a"

definition KArray_size :: "karray \<Rightarrow> nat" where
  "KArray_size a = KArray_count a"

definition KArray_data :: "karray \<Rightarrow> ptr" where
  "KArray_data a = data_p a"

definition KArray_reserve :: "'a traits \<Rightarrow> nat \<Rightarrow> 'a karray_state \<Rightarrow> (bool \<times> 'a karray_state) result" where
  "KArray_reserve T cnt = (\<lambda>(pl, a).
     if m_bufferSize a \<ge> cnt then Inr (True, pl, a)
     else if cnt \<ge> 2 ^ 32 - 1 then Inr (False, pl, a)
     else if sizeofT T * cnt \<ge> 2 ^ 64 then Inr (False, pl, a)
     else case ExAllocatePoolUninitialized T (sizeofT T * cnt) pl of
       (None, pl) \<Rightarrow> Inr (False, pl, a)
     | (Some b, pl) \<Rightarrow>
         bindR (if trivially_copyable T
                then copy_cells pl (Some b) 0 (data_p a) 0 (m_numElements a)
                else forR [0..<m_numElements a] (\<lambda>i pl. move_construct T pl (Some b) i (data_p a) i) pl)
          (\<lambda>pl. bindR (if data_p a = None then Inr pl
                else bindR (forR [0..<m_numElements a] (\<lambda>i pl. destroy T pl (data_p a) i) pl)
                       (ExFreePoolWithTag T (data_p a)))
          (\<lambda>pl. Inr (True, pl, a\<lparr>m_bufferSize := ULONG cnt, data_p := Some b\<rparr>))))"

definition KArray_grow :: "'a traits \<Rightarrow> nat \<Rightarrow> 'a karray_state \<Rightarrow> (bool \<times> 'a karray_state) result" where
  "KArray_grow T cnt = (\<lambda>(pl, a).
     if m_bufferSize a \<ge> cnt then Inr (True, pl, a)
     else let cnt = (if cnt < 4 then 4 else cnt);
              exponentialGrowth = m_bufferSize a + m_bufferSize a div 2;
              cnt = (if cnt < exponentialGrowth then exponentialGrowth else cnt)
          in KArray_reserve T cnt (pl, a))"

definition KArray_resize :: "'a traits \<Rightarrow> nat \<Rightarrow> 'a karray_state \<Rightarrow> (bool \<times> 'a karray_state) result" where
  "KArray_resize T cnt st = bindR (KArray_reserve T cnt st) (\<lambda>(ok, pl, a).
     if \<not> ok then Inr (False, pl, a)
     else bindR (if trivially_default_constructible T
                 then (if cnt > m_numElements a
                       then zero_cells T pl (data_p a) (m_numElements a) (cnt - m_numElements a)
                       else Inr pl)
                 else forR [m_numElements a..<cnt] (\<lambda>i pl. construct T pl (data_p a) i (defaultT T)) pl)
       (\<lambda>pl. bindR (if \<not> trivially_destructible T
                    then forR [cnt..<m_numElements a] (\<lambda>i pl. destroy T pl (data_p a) i) pl
                    else Inr pl)
       (\<lambda>pl. Inr (True, pl, a\<lparr>m_numElements := ULONG cnt\<rparr>))))"

definition KArray_clear :: "'a traits \<Rightarrow> 'a karray_state \<Rightarrow> 'a karray_state result" where
  "KArray_clear T st = bindR (KArray_resize T 0 st) (\<lambda>(_, st). Inr st)"

definition KArray_pop_back :: "'a traits \<Rightarrow> 'a karray_state \<Rightarrow> 'a karray_state result" where
  "KArray_pop_back T st =
     bindR (KArray_resize T (size_sub (KArray_count (snd st)) 1) st) (\<lambda>(_, st). Inr st)"

definition KArray_append :: "'a traits \<Rightarrow> 'a cref \<Rightarrow> 'a karray_state \<Rightarrow> (bool \<times> 'a karray_state) result" where
  "KArray_append T t st = bindR (KArray_grow T (m_numElements (snd st) + 1) st) (\<lambda>(ok, pl, a).
     if \<not> ok then Inr (False, pl, a)
     else bindR (deref pl t) (\<lambda>v. bindR (construct T pl (data_p a) (m_numElements a) v)
       (\<lambda>pl. Inr (True, pl, a\<lparr>m_numElements := ULONG (m_numElements a + 1)\<rparr>))))"

definition KArray_push_back :: "'a traits \<Rightarrow> 'a cref \<Rightarrow> 'a karray_state \<Rightarrow> (bool \<times> 'a karray_state) result" where
  "KArray_push_back T t st = KArray_append T t st"

text \<open>The overloads for an rvalue. \<open>push_back(T &&t)\<close> passes the lvalue \<open>t\<close> on, so it copies.\<close>

definition move_out :: "'a pool \<Rightarrow> 'a cref \<Rightarrow> 'a pool result" where
  "move_out pl t = (case t of Temp _ \<Rightarrow> Inr pl | At p i \<Rightarrow> leave_source pl p i)"

definition KArray_append_move :: "'a traits \<Rightarrow> 'a cref \<Rightarrow> 'a karray_state \<Rightarrow> (bool \<times> 'a karray_state) result" where
  "KArray_append_move T t st = bindR (KArray_grow T (m_numElements (snd st) + 1) st) (\<lambda>(ok, pl, a).
     if \<not> ok then Inr (False, pl, a)
     else bindR (deref pl t) (\<lambda>v. bindR (construct T pl (data_p a) (m_numElements a) v)
       (\<lambda>pl. bindR (move_out pl t)
       (\<lambda>pl. Inr (True, pl, a\<lparr>m_numElements := ULONG (m_numElements a + 1)\<rparr>)))))"

definition KArray_push_back_move :: "'a traits \<Rightarrow> 'a cref \<Rightarrow> 'a karray_state \<Rightarrow> (bool \<times> 'a karray_state) result" where
  "KArray_push_back_move T t st = KArray_append T t st"

text \<open>
  \<open>moveElements\<close>: the index \<open>k\<close> of each loop below is the source's \<open>i - 1\<close> (downwards) or \<open>i\<close>
  (upwards), and each loop starts where the one before it stopped.
\<close>

definition KArray_moveElements :: "'a traits \<Rightarrow> nat \<Rightarrow> nat \<Rightarrow> nat \<Rightarrow> 'a karray_state \<Rightarrow> 'a pool result" where
  "KArray_moveElements T from to number = (\<lambda>(pl, a).
     if from = to \<or> number = 0 then Inr pl
     else if trivially_copyable T then copy_cells pl (data_p a) to (data_p a) from number
     else if from < to then
       guardR (m_numElements a = from + number) AssertFailed
        (let delta = to - from; num = m_numElements a in
         bindR (forR (rev [num..<to + number])
                 (\<lambda>k pl. move_construct T pl (data_p a) k (data_p a) (ULONG_sub k delta)) pl)
          (\<lambda>pl. bindR (forR (rev [to..<num])
                 (\<lambda>k pl. bindR (destroy T pl (data_p a) k)
                   (\<lambda>pl. move_construct T pl (data_p a) k (data_p a) (ULONG_sub k delta))) pl)
          (forR (rev [from..<min num to]) (\<lambda>k pl. destroy T pl (data_p a) k))))
     else
       guardR (m_numElements a = from + number) AssertFailed
        (let delta = from - to in
         bindR (forR [to..<from] (\<lambda>k pl. move_construct T pl (data_p a) k (data_p a) (k + delta)) pl)
          (\<lambda>pl. bindR (forR [from..<to + number]
                 (\<lambda>k pl. bindR (destroy T pl (data_p a) k)
                   (\<lambda>pl. move_construct T pl (data_p a) k (data_p a) (k + delta))) pl)
          (forR [max from (to + number)..<from + number] (\<lambda>k pl. destroy T pl (data_p a) k)))))"

definition KArray_insertAt :: "'a traits \<Rightarrow> nat \<Rightarrow> 'a cref \<Rightarrow> 'a karray_state \<Rightarrow> (bool \<times> 'a karray_state) result" where
  "KArray_insertAt T index t st =
     (if index > m_numElements (snd st) then Inr (False, st)
      else bindR (KArray_grow T (m_numElements (snd st) + 1) st) (\<lambda>(ok, pl, a).
        if \<not> ok then Inr (False, pl, a)
        else bindR (if index < m_numElements a
                    then KArray_moveElements T (ULONG index) (ULONG (index + 1))
                           (ULONG (m_numElements a - index)) (pl, a)
                    else Inr pl)
          (\<lambda>pl. bindR (deref pl t) (\<lambda>v. bindR (construct T pl (data_p a) index v)
          (\<lambda>pl. Inr (True, pl, a\<lparr>m_numElements := ULONG (m_numElements a + 1)\<rparr>))))))"

definition KArray_insertAt_move :: "'a traits \<Rightarrow> nat \<Rightarrow> 'a cref \<Rightarrow> 'a karray_state \<Rightarrow> (bool \<times> 'a karray_state) result" where
  "KArray_insertAt_move T index t st =
     (if index > m_numElements (snd st) then Inr (False, st)
      else bindR (KArray_grow T (m_numElements (snd st) + 1) st) (\<lambda>(ok, pl, a).
        if \<not> ok then Inr (False, pl, a)
        else bindR (if index < m_numElements a
                    then KArray_moveElements T (ULONG index) (ULONG (index + 1))
                           (ULONG (m_numElements a - index)) (pl, a)
                    else Inr pl)
          (\<lambda>pl. bindR (deref pl t) (\<lambda>v. bindR (construct T pl (data_p a) index v)
          (\<lambda>pl. bindR (move_out pl t)
          (\<lambda>pl. Inr (True, pl, a\<lparr>m_numElements := ULONG (m_numElements a + 1)\<rparr>)))))))"

text \<open>
  The scan of the sorted insertions: the first index whose element is not less than \<open>t\<close>. The two
  overloads of each share their body; the ones for an rvalue call the overload of \<open>insertAt\<close> and
  \<open>append\<close> that \<open>move(t)\<close> selects.
\<close>

fun scan_not_less :: "'a pool \<Rightarrow> ptr \<Rightarrow> 'a cref \<Rightarrow> ('a \<Rightarrow> 'a \<Rightarrow> bool) \<Rightarrow> nat list \<Rightarrow> nat option result" where
  "scan_not_less pl p t lessThanPredicate [] = Inr None"
| "scan_not_less pl p t lessThanPredicate (i # is) =
     bindR (read_obj pl p i) (\<lambda>x. bindR (deref pl t) (\<lambda>v.
       if \<not> lessThanPredicate x v then Inr (Some i) else scan_not_less pl p t lessThanPredicate is))"

definition insertSorted_body ::
  "(nat \<Rightarrow> 'a cref \<Rightarrow> 'a karray_state \<Rightarrow> (bool \<times> 'a karray_state) result) \<Rightarrow>
   ('a cref \<Rightarrow> 'a karray_state \<Rightarrow> (bool \<times> 'a karray_state) result) \<Rightarrow>
   ('a \<Rightarrow> 'a \<Rightarrow> bool) \<Rightarrow> 'a cref \<Rightarrow> 'a karray_state \<Rightarrow> (bool \<times> 'a karray_state) result" where
  "insertSorted_body ins app lessThanPredicate t st =
     bindR (scan_not_less (fst st) (data_p (snd st)) t lessThanPredicate [0..<m_numElements (snd st)])
       (\<lambda>r. case r of Some i \<Rightarrow> ins i t st | None \<Rightarrow> app t st)"

definition insertSortedUnique_body ::
  "(nat \<Rightarrow> 'a cref \<Rightarrow> 'a karray_state \<Rightarrow> (bool \<times> 'a karray_state) result) \<Rightarrow>
   ('a cref \<Rightarrow> 'a karray_state \<Rightarrow> (bool \<times> 'a karray_state) result) \<Rightarrow>
   ('a \<Rightarrow> 'a \<Rightarrow> bool) \<Rightarrow> 'a cref \<Rightarrow> 'a karray_state \<Rightarrow> (bool \<times> 'a karray_state) result" where
  "insertSortedUnique_body ins app lessThanPredicate t st =
     bindR (scan_not_less (fst st) (data_p (snd st)) t lessThanPredicate [0..<m_numElements (snd st)])
       (\<lambda>r. case r of
          Some i \<Rightarrow> bindR (read_obj (fst st) (data_p (snd st)) i) (\<lambda>x. bindR (deref (fst st) t) (\<lambda>v.
            if lessThanPredicate v x then ins i t st else Inr (True, st)))
        | None \<Rightarrow> app t st)"

definition KArray_insertSorted :: "'a traits \<Rightarrow> ('a \<Rightarrow> 'a \<Rightarrow> bool) \<Rightarrow> 'a cref \<Rightarrow> 'a karray_state \<Rightarrow> (bool \<times> 'a karray_state) result" where
  "KArray_insertSorted T = insertSorted_body (KArray_insertAt T) (KArray_append T)"

definition KArray_insertSorted_move :: "'a traits \<Rightarrow> ('a \<Rightarrow> 'a \<Rightarrow> bool) \<Rightarrow> 'a cref \<Rightarrow> 'a karray_state \<Rightarrow> (bool \<times> 'a karray_state) result" where
  "KArray_insertSorted_move T = insertSorted_body (overload_of_move (KArray_insertAt_move T) (KArray_insertAt T))
     (overload_of_move (KArray_append_move T) (KArray_append T))"

definition KArray_insertSortedUnique :: "'a traits \<Rightarrow> ('a \<Rightarrow> 'a \<Rightarrow> bool) \<Rightarrow> 'a cref \<Rightarrow> 'a karray_state \<Rightarrow> (bool \<times> 'a karray_state) result" where
  "KArray_insertSortedUnique T = insertSortedUnique_body (KArray_insertAt T) (KArray_append T)"

definition KArray_insertSortedUnique_move :: "'a traits \<Rightarrow> ('a \<Rightarrow> 'a \<Rightarrow> bool) \<Rightarrow> 'a cref \<Rightarrow> 'a karray_state \<Rightarrow> (bool \<times> 'a karray_state) result" where
  "KArray_insertSortedUnique_move T = insertSortedUnique_body (overload_of_move (KArray_insertAt_move T) (KArray_insertAt T))
     (overload_of_move (KArray_append_move T) (KArray_append T))"

definition KArray_eraseAt :: "'a traits \<Rightarrow> nat \<Rightarrow> 'a karray_state \<Rightarrow> 'a karray_state result" where
  "KArray_eraseAt T index = (\<lambda>(pl, a).
     guardR (index < m_numElements a) FailFast
      (bindR (destroy T pl (data_p a) index)
        (\<lambda>pl. bindR (KArray_moveElements T (ULONG (index + 1)) (ULONG index)
                       (ULONG (m_numElements a - index - 1)) (pl, a))
        (\<lambda>pl. Inr (pl, a\<lparr>m_numElements := ULONG_sub (m_numElements a) 1\<rparr>)))))"

definition KArray_at :: "nat \<Rightarrow> 'a karray_state \<Rightarrow> 'a cref result" where
  "KArray_at index = (\<lambda>(pl, a). guardR (index < m_numElements a) FailFast (Inr (At (data_p a) index)))"

definition KArray_reset :: "'a traits \<Rightarrow> 'a karray_state \<Rightarrow> 'a karray_state result" where
  "KArray_reset T = (\<lambda>(pl, a).
     if data_p a = None then Inr (pl, a)
     else bindR (if \<not> trivially_destructible T
                 then forR (rev [0..<m_numElements a]) (\<lambda>i pl. destroy T pl (data_p a) i) pl
                 else Inr pl)
       (\<lambda>pl. bindR (ExFreePoolWithTag T (data_p a) pl)
       (\<lambda>pl. Inr (pl, a\<lparr>m_bufferSize := 0, m_numElements := 0, data_p := None\<rparr>))))"

text \<open>The destructor, the filling constructor, and the two moves (state of \<open>*this\<close> and of \<open>rhs\<close>).\<close>

definition KArray_destructor :: "'a traits \<Rightarrow> 'a karray_state \<Rightarrow> 'a karray_state result" where
  "KArray_destructor T = KArray_reset T"

definition KArray_constructor :: "'a traits \<Rightarrow> nat \<Rightarrow> 'a \<Rightarrow> 'a pool \<Rightarrow> 'a karray_state result" where
  "KArray_constructor T cnt value pl =
     (if cnt = 0 then Inr (pl, KArray_empty)
      else bindR (KArray_grow T cnt (pl, KArray_empty)) (\<lambda>(_, pl, a).
        bindR (forR [0..<cnt] (\<lambda>i pl. assign T pl (data_p a) i value) pl)
          (\<lambda>pl. Inr (pl, a\<lparr>m_numElements := ULONG cnt\<rparr>))))"

definition KArray_move_constructor :: "karray \<Rightarrow> karray \<times> karray" where
  "KArray_move_constructor rhs = (rhs, rhs\<lparr>m_bufferSize := 0, m_numElements := 0, data_p := None\<rparr>)"

definition KArray_move_assign :: "'a traits \<Rightarrow> karray \<Rightarrow> 'a karray_state \<Rightarrow> ('a pool \<times> karray \<times> karray) result" where
  "KArray_move_assign T rhs st = bindR (KArray_reset T st) (\<lambda>(pl, this).
     Inr (pl, this\<lparr>data_p := data_p rhs, m_numElements := m_numElements rhs, m_bufferSize := m_bufferSize rhs\<rparr>,
          rhs\<lparr>m_bufferSize := 0, m_numElements := 0, data_p := None\<rparr>))"

text \<open>Iterators, and the loop \<open>for (x : array)\<close> over them.\<close>

record const_iterator =
  it_i :: nat

definition KArray_begin :: "karray \<Rightarrow> const_iterator" where
  "KArray_begin a = \<lparr>it_i = 0\<rparr>"

definition KArray_end :: "karray \<Rightarrow> const_iterator" where
  "KArray_end a = \<lparr>it_i = m_numElements a\<rparr>"

definition iterator_next :: "const_iterator \<Rightarrow> const_iterator" where
  "iterator_next it = it\<lparr>it_i := it_i it + 1\<rparr>"

text \<open>Postfix \<open>++\<close>: the iterator before, and the advanced one.\<close>

definition iterator_post_next :: "const_iterator \<Rightarrow> const_iterator \<times> const_iterator" where
  "iterator_post_next it = (it, iterator_next it)"

definition iterator_eq :: "const_iterator \<Rightarrow> const_iterator \<Rightarrow> bool" where
  "iterator_eq it rhs \<longleftrightarrow> it_i rhs = it_i it"

definition iterator_neq :: "const_iterator \<Rightarrow> const_iterator \<Rightarrow> bool" where
  "iterator_neq it rhs \<longleftrightarrow> \<not> iterator_eq rhs it"

definition iterator_deref :: "'a karray_state \<Rightarrow> const_iterator \<Rightarrow> 'a cref result" where
  "iterator_deref st it = KArray_at (it_i it) st"

partial_function (option) range_for ::
  "'a karray_state \<Rightarrow> const_iterator \<Rightarrow> const_iterator \<Rightarrow> 'a list \<Rightarrow> ('a list) result option" where
  "range_for st it stop acc =
     (if iterator_neq it stop
      then (case bindR (iterator_deref st it) (deref (fst st)) of
              Inl e \<Rightarrow> Some (Inl e)
            | Inr v \<Rightarrow> range_for st (iterator_next it) stop (acc @ [v]))
      else Some (Inr acc))"

section \<open>Memory lemmas\<close>

named_theorems pool_simps \<open>effect of the object primitives on a block\<close>

lemma set_block_simps [simp]:
  "blocks (set_block pl (Some b) cs) = (blocks pl)(b \<mapsto> cs)"
  "next_block (set_block pl p cs) = next_block pl"
  "refuses (set_block pl p cs) = refuses pl"
  "set_block (set_block pl (Some b) cs) (Some b) ds = set_block pl (Some b) ds"
  by (simp_all add: set_block_def split: option.splits)

lemma set_block_same: "blocks pl b = Some cs \<Longrightarrow> set_block pl (Some b) cs = pl"
  by (simp add: set_block_def fun_upd_idem)

lemma get_block_Some [simp]: "blocks pl b = Some cs \<Longrightarrow> get_block pl (Some b) = Inr cs"
  by (simp add: get_block_def)

text \<open>The cell a destructor call leaves behind.\<close>

definition dead :: "'a traits \<Rightarrow> 'a cell \<Rightarrow> 'a cell" where
  "dead T c = (if trivially_destructible T then c else Raw)"

lemma dead_free [simp]: "trivially_destructible T \<or> dead T c = Raw"
  by (simp add: dead_def)

lemma read_obj_at [pool_simps]:
  "blocks pl b = Some (A @ Obj v # B) \<Longrightarrow> length A = i \<Longrightarrow> read_obj pl (Some b) i = Inr v"
  by (auto simp: read_obj_def get_cell_def nth_append)

lemma destroy_at [pool_simps]:
  "blocks pl b = Some (A @ c # B) \<Longrightarrow> length A = i \<Longrightarrow> trivially_destructible T \<or> c \<noteq> Raw \<Longrightarrow>
    destroy T pl (Some b) i = Inr (set_block pl (Some b) (A @ dead T c # B))"
  by (auto simp: destroy_def get_cell_def set_cell_def nth_append dead_def set_block_same)

lemma construct_at [pool_simps]:
  "blocks pl b = Some (A @ c # B) \<Longrightarrow> length A = i \<Longrightarrow> trivially_destructible T \<or> c = Raw \<Longrightarrow>
    construct T pl (Some b) i v = Inr (set_block pl (Some b) (A @ Obj v # B))"
  by (auto simp: construct_def get_cell_def set_cell_def nth_append)

lemma set_cell_at [pool_simps]:
  "blocks pl b = Some (A @ c # B) \<Longrightarrow> length A = i \<Longrightarrow>
    set_cell pl (Some b) i c' = Inr (set_block pl (Some b) (A @ c' # B))"
  by (auto simp: set_cell_def nth_append)

text \<open>The cell of the source after a construction from \<open>move(x)\<close>; either way it is not raw.\<close>

definition moved_from :: "'a \<Rightarrow> 'a cell" where
  "moved_from v = overload_of_move Husk (Obj v)"

lemma leave_source_at:
  "blocks pl b = Some (A @ Obj v # B) \<Longrightarrow> length A = i \<Longrightarrow>
    leave_source pl (Some b) i = Inr (set_block pl (Some b) (A @ moved_from v # B))"
  by (cases "move_category Lvalue")
    (simp_all add: leave_source_def moved_from_def overload_of_move_def set_cell_at set_block_same)

lemma moved_from_live [simp]: "moved_from v \<noteq> Raw" "Raw \<noteq> moved_from v"
  by (simp_all add: moved_from_def overload_of_move_def split: value_category.split)

lemma move_up_at:
  assumes "blocks pl b = Some (A @ Obj v # c # B)" and "length A = i"
    and "trivially_destructible T \<or> c = Raw"
  shows "move_construct T pl (Some b) (Suc i) (Some b) i
    = Inr (set_block pl (Some b) (A @ moved_from v # Obj v # B))"
  using assms construct_at [of pl b "A @ [Obj v]" c B "Suc i" T v]
  by (simp add: move_construct_def read_obj_at leave_source_at)

lemma move_down_at:
  assumes "blocks pl b = Some (A @ c # Obj v # B)" and "length A = i"
    and "trivially_destructible T \<or> c = Raw"
  shows "move_construct T pl (Some b) i (Some b) (Suc i)
    = Inr (set_block pl (Some b) (A @ Obj v # moved_from v # B))"
  using assms read_obj_at [of pl b "A @ [c]" v B "Suc i"]
    leave_source_at [of "set_block pl (Some b) (A @ Obj v # Obj v # B)" b "A @ [Obj v]" v B "Suc i"]
  by (simp add: move_construct_def construct_at)

lemma move_across_at:
  assumes "blocks pl n = Some (A' @ c # B')" and "blocks pl b = Some (A @ Obj v # B)" and "n \<noteq> b"
    and "length A' = i" and "length A = i" and "trivially_destructible T \<or> c = Raw"
  shows "move_construct T pl (Some n) i (Some b) i
    = Inr (set_block (set_block pl (Some n) (A' @ Obj v # B')) (Some b) (A @ moved_from v # B))"
  using assms by (simp add: move_construct_def read_obj_at construct_at leave_source_at)

lemma forR_append: "forR (xs @ ys) body s = bindR (forR xs body s) (forR ys body)"
proof (induction xs arbitrary: s)
  case (Cons x xs)
  then show ?case by (cases "body x s") simp_all
qed simp

lemma upt_cons_len: "[i..<i + Suc n] = i # [Suc i..<Suc i + n]"
  by (simp add: upt_conv_Cons del: upt_Suc)

subsection \<open>Loops\<close>

lemma destroy_loop:
  assumes "blocks pl b = Some (A @ cs @ B)" and "length A = i"
    and "\<forall>c \<in> set cs. trivially_destructible T \<or> c \<noteq> Raw"
  shows "forR [i..<i + length cs] (\<lambda>k pl. destroy T pl (Some b) k) pl
    = Inr (set_block pl (Some b) (A @ map (dead T) cs @ B))"
  using assms
proof (induction cs arbitrary: A i pl)
  case Nil
  then show ?case by (simp add: set_block_same)
next
  case (Cons c cs)
  have "[i..<i + length (c # cs)] = i # [Suc i..<Suc i + length cs]"
    by (simp only: length_Cons upt_cons_len)
  moreover have "destroy T pl (Some b) i = Inr (set_block pl (Some b) (A @ dead T c # cs @ B))"
    using Cons.prems by (intro destroy_at) auto
  ultimately show ?case
    using Cons.IH [of "set_block pl (Some b) (A @ dead T c # cs @ B)" "A @ [dead T c]" "Suc i"] Cons.prems
    by simp
qed

lemma destroy_loop_rev:
  assumes "blocks pl b = Some (A @ cs @ B)" and "length A = i"
    and "\<forall>c \<in> set cs. trivially_destructible T \<or> c \<noteq> Raw"
  shows "forR (rev [i..<i + length cs]) (\<lambda>k pl. destroy T pl (Some b) k) pl
    = Inr (set_block pl (Some b) (A @ map (dead T) cs @ B))"
  using assms
proof (induction cs arbitrary: B pl rule: rev_induct)
  case Nil
  then show ?case by (simp add: set_block_same)
next
  case (snoc c cs)
  have "destroy T pl (Some b) (i + length cs) = Inr (set_block pl (Some b) ((A @ cs) @ dead T c # B))"
    using snoc.prems by (intro destroy_at) auto
  then show ?case
    using snoc.IH [of "set_block pl (Some b) (A @ cs @ dead T c # B)" "dead T c # B"] snoc.prems
    by simp
qed

lemma move_across_loop:
  assumes "blocks pl n = Some (A' @ replicate m Raw)" and "blocks pl b = Some (A @ map Obj ys @ B)"
    and "n \<noteq> b" and "length A' = i" and "length A = i" and "length ys \<le> m"
  shows "forR [i..<i + length ys] (\<lambda>k pl. move_construct T pl (Some n) k (Some b) k) pl
    = Inr (set_block (set_block pl (Some n) (A' @ map Obj ys @ replicate (m - length ys) Raw))
        (Some b) (A @ map moved_from ys @ B))"
  using assms
proof (induction ys arbitrary: A A' i m pl)
  case Nil
  then show ?case by (simp add: set_block_same)
next
  case (Cons y ys)
  then obtain m' where m: "m = Suc m'" by (cases m) auto
  have "[i..<i + length (y # ys)] = i # [Suc i..<Suc i + length ys]"
    by (simp only: length_Cons upt_cons_len)
  moreover have "move_construct T pl (Some n) i (Some b) i = Inr (set_block
      (set_block pl (Some n) (A' @ Obj y # replicate m' Raw)) (Some b) (A @ moved_from y # map Obj ys @ B))"
    using Cons.prems by (intro move_across_at) (auto simp: m)
  ultimately show ?case
    using Cons.IH [of "set_block (set_block pl (Some n) (A' @ Obj y # replicate m' Raw)) (Some b)
        (A @ moved_from y # map Obj ys @ B)" "A' @ [Obj y]" m' "A @ [moved_from y]" "Suc i"] Cons.prems
    by (simp add: m set_block_def fun_upd_twist)
qed

text \<open>
  In the two shifts below the cell that ends up beside the elements is whatever the last
  construction left of its source: a live object, moved from or not, that waits for its destructor.
\<close>

lemma shift_up_loop:
  assumes "blocks pl b = Some (A @ map Obj ys @ c # B)" and "length A = i" and "c \<noteq> Raw"
  shows "\<exists>h. h \<noteq> Raw \<and> forR (rev [Suc i..<Suc i + length ys])
     (\<lambda>k pl. bindR (destroy T pl (Some b) k) (\<lambda>pl. move_construct T pl (Some b) k (Some b) (k - 1))) pl
    = Inr (set_block pl (Some b) (A @ h # map Obj ys @ B))"
  using assms
proof (induction ys arbitrary: B c pl rule: rev_induct)
  case Nil
  then show ?case by (intro exI [of _ c]) (simp add: set_block_same)
next
  case (snoc y ys)
  let ?pl = "set_block pl (Some b) ((A @ map Obj ys @ [Obj y]) @ dead T c # B)"
  have d: "destroy T pl (Some b) (Suc (i + length ys)) = Inr ?pl"
    using snoc.prems by (intro destroy_at) auto
  have m: "move_construct T ?pl (Some b) (Suc (i + length ys)) (Some b) (i + length ys)
      = Inr (set_block ?pl (Some b) ((A @ map Obj ys) @ moved_from y # Obj y # B))"
    using snoc.prems by (intro move_up_at) (auto simp: dead_def split: if_splits)
  obtain h where "h \<noteq> Raw" and "forR (rev [Suc i..<Suc i + length ys])
     (\<lambda>k pl. bindR (destroy T pl (Some b) k) (\<lambda>pl. move_construct T pl (Some b) k (Some b) (k - 1)))
       (set_block pl (Some b) (A @ map Obj ys @ moved_from y # Obj y # B))
    = Inr (set_block pl (Some b) (A @ h # map Obj ys @ Obj y # B))"
    using snoc.IH [of "set_block pl (Some b) (A @ map Obj ys @ moved_from y # Obj y # B)" "moved_from y" "Obj y # B"]
      snoc.prems by auto
  with d m show ?case by (intro exI [of _ h]) simp
qed

lemma shift_down_loop:
  assumes "blocks pl b = Some (A @ c # map Obj ys @ B)" and "length A = i" and "c \<noteq> Raw"
  shows "\<exists>h. h \<noteq> Raw \<and> forR [i..<i + length ys]
     (\<lambda>k pl. bindR (destroy T pl (Some b) k) (\<lambda>pl. move_construct T pl (Some b) k (Some b) (k + 1))) pl
    = Inr (set_block pl (Some b) (A @ map Obj ys @ h # B))"
  using assms
proof (induction ys arbitrary: A c i pl)
  case Nil
  then show ?case by (intro exI [of _ c]) (simp add: set_block_same)
next
  case (Cons y ys)
  let ?pl = "set_block pl (Some b) (A @ dead T c # Obj y # map Obj ys @ B)"
  have e: "[i..<i + length (y # ys)] = i # [Suc i..<Suc i + length ys]"
    by (simp only: length_Cons upt_cons_len)
  have d: "destroy T pl (Some b) i = Inr ?pl"
    using Cons.prems by (intro destroy_at) auto
  have m: "move_construct T ?pl (Some b) i (Some b) (Suc i)
      = Inr (set_block ?pl (Some b) (A @ Obj y # moved_from y # map Obj ys @ B))"
    using Cons.prems by (intro move_down_at) (auto simp: dead_def split: if_splits)
  obtain h where "h \<noteq> Raw" and "forR [Suc i..<Suc i + length ys]
     (\<lambda>k pl. bindR (destroy T pl (Some b) k) (\<lambda>pl. move_construct T pl (Some b) k (Some b) (k + 1)))
       (set_block pl (Some b) (A @ Obj y # moved_from y # map Obj ys @ B))
    = Inr (set_block pl (Some b) (A @ Obj y # map Obj ys @ h # B))"
    using Cons.IH [of "set_block pl (Some b) (A @ Obj y # moved_from y # map Obj ys @ B)" "A @ [Obj y]" "moved_from y" "Suc i"]
      Cons.prems by auto
  with d e m show ?case by (intro exI [of _ h]) simp
qed

lemma construct_loop:
  assumes "blocks pl b = Some (A @ cs @ B)" and "length A = i"
    and "\<forall>c \<in> set cs. trivially_destructible T \<or> c = Raw"
  shows "forR [i..<i + length cs] (\<lambda>k pl. construct T pl (Some b) k v) pl
    = Inr (set_block pl (Some b) (A @ replicate (length cs) (Obj v) @ B))"
  using assms
proof (induction cs arbitrary: A i pl)
  case Nil
  then show ?case by (simp add: set_block_same)
next
  case (Cons c cs)
  have "[i..<i + length (c # cs)] = i # [Suc i..<Suc i + length cs]"
    by (simp only: length_Cons upt_cons_len)
  moreover have "construct T pl (Some b) i v = Inr (set_block pl (Some b) (A @ Obj v # cs @ B))"
    using Cons.prems by (intro construct_at) auto
  ultimately show ?case
    using Cons.IH [of "set_block pl (Some b) (A @ Obj v # cs @ B)" "A @ [Obj v]" "Suc i"] Cons.prems
    by simp
qed

end
