(* ===== verification/KArrayRep.thy ===== *)
theory KArrayRep
  imports KArray
begin

text \<open>
  What the container of \<open>inc/karray.h\<close> promises: a representation predicate relates a pool and a
  \<open>KArray\<close> to the list of its elements, and every operation is shown to implement the list operation
  it stands for, without touching storage outside the container.
\<close>

section \<open>Representation\<close>

definition pool_fresh :: "'a pool \<Rightarrow> bool" where
  "pool_fresh pl \<longleftrightarrow> (\<forall>b \<ge> next_block pl. blocks pl b = None)"

text \<open>
  The container holds the list \<open>xs\<close>: its block starts with the objects of \<open>xs\<close> and the rest of the
  capacity is raw storage (or, where destructors do nothing, anything).
\<close>

definition karray_rep :: "'a traits \<Rightarrow> 'a karray_state \<Rightarrow> 'a list \<Rightarrow> bool" where
  "karray_rep T = (\<lambda>(pl, a) xs. pool_fresh pl \<and> length xs = m_numElements a \<and>
     m_numElements a \<le> m_bufferSize a \<and> m_bufferSize a < 2 ^ 32 - 1 \<and>
     (case data_p a of None \<Rightarrow> m_bufferSize a = 0
      | Some b \<Rightarrow> \<exists>cs. blocks pl b = Some (map Obj xs @ cs) \<and>
          length cs = m_bufferSize a - m_numElements a \<and>
          (\<forall>c \<in> set cs. trivially_destructible T \<or> c = Raw)))"

text \<open>Outside the container's own block memory is unchanged: nothing is leaked or freed.\<close>

definition karray_frame :: "'a karray_state \<Rightarrow> 'a karray_state \<Rightarrow> bool" where
  "karray_frame = (\<lambda>(pl, a) (pl', a').
     blocks pl' |` (- set_option (data_p a')) = blocks pl |` (- set_option (data_p a)) \<and>
     refuses pl' = refuses pl \<and> next_block pl \<le> next_block pl')"

text \<open>An operation that answers \<open>ok\<close>, leaves the list \<open>xs\<close> and touches nothing else.\<close>

definition yields :: "'a traits \<Rightarrow> 'a karray_state \<Rightarrow> (bool \<times> 'a karray_state) result \<Rightarrow> bool \<Rightarrow> 'a list \<Rightarrow> bool" where
  "yields T st r ok xs \<longleftrightarrow> (\<exists>st'. r = Inr (ok, st') \<and> karray_rep T st' xs \<and> karray_frame st st')"

lemma karray_frame_refl [simp]: "karray_frame st st"
  by (simp add: karray_frame_def split: prod.splits)

lemma karray_frame_trans: "karray_frame st st' \<Longrightarrow> karray_frame st' st'' \<Longrightarrow> karray_frame st st''"
  by (auto simp: karray_frame_def split: prod.splits)

lemma karray_frame_set_block:
  "data_p a = Some b \<Longrightarrow> data_p a' = Some b \<Longrightarrow> karray_frame (pl, a) (set_block pl (Some b) cs, a')"
  by (auto simp: karray_frame_def)

lemma pool_fresh_set_block:
  "pool_fresh pl \<Longrightarrow> blocks pl b = Some cs \<Longrightarrow> pool_fresh (set_block pl (Some b) ds)"
  by (auto simp: pool_fresh_def)

lemma karray_rep_None:
  "data_p a = None \<Longrightarrow> karray_rep T (pl, a) xs \<longleftrightarrow>
    pool_fresh pl \<and> xs = [] \<and> m_numElements a = 0 \<and> m_bufferSize a = 0"
  by (auto simp: karray_rep_def)

lemma karray_rep_Some:
  "data_p a = Some b \<Longrightarrow> karray_rep T (pl, a) xs \<longleftrightarrow>
    pool_fresh pl \<and> length xs = m_numElements a \<and> m_numElements a \<le> m_bufferSize a \<and>
    m_bufferSize a < 2 ^ 32 - 1 \<and> (\<exists>cs. blocks pl b = Some (map Obj xs @ cs) \<and>
      length cs = m_bufferSize a - m_numElements a \<and> (\<forall>c \<in> set cs. trivially_destructible T \<or> c = Raw))"
  by (auto simp: karray_rep_def)

lemma karray_rep_empty: "pool_fresh pl \<Longrightarrow> karray_rep T (pl, KArray_empty) []"
  by (simp add: KArray_empty_def karray_rep_def)

lemma ULONG_small: "n < 2 ^ 32 \<Longrightarrow> ULONG n = n"
  by (simp add: ULONG_def)

lemma ULONG_sub_small: "b \<le> a \<Longrightarrow> a < 2 ^ 32 \<Longrightarrow> ULONG_sub a b = a - b"
proof -
  assume "b \<le> a" "a < 2 ^ 32"
  then have "a + 2 ^ 32 - b = (a - b) + 2 ^ 32" by simp
  then show ?thesis using \<open>a < 2 ^ 32\<close> unfolding ULONG_sub_def by (simp only: mod_add_self2) simp
qed

section \<open>reserve and grow\<close>

definition reserve_ok :: "'a traits \<Rightarrow> nat \<Rightarrow> 'a karray_state \<Rightarrow> bool" where
  "reserve_ok T cnt = (\<lambda>(pl, a). cnt \<le> m_bufferSize a \<or>
     cnt < 2 ^ 32 - 1 \<and> sizeofT T * cnt < 2 ^ 64 \<and> \<not> refuses pl (next_block pl))"

text \<open>The relocation into a fresh block, once the old elements sit in a block of their own.\<close>

lemma reserve_relocate:
  assumes wf: "wf_traits T" and rep: "karray_rep T (pl, a) xs" and big: "m_bufferSize a < cnt"
    and lim: "cnt < 2 ^ 32 - 1" and bytes: "sizeofT T * cnt < 2 ^ 64"
    and ok: "\<not> refuses pl (next_block pl)" and p: "data_p a = Some b"
  shows "\<exists>pl' a'. KArray_reserve T cnt (pl, a) = Inr (True, pl', a') \<and> karray_rep T (pl', a') xs \<and>
    karray_frame (pl, a) (pl', a') \<and> m_bufferSize a' = cnt \<and> m_numElements a' = m_numElements a \<and>
    data_p a' = Some (next_block pl)"
proof -
  let ?n = "next_block pl" and ?num = "m_numElements a"
  define pl1 where "pl1 = pl\<lparr>next_block := Suc ?n, blocks := (blocks pl)(?n \<mapsto> replicate cnt Raw)\<rparr>"
  let ?a' = "a\<lparr>m_bufferSize := cnt, data_p := Some ?n\<rparr>"
  from rep p obtain cs where fresh: "pool_fresh pl" and len: "length xs = ?num"
    and le: "?num \<le> m_bufferSize a" and blk: "blocks pl b = Some (map Obj xs @ cs)"
    and raw: "\<forall>c \<in> set cs. trivially_destructible T \<or> c = Raw"
    by (auto simp: karray_rep_Some)
  have nb: "?n \<noteq> b" using fresh blk by (auto simp: pool_fresh_def)
  have size0: "0 < sizeofT T" using wf by (simp add: wf_traits_def)
  have alloc: "ExAllocatePoolUninitialized T (sizeofT T * cnt) pl = (Some ?n, pl1)"
    using ok size0 by (simp add: ExAllocatePoolUninitialized_def Let_def pl1_def)
  let ?new = "map Obj xs @ replicate (cnt - ?num) Raw"
  define old where "old = (if trivially_copyable T then map Obj xs else map moved_from xs)"
  define pl2 where "pl2 = set_block (set_block pl1 (Some ?n) ?new) (Some b) (old @ cs)"
  have num_le: "length xs \<le> cnt" using len le big by simp
  have copy: "(if trivially_copyable T then copy_cells pl1 (Some ?n) 0 (Some b) 0 ?num
      else forR [0..<?num] (\<lambda>i pl. move_construct T pl (Some ?n) i (Some b) i) pl1) = Inr pl2"
  proof (cases "trivially_copyable T")
    case True
    have "copy_cells pl1 (Some ?n) 0 (Some b) 0 ?num = Inr (set_block pl1 (Some ?n) ?new)"
      using blk nb len num_le by (auto simp: copy_cells_def get_block_def set_block_def pl1_def)
    moreover have "set_block (set_block pl1 (Some ?n) ?new) (Some b) (map Obj xs @ cs)
        = set_block pl1 (Some ?n) ?new"
      using blk nb by (intro set_block_same) (simp add: pl1_def)
    ultimately show ?thesis using True by (simp add: old_def pl2_def)
  next
    case False
    then show ?thesis
      using move_across_loop [of pl1 ?n "[]" cnt b "[]" xs cs 0 T] blk nb len num_le
      by (simp add: old_def pl1_def pl2_def)
  qed
  have old_len: "length old = ?num" by (simp add: old_def len)
  have live: "\<forall>c \<in> set old. trivially_destructible T \<or> c \<noteq> Raw"
    using wf by (auto simp: old_def wf_traits_def)
  define pl3 where "pl3 = set_block pl2 (Some b) (map (dead T) old @ cs)"
  have destr: "forR [0..<?num] (\<lambda>i pl. destroy T pl (Some b) i) pl2 = Inr pl3"
    using destroy_loop [of pl2 b "[]" old cs 0 T] live old_len by (simp add: pl2_def pl3_def)
  define pl4 where "pl4 = pl3\<lparr>blocks := (blocks pl3)(b := None)\<rparr>"
  have free: "ExFreePoolWithTag T (Some b) pl3 = Inr pl4"
    using raw by (auto simp: ExFreePoolWithTag_def dead_def pl3_def pl4_def)
  have "KArray_reserve T cnt (pl, a) = Inr (True, pl4, ?a')"
    using big lim bytes copy
    by (cases "trivially_copyable T") (simp_all add: KArray_reserve_def alloc p destr free ULONG_small)
  moreover have "karray_rep T (pl4, ?a') xs"
    using fresh len le lim num_le nb by (auto simp: karray_rep_Some pool_fresh_def set_block_def pl1_def pl2_def pl3_def pl4_def)
  moreover have "karray_frame (pl, a) (pl4, ?a')"
    using fresh nb p by (auto simp: karray_frame_def restrict_map_def fun_eq_iff pool_fresh_def pl1_def pl2_def pl3_def pl4_def)
  ultimately show ?thesis by (intro exI [of _ pl4] exI [of _ ?a']) simp
qed

lemma reserve_first:
  assumes wf: "wf_traits T" and rep: "karray_rep T (pl, a) xs" and big: "m_bufferSize a < cnt"
    and lim: "cnt < 2 ^ 32 - 1" and bytes: "sizeofT T * cnt < 2 ^ 64"
    and ok: "\<not> refuses pl (next_block pl)" and p: "data_p a = None"
  shows "\<exists>pl' a'. KArray_reserve T cnt (pl, a) = Inr (True, pl', a') \<and> karray_rep T (pl', a') xs \<and>
    karray_frame (pl, a) (pl', a') \<and> m_bufferSize a' = cnt \<and> m_numElements a' = m_numElements a"
proof -
  let ?n = "next_block pl"
  let ?pl1 = "pl\<lparr>next_block := Suc ?n, blocks := (blocks pl)(?n \<mapsto> replicate cnt Raw)\<rparr>"
  let ?a' = "a\<lparr>m_bufferSize := cnt, data_p := Some ?n\<rparr>"
  from rep p have fresh: "pool_fresh pl" and [simp]: "xs = []" "m_numElements a = 0" "m_bufferSize a = 0"
    by (auto simp: karray_rep_None)
  have size0: "0 < sizeofT T" using wf by (simp add: wf_traits_def)
  have "ExAllocatePoolUninitialized T (sizeofT T * cnt) pl = (Some ?n, ?pl1)"
    using ok size0 by (simp add: ExAllocatePoolUninitialized_def Let_def)
  then have "KArray_reserve T cnt (pl, a) = Inr (True, ?pl1, ?a')"
    using big lim bytes by (simp add: KArray_reserve_def p copy_cells_def ULONG_small)
  moreover have "karray_rep T (?pl1, ?a') xs"
    using fresh lim by (auto simp: karray_rep_Some pool_fresh_def)
  moreover have "karray_frame (pl, a) (?pl1, ?a')"
    using fresh p by (auto simp: karray_frame_def restrict_map_def fun_eq_iff pool_fresh_def)
  ultimately show ?thesis by (intro exI [of _ ?pl1] exI [of _ ?a']) simp
qed

lemma reserve_refused:
  assumes rep: "karray_rep T (pl, a) xs" and no: "\<not> reserve_ok T cnt (pl, a)"
  shows "\<exists>pl'. KArray_reserve T cnt (pl, a) = Inr (False, pl', a) \<and> karray_rep T (pl', a) xs \<and>
    karray_frame (pl, a) (pl', a)"
proof (cases "cnt < 2 ^ 32 - 1 \<and> sizeofT T * cnt < 2 ^ 64")
  case True
  let ?pl1 = "pl\<lparr>next_block := Suc (next_block pl)\<rparr>"
  have "KArray_reserve T cnt (pl, a) = Inr (False, ?pl1, a)"
    using True no by (simp add: KArray_reserve_def reserve_ok_def ExAllocatePoolUninitialized_def Let_def)
  moreover have "karray_rep T (?pl1, a) xs"
    using rep by (auto simp: karray_rep_def pool_fresh_def split: option.splits)
  ultimately show ?thesis by (intro exI [of _ ?pl1]) (simp add: karray_frame_def)
next
  case False
  then have "KArray_reserve T cnt (pl, a) = Inr (False, pl, a)"
    using no by (auto simp: KArray_reserve_def reserve_ok_def)
  then show ?thesis using rep by simp
qed

lemma reserve_spec:
  assumes "wf_traits T" and "karray_rep T (pl, a) xs"
  shows "\<exists>pl' a'. KArray_reserve T cnt (pl, a) = Inr (reserve_ok T cnt (pl, a), pl', a') \<and>
    karray_rep T (pl', a') xs \<and> karray_frame (pl, a) (pl', a') \<and>
    m_numElements a' = m_numElements a \<and> (reserve_ok T cnt (pl, a) \<longrightarrow> cnt \<le> m_bufferSize a')"
proof (cases "reserve_ok T cnt (pl, a)")
  case False
  then show ?thesis using reserve_refused [OF assms(2) False] by fastforce
next
  case ok: True
  show ?thesis
  proof (cases "cnt \<le> m_bufferSize a")
    case True
    then show ?thesis using ok assms(2) by (simp add: KArray_reserve_def)
  next
    case False
    then show ?thesis
      using ok reserve_first [OF assms, of cnt] reserve_relocate [OF assms, of cnt]
      by (cases "data_p a") (fastforce simp: reserve_ok_def)+
  qed
qed
definition grow_target :: "nat \<Rightarrow> karray \<Rightarrow> nat" where
  "grow_target cnt a = max (max cnt 4) (m_bufferSize a + m_bufferSize a div 2)"

definition grow_ok :: "'a traits \<Rightarrow> nat \<Rightarrow> 'a karray_state \<Rightarrow> bool" where
  "grow_ok T cnt = (\<lambda>(pl, a). cnt \<le> m_bufferSize a \<or> reserve_ok T (grow_target cnt a) (pl, a))"

lemma KArray_grow_alt:
  "KArray_grow T cnt (pl, a) =
    (if cnt \<le> m_bufferSize a then Inr (True, pl, a) else KArray_reserve T (grow_target cnt a) (pl, a))"
proof -
  have "(let cnt = (if cnt < 4 then 4 else cnt); e = m_bufferSize a + m_bufferSize a div 2;
           cnt = (if cnt < e then e else cnt) in cnt) = grow_target cnt a"
    by (simp add: grow_target_def Let_def max_def)
  then show ?thesis by (simp add: KArray_grow_def Let_def split: if_splits)
qed

lemma grow_spec:
  assumes "wf_traits T" and "karray_rep T (pl, a) xs"
  shows "\<exists>pl' a'. KArray_grow T cnt (pl, a) = Inr (grow_ok T cnt (pl, a), pl', a') \<and>
    karray_rep T (pl', a') xs \<and> karray_frame (pl, a) (pl', a') \<and>
    m_numElements a' = m_numElements a \<and> (grow_ok T cnt (pl, a) \<longrightarrow> cnt \<le> m_bufferSize a')"
proof (cases "cnt \<le> m_bufferSize a")
  case True
  then show ?thesis using assms(2) by (simp add: KArray_grow_alt grow_ok_def)
next
  case False
  then show ?thesis
    using reserve_spec [OF assms, of "grow_target cnt a"]
    by (auto simp: KArray_grow_alt grow_ok_def grow_target_def)
qed

section \<open>Insertion and erasure\<close>

text \<open>A reference to an object outside the container's own storage.\<close>

definition foreign :: "'a karray_state \<Rightarrow> 'a cref \<Rightarrow> 'a \<Rightarrow> bool" where
  "foreign = (\<lambda>(pl, a) t v. (case t of Temp w \<Rightarrow> w = v
     | At p i \<Rightarrow> p \<noteq> data_p a \<and> read_obj pl p i = Inr v))"

lemma read_obj_NoneD: "read_obj pl None i \<noteq> Inr v"
  by (simp add: read_obj_def get_cell_def get_block_def)

lemma read_obj_same_block:
  "blocks pl' b = blocks pl b \<Longrightarrow> read_obj pl' (Some b) i = read_obj pl (Some b) i"
  by (simp add: read_obj_def get_cell_def get_block_def)

lemma frame_keeps_block:
  assumes "karray_frame (pl, a) (pl', a')" and "Some b \<noteq> data_p a" and "blocks pl b = Some cs"
  shows "blocks pl' b = Some cs \<and> Some b \<noteq> data_p a'"
proof -
  have "(blocks pl' |` (- set_option (data_p a'))) b = (blocks pl |` (- set_option (data_p a))) b"
    using assms(1) by (simp add: karray_frame_def)
  then show ?thesis using assms(2,3) by (auto simp: restrict_map_def split: if_splits)
qed

lemma foreign_frame:
  assumes fr: "karray_frame (pl, a) (pl', a')" and f: "foreign (pl, a) t v"
  shows "foreign (pl', a') t v"
proof (cases t)
  case (At p i)
  with f have neq: "p \<noteq> data_p a" and rd: "read_obj pl p i = Inr v" by (simp_all add: foreign_def)
  from rd obtain b where p: "p = Some b" by (cases p) (simp_all add: read_obj_NoneD)
  with rd obtain cs where cs: "blocks pl b = Some cs"
    by (auto simp: read_obj_def get_cell_def get_block_def split: option.splits)
  show ?thesis
    using frame_keeps_block [OF fr _ cs] neq p rd cs At read_obj_same_block [of pl' b pl i]
    by (simp add: foreign_def)
qed (use f in \<open>simp add: foreign_def\<close>)

lemma foreign_deref: "foreign (pl, a) t v \<Longrightarrow> deref pl t = Inr v"
  by (auto simp: foreign_def deref_def split: cref.splits)

lemma foreign_deref_set:
  assumes "foreign (pl, a) t v" and "data_p a = Some b"
  shows "deref (set_block pl (Some b) cs) t = Inr v"
  using foreign_deref [OF foreign_frame [OF karray_frame_set_block [OF assms(2) assms(2)] assms(1)]] .

text \<open>A container with spare capacity owns a block with a dead cell behind its elements.\<close>

lemma rep_room:
  assumes "karray_rep T (pl, a) xs" and "length xs < m_bufferSize a"
  obtains b c cs where "data_p a = Some b" and "blocks pl b = Some (map Obj xs @ c # cs)"
    and "trivially_destructible T \<or> c = Raw" and "\<forall>c \<in> set cs. trivially_destructible T \<or> c = Raw"
    and "Suc (length cs) = m_bufferSize a - m_numElements a" and "pool_fresh pl"
    and "length xs = m_numElements a" and "m_numElements a < m_bufferSize a" and "m_bufferSize a < 2 ^ 32 - 1"
proof -
  have "data_p a \<noteq> None" using assms by (cases "data_p a") (auto simp: karray_rep_def)
  then obtain b where b: "data_p a = Some b" by auto
  with assms obtain cs where "blocks pl b = Some (map Obj xs @ cs)" "length cs = m_bufferSize a - m_numElements a"
    "\<forall>c \<in> set cs. trivially_destructible T \<or> c = Raw" and rest: "pool_fresh pl" "length xs = m_numElements a"
     "m_numElements a < m_bufferSize a" "m_bufferSize a < 2 ^ 32 - 1"
    by (auto simp: karray_rep_Some)
  moreover from this obtain c cs' where "cs = c # cs'" by (cases cs) auto
  ultimately show ?thesis using that [of b c cs'] b by auto
qed

text \<open>Putting a whole new element list into the container's own block.\<close>

lemma rep_set_block:
  assumes "pool_fresh pl" and "blocks pl b = Some ds" and "data_p a = Some b"
    and "length xs = n" and "n \<le> m_bufferSize a" and "m_bufferSize a < 2 ^ 32 - 1"
    and "length cs = m_bufferSize a - n" and "\<forall>c \<in> set cs. trivially_destructible T \<or> c = Raw"
  shows "karray_rep T (set_block pl (Some b) (map Obj xs @ cs), a\<lparr>m_numElements := n\<rparr>) xs"
  using assms by (auto simp: karray_rep_def pool_fresh_set_block)

lemma append_spec:
  assumes wf: "wf_traits T" and rep: "karray_rep T (pl, a) xs" and f: "foreign (pl, a) t v"
  shows "yields T (pl, a) (KArray_append T t (pl, a)) (grow_ok T (length xs + 1) (pl, a))
    (if grow_ok T (length xs + 1) (pl, a) then xs @ [v] else xs)"
proof -
  have n: "m_numElements a = length xs" using rep by (simp add: karray_rep_def)
  obtain pl1 a1 where g: "KArray_grow T (length xs + 1) (pl, a) = Inr (grow_ok T (length xs + 1) (pl, a), pl1, a1)"
    and rep1: "karray_rep T (pl1, a1) xs" and fr: "karray_frame (pl, a) (pl1, a1)"
    and room: "grow_ok T (length xs + 1) (pl, a) \<longrightarrow> length xs + 1 \<le> m_bufferSize a1"
    using grow_spec [OF wf rep] by blast
  show ?thesis
  proof (cases "grow_ok T (length xs + 1) (pl, a)")
    case False
    then show ?thesis using g rep1 fr n by (simp add: KArray_append_def yields_def)
  next
    case True
    with room have "length xs < m_bufferSize a1" by simp
    then obtain b c cs where b: "data_p a1 = Some b" and blk: "blocks pl1 b = Some (map Obj xs @ c # cs)"
      and c: "trivially_destructible T \<or> c = Raw" and rest: "\<forall>c \<in> set cs. trivially_destructible T \<or> c = Raw"
        "Suc (length cs) = m_bufferSize a1 - m_numElements a1" "pool_fresh pl1" "length xs = m_numElements a1"
        "m_numElements a1 < m_bufferSize a1" "m_bufferSize a1 < 2 ^ 32 - 1"
      by (rule rep_room [OF rep1])
    let ?pl2 = "set_block pl1 (Some b) (map Obj (xs @ [v]) @ cs)"
    let ?a2 = "a1\<lparr>m_numElements := Suc (m_numElements a1)\<rparr>"
    have "construct T pl1 (Some b) (m_numElements a1) v = Inr ?pl2"
      using construct_at [OF blk _ c] rest by simp
    then have "KArray_append T t (pl, a) = Inr (True, ?pl2, ?a2)"
      using g True n b foreign_deref [OF foreign_frame [OF fr f]] rest
      by (simp add: KArray_append_def ULONG_small)
    moreover have "karray_rep T (?pl2, ?a2) (xs @ [v])"
      using rest blk b by (intro rep_set_block) auto
    moreover have "karray_frame (pl, a) (?pl2, ?a2)"
      by (rule karray_frame_trans [OF fr]) (simp add: karray_frame_set_block b)
    ultimately show ?thesis using True by (simp add: yields_def)
  qed
qed

lemma forR_cong: "(\<And>i s. i \<in> set is \<Longrightarrow> f i s = g i s) \<Longrightarrow> forR is f s = forR is g s"
proof (induction "is" arbitrary: s)
  case (Cons i "is")
  then show ?case by (cases "g i s") simp_all
qed simp

text \<open>\<open>moveElements\<close> by one position, upwards and downwards.\<close>

lemma moveElements_up:
  assumes wf: "wf_traits T" and p: "data_p a = Some b"
    and blk: "blocks pl b = Some (map Obj ys @ map Obj zs @ c # cs)"
    and c: "trivially_destructible T \<or> c = Raw" and zs: "zs \<noteq> []"
    and n: "m_numElements a = length ys + length zs" and lim: "m_numElements a < 2 ^ 32 - 1"
  shows "\<exists>h. KArray_moveElements T (length ys) (Suc (length ys)) (length zs) (pl, a)
    = Inr (set_block pl (Some b) (map Obj ys @ h # map Obj zs @ cs)) \<and> (trivially_destructible T \<or> h = Raw)"
proof (cases "trivially_copyable T")
  case True
  then have triv: "trivially_destructible T" using wf by (simp add: wf_traits_def)
  obtain z zs' where z: "zs = z # zs'" using zs by (cases zs) auto
  show ?thesis
    using True triv p blk zs
    by (intro exI [of _ "Obj z"]) (simp add: KArray_moveElements_def copy_cells_def z)
next
  case False
  obtain zs' z where z: "zs = zs' @ [z]" using zs by (cases zs rule: rev_cases) auto
  let ?i = "length ys" and ?n = "m_numElements a"
  let ?pl1 = "set_block pl (Some b) ((map Obj ys @ map Obj zs') @ moved_from z # Obj z # cs)"
  have sub: "Suc k < 2 ^ 32 \<Longrightarrow> 0 < k \<Longrightarrow> ULONG_sub k (Suc 0) = k - 1" for k
    by (simp add: ULONG_sub_small)
  have n': "?n = Suc (length ys + length zs')" using n z by simp
  have one: "[k..<Suc k] = [k]" for k by simp
  have m1: "move_construct T pl (Some b) ?n (Some b) (length ys + length zs') = Inr ?pl1"
    using move_up_at [of pl b "map Obj ys @ map Obj zs'" z c cs "length ys + length zs'" T] blk c n' z by simp
  obtain h where h: "h \<noteq> Raw" and m2: "forR (rev [Suc ?i..<?n]) (\<lambda>k pl. bindR (destroy T pl (Some b) k)
      (\<lambda>pl. move_construct T pl (Some b) k (Some b) (k - 1))) ?pl1
      = Inr (set_block pl (Some b) (map Obj ys @ h # map Obj zs' @ Obj z # cs))"
    using shift_up_loop [of ?pl1 b "map Obj ys" zs' "moved_from z" "Obj z # cs" ?i T] n' by auto
  let ?pl2 = "set_block pl (Some b) (map Obj ys @ h # map Obj zs' @ Obj z # cs)"
  have m2': "forR (rev [Suc ?i..<?n]) (\<lambda>k pl. bindR (destroy T pl (Some b) k)
      (\<lambda>pl. move_construct T pl (Some b) k (Some b) (ULONG_sub k (Suc 0)))) ?pl1 = Inr ?pl2"
    using m2 lim n' by (subst forR_cong [where g = "\<lambda>k pl. bindR (destroy T pl (Some b) k)
      (\<lambda>pl. move_construct T pl (Some b) k (Some b) (k - 1))"]) (auto simp: ULONG_sub_small)
  have m3: "destroy T ?pl2 (Some b) ?i
      = Inr (set_block ?pl2 (Some b) (map Obj ys @ dead T h # map Obj zs' @ Obj z # cs))"
    using h by (intro destroy_at) auto
  have "KArray_moveElements T ?i (Suc ?i) (length zs) (pl, a)
    = Inr (set_block pl (Some b) (map Obj ys @ dead T h # map Obj zs @ cs))"
    using False zs n p m1 m2' m3 n' lim
    by (simp add: KArray_moveElements_def one sub z ULONG_sub_small del: upt_Suc)
  then show ?thesis by (intro exI [of _ "dead T h"]) simp
qed

lemma moveElements_down:
  assumes wf: "wf_traits T" and p: "data_p a = Some b"
    and blk: "blocks pl b = Some (map Obj ys @ c # map Obj zs @ cs)"
    and c: "trivially_destructible T \<or> c = Raw"
    and n: "m_numElements a = Suc (length ys + length zs)"
  shows "\<exists>h. KArray_moveElements T (Suc (length ys)) (length ys) (length zs) (pl, a)
    = Inr (set_block pl (Some b) (map Obj ys @ map Obj zs @ h # cs)) \<and> (trivially_destructible T \<or> h = Raw)"
proof (cases zs)
  case Nil
  then show ?thesis
    using blk c by (intro exI [of _ c]) (simp add: KArray_moveElements_def set_block_same)
next
  case (Cons z zs')
  let ?i = "length ys" and ?n = "m_numElements a"
  show ?thesis
  proof (cases "trivially_copyable T")
    case True
    then have triv: "trivially_destructible T" using wf by (simp add: wf_traits_def)
    obtain ws w where w: "zs = ws @ [w]" using Cons rev_exhaust [of zs] by blast
    show ?thesis
      using True triv p blk by (intro exI [of _ "Obj w"]) (simp add: KArray_moveElements_def copy_cells_def w)
  next
    case False
    let ?pl1 = "set_block pl (Some b) (map Obj ys @ Obj z # moved_from z # map Obj zs' @ cs)"
    have one: "[k..<Suc k] = [k]" for k by simp
    have m1: "move_construct T pl (Some b) ?i (Some b) (Suc ?i) = Inr ?pl1"
      using move_down_at [of pl b "map Obj ys" c z "map Obj zs' @ cs" ?i T] blk c Cons by simp
    obtain h where h: "h \<noteq> Raw" and m2: "forR [Suc ?i..<Suc ?i + length zs'] (\<lambda>k pl. bindR (destroy T pl (Some b) k)
        (\<lambda>pl. move_construct T pl (Some b) k (Some b) (Suc k))) ?pl1
        = Inr (set_block pl (Some b) ((map Obj ys @ map Obj zs) @ h # cs))"
      using shift_down_loop [of ?pl1 b "map Obj ys @ [Obj z]" "moved_from z" zs' cs "Suc ?i" T] Cons by auto
    let ?pl2 = "set_block pl (Some b) ((map Obj ys @ map Obj zs) @ h # cs)"
    have m3: "destroy T ?pl2 (Some b) (Suc (?i + length zs'))
        = Inr (set_block ?pl2 (Some b) ((map Obj ys @ map Obj zs) @ dead T h # cs))"
      using Cons h by (intro destroy_at) auto
    have "KArray_moveElements T (Suc ?i) ?i (length zs) (pl, a)
      = Inr (set_block pl (Some b) (map Obj ys @ map Obj zs @ dead T h # cs))"
      using False n p m1 m2 m3 Cons
      by (simp add: KArray_moveElements_def one del: upt_Suc)
    then show ?thesis by (intro exI [of _ "dead T h"]) simp
  qed
qed

lemma insertAt_out_of_range:
  "length xs < index \<Longrightarrow> karray_rep T st xs \<Longrightarrow> KArray_insertAt T index t st = Inr (False, st)"
  by (cases st) (simp add: KArray_insertAt_def karray_rep_def)

text \<open>Opening the gap at \<open>index\<close> in a container with room for one more element.\<close>

lemma insert_gap:
  assumes wf: "wf_traits T" and rep: "karray_rep T (pl, a) xs" and room: "length xs < m_bufferSize a"
    and i: "index \<le> length xs"
  obtains b h cs where "data_p a = Some b" and "(if index < m_numElements a
      then KArray_moveElements T (ULONG index) (ULONG (index + 1)) (ULONG (m_numElements a - index)) (pl, a)
      else Inr pl) = Inr (set_block pl (Some b) (map Obj (take index xs) @ h # map Obj (drop index xs) @ cs))"
    and "trivially_destructible T \<or> h = Raw"
    and "\<And>v. karray_rep T (set_block pl (Some b) (map Obj (take index xs) @ Obj v # map Obj (drop index xs) @ cs),
            a\<lparr>m_numElements := Suc (length xs)\<rparr>) (take index xs @ v # drop index xs)"
proof -
  obtain b c cs where b: "data_p a = Some b" and blk: "blocks pl b = Some (map Obj xs @ c # cs)"
    and c: "trivially_destructible T \<or> c = Raw" and rest: "\<forall>c \<in> set cs. trivially_destructible T \<or> c = Raw"
      "Suc (length cs) = m_bufferSize a - m_numElements a" "pool_fresh pl" "length xs = m_numElements a"
      "m_numElements a < m_bufferSize a" "m_bufferSize a < 2 ^ 32 - 1"
    by (rule rep_room [OF rep room])
  have rep': "karray_rep T (set_block pl (Some b) (map Obj (take index xs) @ Obj v # map Obj (drop index xs) @ cs),
            a\<lparr>m_numElements := Suc (length xs)\<rparr>) (take index xs @ v # drop index xs)" for v
    using rep_set_block [of pl b _ a "take index xs @ v # drop index xs" "Suc (length xs)" cs T] rest b blk i by simp
  show ?thesis
  proof (cases "index < length xs")
    case True
    have "map Obj xs @ c # cs = map Obj (take index xs) @ map Obj (drop index xs) @ c # cs"
      by (simp flip: map_append append_assoc)
    with blk have blk': "blocks pl b = Some (map Obj (take index xs) @ map Obj (drop index xs) @ c # cs)"
      by simp_all
    have len: "length (take index xs) = index" "length (drop index xs) = length xs - index" using i by simp_all
    have "drop index xs \<noteq> []" "m_numElements a = length (take index xs) + length (drop index xs)"
      "m_numElements a < 2 ^ 32 - 1" using True rest by simp_all
    from moveElements_up [OF wf b blk' c this]
    obtain h where h: "KArray_moveElements T index (Suc index) (length xs - index) (pl, a)
      = Inr (set_block pl (Some b) (map Obj (take index xs) @ h # map Obj (drop index xs) @ cs))"
      "trivially_destructible T \<or> h = Raw" unfolding len by blast
    have "ULONG index = index" "ULONG (index + 1) = Suc index" "ULONG (m_numElements a - index) = length xs - index"
      using True rest by (simp_all add: ULONG_small)
    then show ?thesis using that [OF b _ h(2) rep'] h(1) True rest by simp
  next
    case False
    with i have "take index xs = xs" "drop index xs = []" by simp_all
    then show ?thesis using that [OF b _ c rep'] False blk rest(4) by (simp add: set_block_same)
  qed
qed

lemma insertAt_spec:
  assumes wf: "wf_traits T" and rep: "karray_rep T (pl, a) xs" and f: "foreign (pl, a) t v"
    and i: "index \<le> length xs"
  shows "yields T (pl, a) (KArray_insertAt T index t (pl, a)) (grow_ok T (length xs + 1) (pl, a))
    (if grow_ok T (length xs + 1) (pl, a) then take index xs @ v # drop index xs else xs)"
proof -
  have n: "m_numElements a = length xs" using rep by (simp add: karray_rep_def)
  obtain pl1 a1 where g: "KArray_grow T (length xs + 1) (pl, a) = Inr (grow_ok T (length xs + 1) (pl, a), pl1, a1)"
    and rep1: "karray_rep T (pl1, a1) xs" and fr: "karray_frame (pl, a) (pl1, a1)"
    and room: "grow_ok T (length xs + 1) (pl, a) \<longrightarrow> length xs + 1 \<le> m_bufferSize a1"
    using grow_spec [OF wf rep] by blast
  show ?thesis
  proof (cases "grow_ok T (length xs + 1) (pl, a)")
    case False
    then show ?thesis using g rep1 fr n i by (simp add: KArray_insertAt_def yields_def)
  next
    case True
    have n1: "m_numElements a1 = length xs" "m_bufferSize a1 < 2 ^ 32 - 1" "length xs < m_bufferSize a1"
      using rep1 True room by (simp_all add: karray_rep_def)
    obtain b h cs where b: "data_p a1 = Some b" and mv: "(if index < m_numElements a1
      then KArray_moveElements T (ULONG index) (ULONG (index + 1)) (ULONG (m_numElements a1 - index)) (pl1, a1)
      else Inr pl1) = Inr (set_block pl1 (Some b) (map Obj (take index xs) @ h # map Obj (drop index xs) @ cs))"
      and h: "trivially_destructible T \<or> h = Raw"
      and rep2: "karray_rep T (set_block pl1 (Some b) (map Obj (take index xs) @ Obj v # map Obj (drop index xs) @ cs),
            a1\<lparr>m_numElements := Suc (length xs)\<rparr>) (take index xs @ v # drop index xs)"
      using insert_gap [OF wf rep1 _ i] n1(3) by metis
    let ?pl2 = "set_block pl1 (Some b) (map Obj (take index xs) @ h # map Obj (drop index xs) @ cs)"
    let ?pl3 = "set_block pl1 (Some b) (map Obj (take index xs) @ Obj v # map Obj (drop index xs) @ cs)"
    have "construct T ?pl2 (Some b) index v = Inr ?pl3"
      using construct_at [of ?pl2 b "map Obj (take index xs)" h _ index T v] h i by simp
    then have "KArray_insertAt T index t (pl, a) = Inr (True, ?pl3, a1\<lparr>m_numElements := Suc (length xs)\<rparr>)"
      using g True n b mv foreign_deref_set [OF foreign_frame [OF fr f] b] i n1
      by (simp add: KArray_insertAt_def ULONG_small split del: if_split)
    moreover have "karray_frame (pl, a) (?pl3, a1\<lparr>m_numElements := Suc (length xs)\<rparr>)"
      by (rule karray_frame_trans [OF fr]) (simp add: karray_frame_set_block b)
    ultimately show ?thesis using True rep2 by (simp add: yields_def)
  qed
qed

text \<open>The overloads for an rvalue do what the copying ones do, because \<open>move\<close> keeps an lvalue.\<close>

lemma move_out_copies [simp]: "move_out pl t = Inr pl"
  by (simp add: move_out_def leave_source_def split: cref.split)

lemma append_move_copies [simp]: "KArray_append_move = KArray_append"
  by (intro ext) (simp add: KArray_append_move_def KArray_append_def cong: if_cong)

lemma insertAt_move_copies [simp]: "KArray_insertAt_move = KArray_insertAt"
  by (intro ext) (simp add: KArray_insertAt_move_def KArray_insertAt_def cong: if_cong)

lemma insertSorted_move_copies [simp]: "KArray_insertSorted_move = KArray_insertSorted"
  by (intro ext) (simp add: KArray_insertSorted_move_def KArray_insertSorted_def)

lemma insertSortedUnique_move_copies [simp]: "KArray_insertSortedUnique_move = KArray_insertSortedUnique"
  by (intro ext) (simp add: KArray_insertSortedUnique_move_def KArray_insertSortedUnique_def)

lemma eraseAt_spec:
  assumes wf: "wf_traits T" and rep: "karray_rep T (pl, a) xs" and i: "index < length xs"
  shows "\<exists>st'. KArray_eraseAt T index (pl, a) = Inr st' \<and>
    karray_rep T st' (take index xs @ drop (Suc index) xs) \<and> karray_frame (pl, a) st'"
proof -
  from rep i obtain b cs where b: "data_p a = Some b" and blk: "blocks pl b = Some (map Obj xs @ cs)"
    and rest: "\<forall>c \<in> set cs. trivially_destructible T \<or> c = Raw" "length cs = m_bufferSize a - m_numElements a"
      "pool_fresh pl" "length xs = m_numElements a" "m_numElements a \<le> m_bufferSize a" "m_bufferSize a < 2 ^ 32 - 1"
    by (cases "data_p a") (auto simp: karray_rep_None karray_rep_Some)
  let ?y = "take index xs" and ?z = "drop (Suc index) xs"
  have "map Obj xs @ cs = map Obj (?y @ xs ! index # ?z) @ cs"
    using i by (simp only: id_take_nth_drop [symmetric])
  with blk have "blocks pl b = Some (map Obj (?y @ xs ! index # ?z) @ cs)" by simp_all
  then have blk': "blocks pl b = Some (map Obj ?y @ Obj (xs ! index) # map Obj ?z @ cs)" by simp
  let ?pl1 = "set_block pl (Some b) (map Obj ?y @ dead T (Obj (xs ! index)) # map Obj ?z @ cs)"
  have d: "destroy T pl (Some b) index = Inr ?pl1"
    using i by (intro destroy_at [OF blk']) auto
  have "length ?y = index" "m_numElements a = Suc (length ?y + length ?z)" using i rest(4) by simp_all
  then obtain h where h: "KArray_moveElements T (Suc index) index (length ?z) (?pl1, a)
      = Inr (set_block ?pl1 (Some b) (map Obj ?y @ map Obj ?z @ h # cs))" "trivially_destructible T \<or> h = Raw"
    using moveElements_down [OF wf b, of ?pl1 ?y "dead T (Obj (xs ! index))" ?z cs] by (metis dead_free fun_upd_same set_block_simps(1))
  let ?pl2 = "set_block pl (Some b) (map Obj (?y @ ?z) @ h # cs)"
  let ?a2 = "a\<lparr>m_numElements := m_numElements a - 1\<rparr>"
  have u: "ULONG (index + 1) = Suc index" "ULONG index = index" "ULONG (m_numElements a - index - 1) = length ?z"
     "ULONG_sub (m_numElements a) 1 = m_numElements a - 1"
    using i rest by (simp_all add: ULONG_small ULONG_sub_small)
  have "KArray_eraseAt T index (pl, a) = Inr (?pl2, ?a2)"
    using i rest(4) d h(1) b u unfolding KArray_eraseAt_def by simp
  moreover have "karray_rep T (?pl2, ?a2) (?y @ ?z)"
    using rest b blk h(2) i by (intro rep_set_block) auto
  ultimately show ?thesis
    using karray_frame_set_block [OF b, of ?a2 pl] b by auto
qed

section \<open>Resizing and release\<close>

text \<open>The element new positions get: value-initialised, or zero bytes for a trivial type.\<close>

definition fillT :: "'a traits \<Rightarrow> 'a" where
  "fillT T = (if trivially_default_constructible T then zeroT T else defaultT T)"

definition resized :: "'a traits \<Rightarrow> nat \<Rightarrow> 'a list \<Rightarrow> 'a list" where
  "resized T n xs = take n xs @ replicate (n - length xs) (fillT T)"

lemma resize_fill:
  assumes wf: "wf_traits T" and rep: "karray_rep T (pl, a) xs" and n: "length xs < n" "n \<le> m_bufferSize a"
  obtains b cs where "data_p a = Some b" and "(if trivially_default_constructible T
        then (if n > m_numElements a then zero_cells T pl (data_p a) (m_numElements a) (n - m_numElements a) else Inr pl)
        else forR [m_numElements a..<n] (\<lambda>i pl. construct T pl (data_p a) i (defaultT T)) pl)
      = Inr (set_block pl (Some b) (map Obj (resized T n xs) @ cs))"
    and "karray_rep T (set_block pl (Some b) (map Obj (resized T n xs) @ cs), a\<lparr>m_numElements := n\<rparr>) (resized T n xs)"
proof -
  let ?k = "n - length xs"
  from rep n obtain b cs where b: "data_p a = Some b" and blk: "blocks pl b = Some (map Obj xs @ cs)"
    and raw: "\<forall>c \<in> set cs. trivially_destructible T \<or> c = Raw"
    and rest: "length cs = m_bufferSize a - m_numElements a"
      "pool_fresh pl" "length xs = m_numElements a" "m_numElements a \<le> m_bufferSize a" "m_bufferSize a < 2 ^ 32 - 1"
    by (cases "data_p a") (auto simp: karray_rep_None karray_rep_Some)
  have cs: "cs = take ?k cs @ drop ?k cs" and k: "length (take ?k cs) = ?k" using n rest by simp_all
  let ?pl = "set_block pl (Some b) (map Obj (resized T n xs) @ drop ?k cs)"
  have res: "map Obj (resized T n xs) = map Obj xs @ replicate ?k (Obj (fillT T))"
    using n by (simp add: resized_def)
  have "(if trivially_default_constructible T
        then (if n > m_numElements a then zero_cells T pl (data_p a) (m_numElements a) (n - m_numElements a) else Inr pl)
        else forR [m_numElements a..<n] (\<lambda>i pl. construct T pl (data_p a) i (defaultT T)) pl) = Inr ?pl"
  proof (cases "trivially_default_constructible T")
    case True
    then show ?thesis
      using n rest b blk by (simp add: zero_cells_def res fillT_def)
  next
    case False
    have "forR [length xs..<length xs + length (take ?k cs)] (\<lambda>i pl. construct T pl (Some b) i (defaultT T)) pl
        = Inr (set_block pl (Some b) (map Obj xs @ replicate (length (take ?k cs)) (Obj (defaultT T)) @ drop ?k cs))"
      using blk raw by (intro construct_loop) (auto dest: in_set_takeD)
    then show ?thesis unfolding k using False n rest b by (simp add: res fillT_def)
  qed
  moreover have "karray_rep T (?pl, a\<lparr>m_numElements := n\<rparr>) (resized T n xs)"
    using rest b blk n raw by (intro rep_set_block) (auto simp: resized_def dest: in_set_dropD)
  ultimately show ?thesis using that b by blast
qed

lemma resize_cut:
  assumes wf: "wf_traits T" and rep: "karray_rep T (pl, a) xs" and n: "n \<le> length xs"
  shows "\<exists>pl'. (if \<not> trivially_destructible T
        then forR [n..<m_numElements a] (\<lambda>i pl. destroy T pl (data_p a) i) pl else Inr pl) = Inr pl'
    \<and> karray_rep T (pl', a\<lparr>m_numElements := n\<rparr>) (resized T n xs) \<and> karray_frame (pl, a) (pl', a\<lparr>m_numElements := n\<rparr>)"
proof (cases "data_p a")
  case None
  then show ?thesis using rep n by (auto simp: karray_rep_None resized_def karray_frame_def)
next
  case b: (Some b)
  with rep obtain cs where blk: "blocks pl b = Some (map Obj xs @ cs)"
    and raw: "\<forall>c \<in> set cs. trivially_destructible T \<or> c = Raw"
    and rest: "length cs = m_bufferSize a - m_numElements a"
      "pool_fresh pl" "length xs = m_numElements a" "m_numElements a \<le> m_bufferSize a" "m_bufferSize a < 2 ^ 32 - 1"
    by (auto simp: karray_rep_Some)
  let ?ds = "map (dead T) (map Obj (drop n xs))"
  let ?pl = "set_block pl (Some b) (map Obj (take n xs) @ ?ds @ cs)"
  have split: "map Obj xs @ cs = map Obj (take n xs) @ map Obj (drop n xs) @ cs"
    by (simp flip: map_append append_assoc)
  have "(if \<not> trivially_destructible T
        then forR [n..<m_numElements a] (\<lambda>i pl. destroy T pl (data_p a) i) pl else Inr pl) = Inr ?pl"
  proof (cases "trivially_destructible T")
    case True
    have "?ds = map Obj (drop n xs)" using True by (simp add: dead_def)
    then show ?thesis using True blk split by (simp add: set_block_same)
  next
    case False
    have "forR [n..<n + length (map Obj (drop n xs))] (\<lambda>i pl. destroy T pl (Some b) i) pl = Inr ?pl"
      using blk n unfolding split by (intro destroy_loop) auto
    then show ?thesis using False n rest b by simp
  qed
  moreover have "karray_rep T (set_block pl (Some b) (map Obj (resized T n xs) @ ?ds @ cs), a\<lparr>m_numElements := n\<rparr>) (resized T n xs)"
    using rest b blk n raw by (intro rep_set_block) (auto simp: resized_def dead_def)
  ultimately show ?thesis using karray_frame_set_block [OF b, of "a\<lparr>m_numElements := n\<rparr>"] b n by (auto simp: resized_def)
qed

lemma resize_spec:
  assumes wf: "wf_traits T" and rep: "karray_rep T (pl, a) xs"
  shows "yields T (pl, a) (KArray_resize T n (pl, a)) (reserve_ok T n (pl, a))
    (if reserve_ok T n (pl, a) then resized T n xs else xs)"
proof -
  obtain pl1 a1 where r: "KArray_reserve T n (pl, a) = Inr (reserve_ok T n (pl, a), pl1, a1)"
    and rep1: "karray_rep T (pl1, a1) xs" and fr: "karray_frame (pl, a) (pl1, a1)"
    and room: "reserve_ok T n (pl, a) \<longrightarrow> n \<le> m_bufferSize a1"
    using reserve_spec [OF wf rep] by blast
  have n1: "m_numElements a1 = length xs" "m_bufferSize a1 < 2 ^ 32 - 1" using rep1 by (simp_all add: karray_rep_def)
  show ?thesis
  proof (cases "reserve_ok T n (pl, a)")
    case False
    then show ?thesis using r rep1 fr by (simp add: KArray_resize_def yields_def)
  next
    case ok: True
    then have u: "ULONG n = n" using room n1 by (simp add: ULONG_small)
    show ?thesis
    proof (cases "length xs < n")
      case True
      obtain b cs where b: "data_p a1 = Some b" and fill: "(if trivially_default_constructible T
          then (if n > m_numElements a1 then zero_cells T pl1 (data_p a1) (m_numElements a1) (n - m_numElements a1) else Inr pl1)
          else forR [m_numElements a1..<n] (\<lambda>i pl. construct T pl (data_p a1) i (defaultT T)) pl1)
        = Inr (set_block pl1 (Some b) (map Obj (resized T n xs) @ cs))"
        and rep2: "karray_rep T (set_block pl1 (Some b) (map Obj (resized T n xs) @ cs), a1\<lparr>m_numElements := n\<rparr>) (resized T n xs)"
        using resize_fill [OF wf rep1 True] room ok by metis
      have "KArray_resize T n (pl, a) = Inr (True, set_block pl1 (Some b) (map Obj (resized T n xs) @ cs), a1\<lparr>m_numElements := n\<rparr>)"
        using r ok fill True n1 u
        by (cases "trivially_destructible T") (simp_all add: KArray_resize_def split del: if_split)
      then show ?thesis
        using rep2 ok karray_frame_trans [OF fr karray_frame_set_block [OF b]] b by (simp add: yields_def)
    next
      case False
      then obtain pl2 where cut: "(if \<not> trivially_destructible T
          then forR [n..<m_numElements a1] (\<lambda>i pl. destroy T pl (data_p a1) i) pl1 else Inr pl1) = Inr pl2"
        and rep2: "karray_rep T (pl2, a1\<lparr>m_numElements := n\<rparr>) (resized T n xs)"
        and fr2: "karray_frame (pl1, a1) (pl2, a1\<lparr>m_numElements := n\<rparr>)"
        using resize_cut [OF wf rep1, of n] by auto
      have "[m_numElements a1..<n] = []" using False n1 by simp
      then have "KArray_resize T n (pl, a) = Inr (True, pl2, a1\<lparr>m_numElements := n\<rparr>)"
        using r ok cut False n1 u by (simp add: KArray_resize_def)
      then show ?thesis using rep2 ok karray_frame_trans [OF fr fr2] by (simp add: yields_def)
    qed
  qed
qed

text \<open>\<open>reset\<close> destroys the elements and gives the block back: the pool is what it was outside the block.\<close>

lemma reset_spec:
  assumes wf: "wf_traits T" and rep: "karray_rep T (pl, a) xs"
  shows "\<exists>pl'. KArray_reset T (pl, a) = Inr (pl', KArray_empty) \<and> pool_fresh pl' \<and>
    blocks pl' = blocks pl |` (- set_option (data_p a)) \<and> next_block pl' = next_block pl \<and> refuses pl' = refuses pl"
proof (cases "data_p a")
  case None
  have "a = KArray_empty" using None rep by (cases a) (simp add: karray_rep_None KArray_empty_def)
  then show ?thesis using None rep by (simp add: KArray_reset_def karray_rep_None restrict_map_def)
next
  case b: (Some b)
  with rep obtain cs where blk: "blocks pl b = Some (map Obj xs @ cs)" and fresh: "pool_fresh pl"
    and raw: "\<forall>c \<in> set cs. trivially_destructible T \<or> c = Raw" and n: "length xs = m_numElements a"
    by (auto simp: karray_rep_Some)
  let ?pl1 = "set_block pl (Some b) (map (dead T) (map Obj xs) @ cs)"
  have d: "(if \<not> trivially_destructible T
      then forR (rev [0..<m_numElements a]) (\<lambda>i pl. destroy T pl (data_p a) i) pl else Inr pl) = Inr ?pl1"
  proof (cases "trivially_destructible T")
    case True
    have "map (dead T) (map Obj xs) = map Obj xs" using True by (simp add: dead_def)
    then show ?thesis using True blk by (simp add: set_block_same)
  next
    case False
    then show ?thesis using destroy_loop_rev [of pl b "[]" "map Obj xs" cs 0 T] blk n b by simp
  qed
  let ?pl2 = "?pl1\<lparr>blocks := (blocks ?pl1)(b := None)\<rparr>"
  have "ExFreePoolWithTag T (Some b) ?pl1 = Inr ?pl2"
    using raw by (auto simp: ExFreePoolWithTag_def dead_def)
  then have "KArray_reset T (pl, a) = Inr (?pl2, a\<lparr>m_bufferSize := 0, m_numElements := 0, data_p := None\<rparr>)"
    using d b by (simp add: KArray_reset_def)
  moreover have "a\<lparr>m_bufferSize := 0, m_numElements := 0, data_p := None\<rparr> = KArray_empty"
    by (simp add: KArray_empty_def)
  ultimately show ?thesis using b fresh
    by (auto simp: pool_fresh_def restrict_map_def fun_eq_iff)
qed

section \<open>Reading elements\<close>

lemma rep_read:
  assumes "karray_rep T (pl, a) xs" and "i < length xs"
  shows "read_obj pl (data_p a) i = Inr (xs ! i)"
  using assms
  by (cases "data_p a") (auto simp: karray_rep_None karray_rep_Some read_obj_def get_cell_def nth_append)

lemma rep_num: "karray_rep T st xs \<Longrightarrow> m_numElements (snd st) = length xs"
  by (cases st) (simp add: karray_rep_def)

lemma range_for_suffix:
  assumes "karray_rep T (pl, a) xs" and "i \<le> length xs"
  shows "range_for (pl, a) \<lparr>it_i = i\<rparr> (KArray_end a) acc = Some (Inr (acc @ drop i xs))"
  using assms(2)
proof (induction "length xs - i" arbitrary: i acc)
  case 0
  then show ?case using rep_num [OF assms(1)]
    by (subst range_for.simps) (simp add: iterator_neq_def iterator_eq_def KArray_end_def)
next
  case (Suc k)
  then have i: "i < length xs" by simp
  have "range_for (pl, a) \<lparr>it_i = Suc i\<rparr> (KArray_end a) (acc @ [xs ! i])
      = Some (Inr ((acc @ [xs ! i]) @ drop (Suc i) xs))"
    using Suc by (intro Suc.hyps(1)) simp_all
  then show ?case
    using i rep_num [OF assms(1)] rep_read [OF assms(1) i]
    by (subst range_for.simps)
      (simp add: iterator_neq_def iterator_eq_def KArray_end_def iterator_deref_def KArray_at_def deref_def iterator_next_def
        Cons_nth_drop_Suc)
qed

section \<open>Sorted insertion\<close>

definition sorted_ins :: "('a \<Rightarrow> 'a \<Rightarrow> bool) \<Rightarrow> 'a \<Rightarrow> 'a list \<Rightarrow> 'a list" where
  "sorted_ins lt v xs = takeWhile (\<lambda>x. lt x v) xs @ v # dropWhile (\<lambda>x. lt x v) xs"

definition sorted_ins_unique :: "('a \<Rightarrow> 'a \<Rightarrow> bool) \<Rightarrow> 'a \<Rightarrow> 'a list \<Rightarrow> 'a list" where
  "sorted_ins_unique lt v xs = (case dropWhile (\<lambda>x. lt x v) xs of
     [] \<Rightarrow> xs @ [v] | y # ys \<Rightarrow> if lt v y then sorted_ins lt v xs else xs)"

text \<open>Whether the unique insertion asks for room at all.\<close>

definition inserts_unique :: "('a \<Rightarrow> 'a \<Rightarrow> bool) \<Rightarrow> 'a \<Rightarrow> 'a list \<Rightarrow> bool" where
  "inserts_unique lt v xs = (case dropWhile (\<lambda>x. lt x v) xs of [] \<Rightarrow> True | y # ys \<Rightarrow> lt v y)"

lemma scan_from:
  assumes rep: "karray_rep T (pl, a) xs" and d: "deref pl t = Inr v" and "i \<le> length xs"
  shows "scan_not_less pl (data_p a) t lt [i..<length xs] =
    Inr (let k = i + length (takeWhile (\<lambda>x. lt x v) (drop i xs)) in if k < length xs then Some k else None)"
  using assms(3)
proof (induction "length xs - i" arbitrary: i)
  case (Suc k)
  then have i: "i < length xs" by simp
  have "scan_not_less pl (data_p a) t lt [Suc i..<length xs] = Inr (let k = Suc i + length (takeWhile (\<lambda>x. lt x v)
      (drop (Suc i) xs)) in if k < length xs then Some k else None)"
    using Suc by (intro Suc.hyps(1)) simp_all
  then show ?case
    using i rep_read [OF rep i] d Cons_nth_drop_Suc [OF i, symmetric] by (simp add: upt_conv_Cons)
qed simp

text \<open>The scan of a whole container, in terms of the two parts of the list.\<close>

lemma scan_spec:
  assumes "karray_rep T (pl, a) xs" and "deref pl t = Inr v"
  shows "scan_not_less pl (data_p a) t lt [0..<m_numElements a] =
    Inr (case dropWhile (\<lambda>x. lt x v) xs of [] \<Rightarrow> None | y # ys \<Rightarrow> Some (length (takeWhile (\<lambda>x. lt x v) xs)))"
proof -
  have "length xs = length (takeWhile (\<lambda>x. lt x v) xs) + length (dropWhile (\<lambda>x. lt x v) xs)"
    by (simp flip: length_append)
  then show ?thesis using scan_from [OF assms, of 0 lt] rep_num [OF assms(1)]
    by (cases "dropWhile (\<lambda>x. lt x v) xs") (simp_all add: Let_def del: dropWhile_eq_Nil_conv)
qed

lemma take_drop_while:
  "take (length (takeWhile P xs)) xs = takeWhile P xs" "drop (length (takeWhile P xs)) xs = dropWhile P xs"
  by (induction xs) auto

lemma nth_takeWhile_length: "dropWhile P xs = y # ys \<Longrightarrow> xs ! length (takeWhile P xs) = y"
  by (induction xs) (auto split: if_splits)

lemma length_takeWhile_less': "dropWhile P xs = y # ys \<Longrightarrow> length (takeWhile P xs) < length xs"
  by (induction xs) (auto split: if_splits)

lemma dropWhile_Nil_takeWhile: "dropWhile P xs = [] \<Longrightarrow> takeWhile P xs = xs"
  by (simp add: takeWhile_eq_all_conv)

lemma dropWhile_Cons_not: "dropWhile P xs = y # ys \<Longrightarrow> \<not> P y \<and> y \<in> set xs"
  by (induction xs) (auto split: if_splits)

text \<open>
  The interface the sorted insertions use: an \<open>insertAt\<close> and an \<open>append\<close> that put the value an
  argument denotes into the list. Both pairs of overloads provide it.
\<close>

locale karray_insertion =
  fixes ins :: "'a traits \<Rightarrow> nat \<Rightarrow> 'a cref \<Rightarrow> 'a karray_state \<Rightarrow> (bool \<times> 'a karray_state) result"
    and app :: "'a traits \<Rightarrow> 'a cref \<Rightarrow> 'a karray_state \<Rightarrow> (bool \<times> 'a karray_state) result"
    and denotes :: "'a karray_state \<Rightarrow> 'a cref \<Rightarrow> 'a \<Rightarrow> bool"
  assumes ins_law: "wf_traits T \<Longrightarrow> karray_rep T st xs \<Longrightarrow> denotes st t v \<Longrightarrow> i \<le> length xs \<Longrightarrow>
      yields T st (ins T i t st) (grow_ok T (length xs + 1) st)
        (if grow_ok T (length xs + 1) st then take i xs @ v # drop i xs else xs)"
    and app_law: "wf_traits T \<Longrightarrow> karray_rep T st xs \<Longrightarrow> denotes st t v \<Longrightarrow>
      yields T st (app T t st) (grow_ok T (length xs + 1) st)
        (if grow_ok T (length xs + 1) st then xs @ [v] else xs)"
    and denotes_deref: "denotes st t v \<Longrightarrow> deref (fst st) t = Inr v"
begin

lemma insertSorted_spec:
  assumes "wf_traits T" and "karray_rep T (pl, a) xs" and "denotes (pl, a) t v"
  shows "yields T (pl, a) (insertSorted_body (ins T) (app T) lt t (pl, a)) (grow_ok T (length xs + 1) (pl, a))
    (if grow_ok T (length xs + 1) (pl, a) then sorted_ins lt v xs else xs)"
proof (cases "dropWhile (\<lambda>x. lt x v) xs")
  case Nil
  have "insertSorted_body (ins T) (app T) lt t (pl, a) = app T t (pl, a)"
    using scan_spec [OF assms(2), of t v lt] denotes_deref [OF assms(3)]
    by (simp add: insertSorted_body_def Nil)
  then show ?thesis using app_law [OF assms] by (simp only: sorted_ins_def Nil dropWhile_Nil_takeWhile [OF Nil])
next
  case (Cons y ys)
  have "insertSorted_body (ins T) (app T) lt t (pl, a) = ins T (length (takeWhile (\<lambda>x. lt x v) xs)) t (pl, a)"
    using scan_spec [OF assms(2), of t v lt] denotes_deref [OF assms(3)]
    by (simp add: insertSorted_body_def Cons)
  then show ?thesis
    using ins_law [OF assms length_takeWhile_le, of "\<lambda>x. lt x v"] by (simp only: sorted_ins_def take_drop_while)
qed

lemma insertSortedUnique_spec:
  assumes "wf_traits T" and "karray_rep T (pl, a) xs" and "denotes (pl, a) t v"
  shows "yields T (pl, a) (insertSortedUnique_body (ins T) (app T) lt t (pl, a))
    (inserts_unique lt v xs \<longrightarrow> grow_ok T (length xs + 1) (pl, a))
    (if grow_ok T (length xs + 1) (pl, a) then sorted_ins_unique lt v xs else xs)"
proof (cases "dropWhile (\<lambda>x. lt x v) xs")
  case Nil
  have "insertSortedUnique_body (ins T) (app T) lt t (pl, a) = app T t (pl, a)"
    using scan_spec [OF assms(2), of t v lt] denotes_deref [OF assms(3)]
    by (simp add: insertSortedUnique_body_def Nil)
  then show ?thesis
    using app_law [OF assms] by (simp add: sorted_ins_unique_def inserts_unique_def Nil split: if_splits)
next
  case (Cons y ys)
  let ?k = "length (takeWhile (\<lambda>x. lt x v) xs)"
  have "read_obj pl (data_p a) ?k = Inr y"
    using rep_read [OF assms(2)] length_takeWhile_less' [OF Cons] nth_takeWhile_length [OF Cons] by simp
  then have "insertSortedUnique_body (ins T) (app T) lt t (pl, a)
      = (if lt v y then ins T ?k t (pl, a) else Inr (True, pl, a))"
    using scan_spec [OF assms(2), of t v lt] denotes_deref [OF assms(3)]
    by (simp add: insertSortedUnique_body_def Cons)
  then show ?thesis
    using ins_law [OF assms length_takeWhile_le, of "\<lambda>x. lt x v"] assms(2)
    by (cases "lt v y")
      (simp_all add: sorted_ins_unique_def inserts_unique_def Cons sorted_ins_def take_drop_while yields_def
        split: if_splits)
qed

end

interpretation copy_ins: karray_insertion KArray_insertAt KArray_append foreign
proof
  fix T :: "'a traits" and st xs t v and i :: nat
  assume "wf_traits T" "karray_rep T st xs" "foreign st t v"
  then show "i \<le> length xs \<Longrightarrow> yields T st (KArray_insertAt T i t st) (grow_ok T (length xs + 1) st)
        (if grow_ok T (length xs + 1) st then take i xs @ v # drop i xs else xs)"
    and "yields T st (KArray_append T t st) (grow_ok T (length xs + 1) st)
        (if grow_ok T (length xs + 1) st then xs @ [v] else xs)"
    by (cases st, simp only: insertAt_spec append_spec)+
qed (metis foreign_deref prod.collapse)

interpretation move_ins: karray_insertion KArray_insertAt_move KArray_append_move foreign
  by (simp add: copy_ins.karray_insertion_axioms)

text \<open>Order and contents of the lists the sorted insertions produce.\<close>

lemma sorted_ins_mset: "mset (sorted_ins lt v xs) = add_mset v (mset xs)"
proof -
  have "mset xs = mset (takeWhile (\<lambda>x. lt x v) xs) + mset (dropWhile (\<lambda>x. lt x v) xs)"
    by (simp flip: mset_append)
  then show ?thesis by (simp add: sorted_ins_def)
qed

lemma sorted_wrt_insert:
  "sorted_wrt R (as @ bs) \<Longrightarrow> \<forall>x \<in> set as. R x v \<Longrightarrow> \<forall>z \<in> set bs. R v z \<Longrightarrow> sorted_wrt R (as @ v # bs)"
  by (simp add: sorted_wrt_append)

lemma sorted_ins_sorted:
  assumes asym: "\<And>x y. lt x y \<Longrightarrow> \<not> lt y x" and nt: "\<And>x y z. \<not> lt y x \<Longrightarrow> \<not> lt z y \<Longrightarrow> \<not> lt z x"
    and s: "sorted_wrt (\<lambda>x y. \<not> lt y x) xs"
  shows "sorted_wrt (\<lambda>x y. \<not> lt y x) (sorted_ins lt v xs)"
proof -
  let ?a = "takeWhile (\<lambda>x. lt x v) xs" and ?b = "dropWhile (\<lambda>x. lt x v) xs"
  have sab: "sorted_wrt (\<lambda>x y. \<not> lt y x) (?a @ ?b)" using s by simp
  have before: "\<forall>x \<in> set ?a. \<not> lt v x" using set_takeWhileD asym by fast
  have after: "\<forall>z \<in> set ?b. \<not> lt z v"
  proof (cases ?b)
    case Nil
    show ?thesis unfolding Nil by simp
  next
    case (Cons y ys)
    have y: "\<not> lt y v" using dropWhile_Cons_not [OF Cons] by simp
    have "\<forall>z \<in> set ys. \<not> lt z y" using sab unfolding Cons by (simp add: sorted_wrt_append)
    then have "\<forall>z \<in> set ys. \<not> lt z v" using nt [OF y] by blast
    then show ?thesis unfolding Cons using y by simp
  qed
  show ?thesis unfolding sorted_ins_def by (rule sorted_wrt_insert [OF sab before after])
qed

lemma sorted_ins_unique_sorted:
  assumes tr: "\<And>x y z. lt x y \<Longrightarrow> lt y z \<Longrightarrow> lt x z" and s: "sorted_wrt lt xs"
  shows "sorted_wrt lt (sorted_ins_unique lt v xs)"
proof -
  let ?a = "takeWhile (\<lambda>x. lt x v) xs" and ?b = "dropWhile (\<lambda>x. lt x v) xs"
  have sab: "sorted_wrt lt (?a @ ?b)" using s by simp
  have before: "\<forall>x \<in> set ?a. lt x v" using set_takeWhileD by fast
  show ?thesis
  proof (cases ?b)
    case Nil
    have "\<forall>x \<in> set xs. lt x v" using before unfolding dropWhile_Nil_takeWhile [OF Nil] .
    then show ?thesis using s unfolding sorted_ins_unique_def Nil by (simp add: sorted_wrt_append)
  next
    case (Cons y ys)
    have "\<forall>z \<in> set ys. lt y z" using sab unfolding Cons by (simp add: sorted_wrt_append)
    then have "lt v y \<Longrightarrow> \<forall>z \<in> set ?b. lt v z" unfolding Cons using tr [of v y] by auto
    then have "lt v y \<Longrightarrow> sorted_wrt lt (?a @ v # ?b)" by (rule sorted_wrt_insert [OF sab before])
    then show ?thesis using s by (simp add: sorted_ins_unique_def sorted_ins_def Cons)
  qed
qed

lemma sorted_ins_unique_set:
  "set xs \<subseteq> set (sorted_ins_unique lt v xs) \<and> set (sorted_ins_unique lt v xs) \<subseteq> insert v (set xs) \<and>
    (v \<in> set (sorted_ins_unique lt v xs) \<or> (\<exists>y \<in> set xs. \<not> lt y v \<and> \<not> lt v y))"
proof -
  have set: "set (sorted_ins lt v xs) = insert v (set xs)"
    using arg_cong [OF sorted_ins_mset [of lt v xs], of set_mset] by simp
  show ?thesis
  proof (cases "dropWhile (\<lambda>x. lt x v) xs")
    case Nil
    show ?thesis unfolding sorted_ins_unique_def Nil by auto
  next
    case (Cons y ys)
    then show ?thesis using dropWhile_Cons_not [OF Cons] set unfolding sorted_ins_unique_def Cons by auto
  qed
qed

section \<open>Programs over the container\<close>

text \<open>A client's calls, with temporaries as arguments; each is run by the operation of the same name.\<close>

datatype 'a karray_op =
    PushBack 'a | PushBackMove 'a | AppendMove 'a | InsertAt nat 'a | InsertAtMove nat 'a
  | InsertSorted 'a | InsertSortedMove 'a | InsertSortedUnique 'a | InsertSortedUniqueMove 'a
  | EraseAt nat | Reserve nat | Resize nat | PopBack | Clear

definition no_answer :: "'a karray_state result \<Rightarrow> (bool \<times> 'a karray_state) result" where
  "no_answer r = bindR r (\<lambda>st. Inr (True, st))"

fun exec :: "'a traits \<Rightarrow> ('a \<Rightarrow> 'a \<Rightarrow> bool) \<Rightarrow> 'a karray_op \<Rightarrow> 'a karray_state \<Rightarrow> (bool \<times> 'a karray_state) result" where
  "exec T lt (PushBack v) st = KArray_push_back T (Temp v) st"
| "exec T lt (PushBackMove v) st = KArray_push_back_move T (Temp v) st"
| "exec T lt (AppendMove v) st = KArray_append_move T (Temp v) st"
| "exec T lt (InsertAt i v) st = KArray_insertAt T i (Temp v) st"
| "exec T lt (InsertAtMove i v) st = KArray_insertAt_move T i (Temp v) st"
| "exec T lt (InsertSorted v) st = KArray_insertSorted T lt (Temp v) st"
| "exec T lt (InsertSortedMove v) st = KArray_insertSorted_move T lt (Temp v) st"
| "exec T lt (InsertSortedUnique v) st = KArray_insertSortedUnique T lt (Temp v) st"
| "exec T lt (InsertSortedUniqueMove v) st = KArray_insertSortedUnique_move T lt (Temp v) st"
| "exec T lt (EraseAt i) st = no_answer (KArray_eraseAt T i st)"
| "exec T lt (Reserve n) st = KArray_reserve T n st"
| "exec T lt (Resize n) st = KArray_resize T n st"
| "exec T lt PopBack st = no_answer (KArray_pop_back T st)"
| "exec T lt Clear st = no_answer (KArray_clear T st)"

fun exec_all :: "'a traits \<Rightarrow> ('a \<Rightarrow> 'a \<Rightarrow> bool) \<Rightarrow> 'a karray_op list \<Rightarrow> 'a karray_state \<Rightarrow> 'a karray_state result" where
  "exec_all T lt [] st = Inr st"
| "exec_all T lt (c # cs) st = bindR (exec T lt c st) (\<lambda>(_, st). exec_all T lt cs st)"

text \<open>The list a call leaves when it answers true.\<close>

fun op_list :: "'a traits \<Rightarrow> ('a \<Rightarrow> 'a \<Rightarrow> bool) \<Rightarrow> 'a karray_op \<Rightarrow> 'a list \<Rightarrow> 'a list" where
  "op_list T lt (PushBack v) xs = xs @ [v]"
| "op_list T lt (PushBackMove v) xs = xs @ [v]"
| "op_list T lt (AppendMove v) xs = xs @ [v]"
| "op_list T lt (InsertAt i v) xs = take i xs @ v # drop i xs"
| "op_list T lt (InsertAtMove i v) xs = take i xs @ v # drop i xs"
| "op_list T lt (InsertSorted v) xs = sorted_ins lt v xs"
| "op_list T lt (InsertSortedMove v) xs = sorted_ins lt v xs"
| "op_list T lt (InsertSortedUnique v) xs = sorted_ins_unique lt v xs"
| "op_list T lt (InsertSortedUniqueMove v) xs = sorted_ins_unique lt v xs"
| "op_list T lt (EraseAt i) xs = take i xs @ drop (Suc i) xs"
| "op_list T lt (Reserve n) xs = xs"
| "op_list T lt (Resize n) xs = resized T n xs"
| "op_list T lt PopBack xs = butlast xs"
| "op_list T lt Clear xs = []"

lemma yieldsE:
  assumes "yields T st r ok ys"
  obtains st' where "r = Inr (ok, st')" and "karray_rep T st' ys" and "karray_frame st st'"
  using assms by (auto simp: yields_def)

lemma foreign_Temp [simp]: "foreign st (Temp v) v"
  by (cases st) (simp add: foreign_def)

lemma sorted_ins_unique_noop: "\<not> inserts_unique lt v xs \<Longrightarrow> sorted_ins_unique lt v xs = xs"
  by (cases "dropWhile (\<lambda>x. lt x v) xs")
    (simp_all add: inserts_unique_def sorted_ins_unique_def del: dropWhile_eq_Nil_conv)

lemma pop_back_spec:
  assumes wf: "wf_traits T" and rep: "karray_rep T (pl, a) xs"
  shows "\<exists>st'. KArray_pop_back T (pl, a) = Inr st' \<and> karray_rep T st' (butlast xs) \<and> karray_frame (pl, a) st'"
proof (cases "xs = []")
  case True
  have "m_numElements a = 0" "m_bufferSize a < 2 ^ 32 - 1" using rep True by (simp_all add: karray_rep_def)
  then have "\<not> reserve_ok T (2 ^ 64 - 1) (pl, a)" and "size_sub (m_numElements a) 1 = 2 ^ 64 - 1"
    by (simp_all add: reserve_ok_def size_sub_def)
  then show ?thesis
    using resize_spec [OF wf rep, of "2 ^ 64 - 1"] True by (auto simp: KArray_pop_back_def KArray_count_def yields_def)
next
  case False
  have n: "m_numElements a = length xs" "length xs \<le> m_bufferSize a" "m_bufferSize a < 2 ^ 32 - 1"
    using rep by (simp_all add: karray_rep_def)
  have "length xs + 2 ^ 64 - 1 = (length xs - 1) + 2 ^ 64" using False by (cases xs) simp_all
  then have "size_sub (m_numElements a) 1 = (length xs - 1) mod 2 ^ 64"
    unfolding size_sub_def n(1) by (simp only: mod_add_self2)
  then have s: "size_sub (m_numElements a) 1 = length xs - 1" using n by simp
  moreover have "length xs - 1 \<le> m_bufferSize a" using n by linarith
  then have "reserve_ok T (length xs - 1) (pl, a)" by (simp add: reserve_ok_def)
  moreover have "resized T (length xs - 1) xs = butlast xs" by (simp add: resized_def butlast_conv_take)
  ultimately show ?thesis
    using resize_spec [OF wf rep, of "length xs - 1"] by (auto simp: KArray_pop_back_def KArray_count_def yields_def)
qed

text \<open>Every call either yields the list its specification names, or refuses and changes nothing.\<close>

definition serves :: "'a traits \<Rightarrow> 'a karray_state \<Rightarrow> (bool \<times> 'a karray_state) result \<Rightarrow> 'a list \<Rightarrow> 'a list \<Rightarrow> bool" where
  "serves T st r xs ys \<longleftrightarrow> (\<exists>ok. yields T st r ok (if ok then ys else xs))"

lemma servesI: "yields T st r ok (if ok then ys else xs) \<Longrightarrow> serves T st r xs ys"
  unfolding serves_def by blast

lemma serves_refused: "karray_rep T st xs \<Longrightarrow> serves T st (Inr (False, st)) xs ys"
  by (rule servesI [of _ _ _ False]) (simp add: yields_def)

lemma serves_no_answer:
  "\<exists>st'. r = Inr st' \<and> karray_rep T st' ys \<and> karray_frame st st' \<Longrightarrow> serves T st (no_answer r) xs ys"
  by (rule servesI [of _ _ _ True]) (auto simp: yields_def no_answer_def)

lemma insertAt_serves:
  assumes "wf_traits T" and "karray_rep T (pl, a) xs"
  shows "serves T (pl, a) (KArray_insertAt T i (Temp v) (pl, a)) xs (take i xs @ v # drop i xs)"
proof (cases "i \<le> length xs")
  case True
  then show ?thesis by (rule servesI [OF insertAt_spec [OF assms foreign_Temp]])
next
  case False
  then show ?thesis using assms(2) insertAt_out_of_range [of xs i T "(pl, a)"] by (simp add: serves_refused)
qed

lemma insertSortedUnique_serves:
  assumes "yields T (pl, a) r (inserts_unique lt v xs \<longrightarrow> g) (if g then sorted_ins_unique lt v xs else xs)"
  shows "serves T (pl, a) r xs (sorted_ins_unique lt v xs)"
proof (cases "inserts_unique lt v xs \<longrightarrow> g")
  case True
  then show ?thesis using assms by (intro servesI [of _ _ _ True]) (cases g, simp_all add: sorted_ins_unique_noop)
next
  case False
  then show ?thesis using assms by (intro servesI [of _ _ _ False]) simp
qed

lemma clear_spec:
  assumes "wf_traits T" and "karray_rep T (pl, a) xs"
  shows "\<exists>st'. KArray_clear T (pl, a) = Inr st' \<and> karray_rep T st' [] \<and> karray_frame (pl, a) st'"
proof -
  have "reserve_ok T 0 (pl, a)" by (simp add: reserve_ok_def)
  then show ?thesis
    using resize_spec [OF assms, of 0] by (auto simp: yields_def KArray_clear_def resized_def)
qed

lemma eraseAt_out_of_range:
  "length xs \<le> i \<Longrightarrow> karray_rep T st xs \<Longrightarrow> KArray_eraseAt T i st = Inl FailFast"
  by (cases st) (simp add: KArray_eraseAt_def karray_rep_def)

lemma reserve_serves:
  assumes "wf_traits T" and "karray_rep T (pl, a) xs"
  shows "serves T (pl, a) (KArray_reserve T n (pl, a)) xs xs"
  using reserve_spec [OF assms, of n] by (intro servesI [of _ _ _ "reserve_ok T n (pl, a)"]) (auto simp: yields_def)

lemmas container_serves =
  servesI [OF append_spec [OF _ _ foreign_Temp]]
  servesI [OF copy_ins.insertSorted_spec [OF _ _ foreign_Temp]]
  servesI [OF move_ins.insertSorted_spec [OF _ _ foreign_Temp]]
  insertSortedUnique_serves [OF copy_ins.insertSortedUnique_spec [OF _ _ foreign_Temp]]
  insertSortedUnique_serves [OF move_ins.insertSortedUnique_spec [OF _ _ foreign_Temp]]
  insertAt_serves reserve_serves servesI [OF resize_spec]
  serves_no_answer [OF pop_back_spec] serves_no_answer [OF clear_spec]

lemma exec_spec:
  assumes wf: "wf_traits T" and rep: "karray_rep T (pl, a) xs"
    and "\<And>i. c = EraseAt i \<Longrightarrow> i < length xs"
  shows "serves T (pl, a) (exec T lt c (pl, a)) xs (op_list T lt c xs)"
proof (cases c)
  case (EraseAt i)
  then show ?thesis using assms by (simp add: serves_no_answer [OF eraseAt_spec])
qed (simp_all add: KArray_push_back_def KArray_push_back_move_def
  KArray_insertSorted_def KArray_insertSorted_move_def KArray_insertSortedUnique_def
  KArray_insertSortedUnique_move_def container_serves [OF wf rep])

lemma exec_all_spec:
  assumes "wf_traits T" and "karray_rep T st xs"
  shows "(exec_all T lt cs st = Inl FailFast \<and> (\<exists>i. EraseAt i \<in> set cs)) \<or>
    (\<exists>st' ys. exec_all T lt cs st = Inr st' \<and> karray_rep T st' ys \<and> karray_frame st st')"
  using assms(2)
proof (induction cs arbitrary: st xs)
  case (Cons c cs)
  obtain pl a where st: "st = (pl, a)" by (cases st)
  show ?case
  proof (cases "\<exists>i. c = EraseAt i \<and> length xs \<le> i")
    case True
    then show ?thesis using Cons.prems by (auto simp: no_answer_def eraseAt_out_of_range)
  next
    case False
    then obtain ok st' where st': "exec T lt c st = Inr (ok, st')" and
      rep': "karray_rep T st' (if ok then op_list T lt c xs else xs)" and fr: "karray_frame st st'"
      using exec_spec [OF assms(1) Cons.prems [unfolded st], of c lt]
      unfolding st serves_def yields_def by (meson not_le)
    from Cons.IH [OF rep'] show ?thesis using st' karray_frame_trans [OF fr] by auto
  qed
qed auto

section \<open>Construction, moves and self-reference\<close>

lemma assign_loop:
  assumes "blocks pl b = Some (A @ cs @ B)" and "length A = i" and "trivially_copyable T"
  shows "forR [i..<i + length cs] (\<lambda>k pl. assign T pl (Some b) k v) pl
    = Inr (set_block pl (Some b) (A @ replicate (length cs) (Obj v) @ B))"
  using assms(1,2)
proof (induction cs arbitrary: A i pl)
  case Nil
  then show ?case by (simp add: set_block_same)
next
  case (Cons c cs)
  let ?pl = "set_block pl (Some b) (A @ Obj v # cs @ B)"
  have e: "[i..<i + length (c # cs)] = i # [Suc i..<Suc i + length cs]"
    by (simp only: length_Cons upt_cons_len)
  have "assign T pl (Some b) i v = Inr ?pl"
    using Cons.prems assms(3) by (simp add: assign_def get_cell_def set_cell_at)
  moreover have "forR [Suc i..<Suc i + length cs] (\<lambda>k pl. assign T pl (Some b) k v) ?pl
      = Inr (set_block ?pl (Some b) ((A @ [Obj v]) @ replicate (length cs) (Obj v) @ B))"
    using Cons.prems by (intro Cons.IH) simp_all
  ultimately show ?case unfolding e by simp
qed

lemma constructor_refused:
  assumes "pool_fresh pl" and "0 < cnt" and "\<not> grow_ok T cnt (pl, KArray_empty)" and "wf_traits T"
  shows "KArray_constructor T cnt v pl = Inl NullDeref"
proof -
  let ?n = "grow_target cnt KArray_empty"
  obtain pl1 where "KArray_reserve T ?n (pl, KArray_empty) = Inr (False, pl1, KArray_empty)"
    using reserve_refused [OF karray_rep_empty [OF assms(1)], of T ?n] assms(3) by (auto simp: grow_ok_def)
  moreover have "\<not> cnt \<le> m_bufferSize KArray_empty" using assms(2) by (simp add: KArray_empty_def)
  moreover have "[0..<cnt] = 0 # [Suc 0..<cnt]" using assms(2) by (rule upt_conv_Cons)
  ultimately show ?thesis using assms(2)
    by (simp add: KArray_constructor_def KArray_grow_alt assign_def get_cell_def get_block_def KArray_empty_def)
qed

lemma constructor_fills:
  assumes fresh: "pool_fresh pl" and cnt: "0 < cnt" and ok: "grow_ok T cnt (pl, KArray_empty)" and wf: "wf_traits T"
    and triv: "trivially_copyable T"
  shows "\<exists>st. KArray_constructor T cnt v pl = Inr st \<and> karray_rep T st (replicate cnt v) \<and>
    karray_frame (pl, KArray_empty) st"
proof -
  obtain pl1 a1 where g: "KArray_grow T cnt (pl, KArray_empty) = Inr (True, pl1, a1)"
    and rep1: "karray_rep T (pl1, a1) []" and fr: "karray_frame (pl, KArray_empty) (pl1, a1)"
    and room: "cnt \<le> m_bufferSize a1"
    using grow_spec [OF wf karray_rep_empty [OF fresh], of cnt] ok by auto
  from rep1 room cnt obtain b cs where b: "data_p a1 = Some b" and blk: "blocks pl1 b = Some cs"
    and rest: "length cs = m_bufferSize a1" "pool_fresh pl1" "m_bufferSize a1 < 2 ^ 32 - 1"
    by (cases "data_p a1") (auto simp: karray_rep_None karray_rep_Some)
  have dtor: "trivially_destructible T" using wf triv by (simp add: wf_traits_def)
  let ?pl2 = "set_block pl1 (Some b) (map Obj (replicate cnt v) @ drop cnt cs)"
  let ?a2 = "a1\<lparr>m_numElements := cnt\<rparr>"
  have "forR [0..<0 + length (take cnt cs)] (\<lambda>k pl. assign T pl (Some b) k v) pl1
      = Inr (set_block pl1 (Some b) ([] @ replicate (length (take cnt cs)) (Obj v) @ drop cnt cs))"
    using blk triv by (intro assign_loop) simp_all
  then have "forR [0..<cnt] (\<lambda>k pl. assign T pl (Some b) k v) pl1 = Inr ?pl2"
    using room rest by simp
  then have "KArray_constructor T cnt v pl = Inr (?pl2, ?a2)"
    using g cnt b room rest by (simp add: KArray_constructor_def ULONG_small)
  moreover have "karray_rep T (?pl2, ?a2) (replicate cnt v)"
    using rest room b blk dtor by (intro rep_set_block) auto
  ultimately show ?thesis
    using karray_frame_trans [OF fr karray_frame_set_block [OF b, of ?a2]] b by auto
qed

lemma reserve_first_raw:
  assumes "\<not> refuses pl (next_block pl)" and "0 < n" and "n < 2 ^ 32 - 1" and "sizeofT T * n < 2 ^ 64"
    and "wf_traits T"
  shows "KArray_reserve T n (pl, KArray_empty) =
    Inr (True, pl\<lparr>next_block := Suc (next_block pl), blocks := (blocks pl)(next_block pl \<mapsto> replicate n Raw)\<rparr>,
      \<lparr>m_bufferSize = n, m_numElements = 0, data_p = Some (next_block pl)\<rparr>)"
  using assms by (simp add: KArray_reserve_def KArray_empty_def ExAllocatePoolUninitialized_def Let_def
      copy_cells_def ULONG_small wf_traits_def)

lemma constructor_assigns_raw:
  assumes cnt: "0 < cnt" and ok: "grow_ok T cnt (pl, KArray_empty)" and wf: "wf_traits T"
    and "\<not> trivially_copyable T"
  shows "KArray_constructor T cnt v pl = Inl RawAccess"
proof -
  let ?n = "grow_target cnt KArray_empty"
  have n: "cnt \<le> ?n" "0 < ?n" by (simp_all add: grow_target_def)
  have "KArray_grow T cnt (pl, KArray_empty) = KArray_reserve T ?n (pl, KArray_empty)"
    using cnt by (simp add: KArray_grow_alt KArray_empty_def)
  moreover have "[0..<cnt] = 0 # [Suc 0..<cnt]" using cnt by (rule upt_conv_Cons)
  moreover have "\<not> refuses pl (next_block pl)" "?n < 2 ^ 32 - 1" "sizeofT T * ?n < 2 ^ 64"
    using ok cnt n by (auto simp: grow_ok_def reserve_ok_def KArray_empty_def)
  ultimately show ?thesis
    using cnt assms(4) n reserve_first_raw [OF _ n(2) _ _ wf, of pl]
    by (simp add: KArray_constructor_def assign_def get_cell_def)
qed

text \<open>A reference into the container itself dangles once \<open>append\<close> has had to relocate the elements.\<close>

lemma append_self_dangles:
  assumes wf: "wf_traits T" and rep: "karray_rep T (pl, a) xs" and full: "length xs = m_bufferSize a"
    and i: "i < length xs" and ok: "grow_ok T (length xs + 1) (pl, a)"
  shows "KArray_append T (At (data_p a) i) (pl, a) = Inl UseAfterFree"
proof -
  from rep i obtain b cs where b: "data_p a = Some b" and blk: "blocks pl b = Some cs" and fresh: "pool_fresh pl"
    and n: "length xs = m_numElements a"
    by (cases "data_p a") (auto simp: karray_rep_None karray_rep_Some)
  let ?n = "grow_target (length xs + 1) a"
  have big: "m_bufferSize a < ?n" using full by (simp add: grow_target_def)
  have lim: "?n < 2 ^ 32 - 1" "sizeofT T * ?n < 2 ^ 64" "\<not> refuses pl (next_block pl)"
    using ok full big by (auto simp: grow_ok_def reserve_ok_def)
  obtain pl' a' where r: "KArray_reserve T ?n (pl, a) = Inr (True, pl', a')"
    and fr: "karray_frame (pl, a) (pl', a')" and p': "data_p a' \<noteq> Some b"
    using reserve_relocate [OF wf rep big lim b] fresh blk by (fastforce simp: pool_fresh_def)
  have "blocks pl' b = None"
  proof -
    have "(blocks pl' |` (- set_option (data_p a'))) b = (blocks pl |` (- set_option (data_p a))) b"
      using fr by (simp add: karray_frame_def)
    then show ?thesis using b p' by (auto simp: restrict_map_def split: if_splits)
  qed
  then show ?thesis
    using r full n b by (simp add: KArray_append_def KArray_grow_alt deref_def read_obj_def get_cell_def get_block_def)
qed

section \<open>Properties\<close>

subsection \<open>A concrete container\<close>

definition demo_traits :: "nat traits" where
  "demo_traits = \<lparr>sizeofT = 8, trivially_copyable = False, trivially_default_constructible = False,
     trivially_destructible = False, defaultT = 7, zeroT = 0\<rparr>"

definition word_traits :: "nat traits" where
  "word_traits = \<lparr>sizeofT = 4, trivially_copyable = True, trivially_default_constructible = True,
     trivially_destructible = True, defaultT = 0, zeroT = 0\<rparr>"

definition no_pool :: "nat pool" where
  "no_pool = \<lparr>blocks = \<lambda>_. None, next_block = 0, refuses = \<lambda>b. 2 \<le> b\<rparr>"

definition demo :: "nat karray_state" where
  "demo = (no_pool\<lparr>blocks := [0 \<mapsto> [Obj 10, Obj 30, Raw, Raw]], next_block := 1\<rparr>,
     \<lparr>m_bufferSize = 4, m_numElements = 2, data_p = Some 0\<rparr>)"

definition full_demo :: "nat karray_state" where
  "full_demo = (no_pool\<lparr>blocks := [0 \<mapsto> [Obj 10, Obj 30]], next_block := 1\<rparr>,
     \<lparr>m_bufferSize = 2, m_numElements = 2, data_p = Some 0\<rparr>)"

lemma demo_facts:
  "wf_traits demo_traits" "wf_traits word_traits" "pool_fresh no_pool"
  "karray_rep demo_traits demo [10, 30]" "karray_rep demo_traits full_demo [10, 30]"
  "m_bufferSize (snd demo) = 4" "m_bufferSize (snd full_demo) = 2"
  by (simp_all add: wf_traits_def demo_traits_def word_traits_def pool_fresh_def no_pool_def karray_rep_def
      demo_def full_demo_def)

lemma demo_grow:
  "grow_ok demo_traits 3 demo" "grow_ok demo_traits 3 full_demo" "reserve_ok demo_traits 1 demo"
  "grow_ok word_traits 3 (no_pool, KArray_empty)" "grow_ok demo_traits 3 (no_pool, KArray_empty)"
  "\<not> grow_ok word_traits 4294967295 (no_pool, KArray_empty)" "reserve_ok demo_traits 5 demo"
  by (simp_all add: grow_ok_def reserve_ok_def demo_def full_demo_def no_pool_def grow_target_def demo_traits_def
      word_traits_def KArray_empty_def)

subsection \<open>Whole lifetimes\<close>



subsection \<open>Single operations\<close>

text \<open>
  C9. \<open>insertAt\<close> with an index up to the size and an argument outside the container puts the value at
  that index and keeps the other elements in order; it answers whether \<open>grow\<close> found room, and when it
  did not the elements are as before. Other storage is untouched in both cases.
\<close>

theorem KArray_insertAt_refines:
  assumes "wf_traits T" and "karray_rep T (pl, a) xs" and "foreign (pl, a) t v" and "index \<le> length xs"
  shows "yields T (pl, a) (KArray_insertAt T index t (pl, a)) (grow_ok T (length xs + 1) (pl, a))
    (if grow_ok T (length xs + 1) (pl, a) then take index xs @ v # drop index xs else xs)"
  by (rule insertAt_spec [OF assms])

theorem KArray_insertAt_refines_witness:
  "yields demo_traits demo (KArray_insertAt demo_traits 1 (Temp 20) demo) True [10, 20, 30]"
  using KArray_insertAt_refines [of demo_traits "fst demo" "snd demo" "[10, 30]" "Temp 20" 20 1] demo_facts demo_grow
  by (simp add: numeral_3_eq_3)

text \<open>
  \<open>append\<close> and \<open>push_back\<close> add the value at the end, or answer false and leave the elements alone
  when no room can be found; the argument has to live outside the container.
\<close>

theorem KArray_append_refines:
  assumes "wf_traits T" and "karray_rep T (pl, a) xs" and "foreign (pl, a) t v"
  shows "KArray_push_back T t (pl, a) = KArray_append T t (pl, a) \<and>
    yields T (pl, a) (KArray_append T t (pl, a)) (grow_ok T (length xs + 1) (pl, a))
    (if grow_ok T (length xs + 1) (pl, a) then xs @ [v] else xs)"
  using append_spec [OF assms] by (simp add: KArray_push_back_def)

theorem KArray_append_refines_witness:
  "KArray_push_back demo_traits (Temp 40) full_demo = KArray_append demo_traits (Temp 40) full_demo \<and>
    yields demo_traits full_demo (KArray_append demo_traits (Temp 40) full_demo) True [10, 30, 40]"
  using KArray_append_refines [of demo_traits "fst full_demo" "snd full_demo" "[10, 30]" "Temp 40" 40] demo_facts demo_grow
  by (simp add: numeral_3_eq_3)

text \<open>
  \<open>eraseAt\<close> removes the element at a valid index, closing the gap, and stops the program for
  every other index.
\<close>

theorem KArray_eraseAt_refines:
  assumes "wf_traits T" and "karray_rep T (pl, a) xs"
  shows "if index < length xs
    then \<exists>st'. KArray_eraseAt T index (pl, a) = Inr st' \<and>
      karray_rep T st' (take index xs @ drop (Suc index) xs) \<and> karray_frame (pl, a) st'
    else KArray_eraseAt T index (pl, a) = Inl FailFast"
  using eraseAt_spec [OF assms] eraseAt_out_of_range [OF _ assms(2)] by (simp add: not_less)

theorem KArray_eraseAt_refines_witness:
  "(\<exists>st'. KArray_eraseAt demo_traits 0 demo = Inr st' \<and> karray_rep demo_traits st' [30] \<and> karray_frame demo st') \<and>
    KArray_eraseAt demo_traits 2 demo = Inl FailFast"
  using KArray_eraseAt_refines [of demo_traits "fst demo" "snd demo" "[10, 30]" 0]
    KArray_eraseAt_refines [of demo_traits "fst demo" "snd demo" "[10, 30]" 2] demo_facts by simp

text \<open>
  \<open>resize\<close> keeps the first elements, fills up with default elements (zero bytes for a trivially
  default constructible type) and answers whether \<open>reserve\<close> found the capacity; \<open>pop_back\<close> drops the
  last element and does nothing to an empty container, where the requested size wraps around and is
  refused; \<open>clear\<close> empties it.
\<close>

theorem KArray_resize_refines:
  assumes "wf_traits T" and "karray_rep T (pl, a) xs"
  shows "yields T (pl, a) (KArray_resize T n (pl, a)) (reserve_ok T n (pl, a))
      (if reserve_ok T n (pl, a) then resized T n xs else xs) \<and>
    (\<exists>st'. KArray_pop_back T (pl, a) = Inr st' \<and> karray_rep T st' (butlast xs) \<and> karray_frame (pl, a) st') \<and>
    (\<exists>st'. KArray_clear T (pl, a) = Inr st' \<and> karray_rep T st' [] \<and> karray_frame (pl, a) st')"
  using resize_spec [OF assms] pop_back_spec [OF assms] clear_spec [OF assms] by blast

theorem KArray_resize_refines_witness:
  "yields demo_traits demo (KArray_resize demo_traits 5 demo) True [10, 30, 7, 7, 7] \<and>
    (\<exists>st'. KArray_pop_back demo_traits demo = Inr st' \<and> karray_rep demo_traits st' [10] \<and> karray_frame demo st') \<and>
    (\<exists>st'. KArray_clear demo_traits demo = Inr st' \<and> karray_rep demo_traits st' [] \<and> karray_frame demo st')"
  using KArray_resize_refines [of demo_traits "fst demo" "snd demo" "[10, 30]" 5] demo_facts demo_grow
  by (simp add: resized_def fillT_def demo_traits_def numeral_3_eq_3)

text \<open>
  C24. \<open>insertSorted\<close>, in both overloads and for every strict weak order, keeps a sorted container
  sorted and adds exactly the one value, whenever there is room for it.
\<close>

theorem KArray_insertSorted_sorted:
  assumes "wf_traits T" and "karray_rep T (pl, a) xs" and "grow_ok T (length xs + 1) (pl, a)"
    and "\<And>x y. lt x y \<Longrightarrow> \<not> lt y x" and "\<And>x y z. \<not> lt y x \<Longrightarrow> \<not> lt z y \<Longrightarrow> \<not> lt z x"
    and "sorted_wrt (\<lambda>x y. \<not> lt y x) xs"
  shows "\<exists>ys. sorted_wrt (\<lambda>x y. \<not> lt y x) ys \<and> mset ys = add_mset v (mset xs) \<and>
    yields T (pl, a) (KArray_insertSorted T lt (Temp v) (pl, a)) True ys \<and>
    yields T (pl, a) (KArray_insertSorted_move T lt (Temp v) (pl, a)) True ys"
proof (intro exI [of _ "sorted_ins lt v xs"] conjI)
  show "sorted_wrt (\<lambda>x y. \<not> lt y x) (sorted_ins lt v xs)" using assms(4-6) by (rule sorted_ins_sorted)
  show "yields T (pl, a) (KArray_insertSorted T lt (Temp v) (pl, a)) True (sorted_ins lt v xs)"
    using copy_ins.insertSorted_spec [OF assms(1,2) foreign_Temp, of lt v] assms(3)
    by (simp add: KArray_insertSorted_def)
  show "yields T (pl, a) (KArray_insertSorted_move T lt (Temp v) (pl, a)) True (sorted_ins lt v xs)"
    using move_ins.insertSorted_spec [OF assms(1,2) foreign_Temp, of lt v] assms(3)
    by (simp add: KArray_insertSorted_def)
qed (rule sorted_ins_mset)

theorem KArray_insertSorted_sorted_witness:
  "\<exists>ys. sorted_wrt (\<lambda>x y. \<not> y < x) ys \<and> mset ys = add_mset (20::nat) (mset [10, 30]) \<and>
    yields demo_traits demo (KArray_insertSorted demo_traits (<) (Temp 20) demo) True ys \<and>
    yields demo_traits demo (KArray_insertSorted_move demo_traits (<) (Temp 20) demo) True ys"
  using KArray_insertSorted_sorted [of demo_traits "fst demo" "snd demo" "[10, 30]" "(<)" 20] demo_facts demo_grow
  by (simp add: numeral_3_eq_3)

text \<open>
  \<open>insertSortedUnique\<close>, in both overloads and for a transitive order, keeps a strictly sorted
  container strictly sorted; afterwards the value is there, or an equivalent element already was. The
  answer is true unless room was needed and could not be found.
\<close>

theorem KArray_insertSortedUnique_sorted:
  assumes "wf_traits T" and "karray_rep T (pl, a) xs" and "grow_ok T (length xs + 1) (pl, a)"
    and "\<And>x y z. lt x y \<Longrightarrow> lt y z \<Longrightarrow> lt x z" and "sorted_wrt lt xs"
  shows "\<exists>ys. sorted_wrt lt ys \<and> set xs \<subseteq> set ys \<and> set ys \<subseteq> insert v (set xs) \<and>
    (v \<in> set ys \<or> (\<exists>y \<in> set xs. \<not> lt y v \<and> \<not> lt v y)) \<and>
    yields T (pl, a) (KArray_insertSortedUnique T lt (Temp v) (pl, a)) True ys \<and>
    yields T (pl, a) (KArray_insertSortedUnique_move T lt (Temp v) (pl, a)) True ys"
proof -
  have "sorted_wrt lt (sorted_ins_unique lt v xs)" using assms(4,5) by (rule sorted_ins_unique_sorted)
  moreover have "yields T (pl, a) (KArray_insertSortedUnique T lt (Temp v) (pl, a)) True (sorted_ins_unique lt v xs)"
    using copy_ins.insertSortedUnique_spec [OF assms(1,2) foreign_Temp, of lt v] assms(3)
    by (simp add: KArray_insertSortedUnique_def)
  moreover have "yields T (pl, a) (KArray_insertSortedUnique_move T lt (Temp v) (pl, a)) True (sorted_ins_unique lt v xs)"
    using move_ins.insertSortedUnique_spec [OF assms(1,2) foreign_Temp, of lt v] assms(3)
    by (simp add: KArray_insertSortedUnique_def)
  ultimately show ?thesis using sorted_ins_unique_set [of xs lt v] by blast
qed

theorem KArray_insertSortedUnique_sorted_witness:
  "\<exists>ys. sorted_wrt (<) ys \<and> set [10, 30] \<subseteq> set ys \<and> set ys \<subseteq> insert 30 (set [10, 30]) \<and>
    (30 \<in> set ys \<or> (\<exists>y \<in> set [10, 30 :: nat]. \<not> y < 30 \<and> \<not> 30 < y)) \<and>
    yields demo_traits demo (KArray_insertSortedUnique demo_traits (<) (Temp 30) demo) True ys \<and>
    yields demo_traits demo (KArray_insertSortedUnique_move demo_traits (<) (Temp 30) demo) True ys"
  using KArray_insertSortedUnique_sorted [of demo_traits "fst demo" "snd demo" "[10, 30]" "(<)" 30] demo_facts(1,4)
    demo_grow(1) by (simp add: numeral_3_eq_3)

text \<open>
  C25. The loop \<open>for (x : array)\<close> ends and visits the elements in order, each exactly once; the
  subscript operator gives the element at every valid index and stops the program at every other.
\<close>

theorem KArray_range_for_visits_all:
  assumes "karray_rep T (pl, a) xs"
  shows "range_for (pl, a) (KArray_begin a) (KArray_end a) [] = Some (Inr xs) \<and>
    bindR (KArray_at i (pl, a)) (deref pl) = (if i < length xs then Inr (xs ! i) else Inl FailFast)"
  using range_for_suffix [OF assms, of 0 "[]"] rep_read [OF assms, of i] rep_num [OF assms]
  by (simp add: KArray_begin_def KArray_at_def deref_def)

theorem KArray_range_for_visits_all_witness:
  "range_for demo (KArray_begin (snd demo)) (KArray_end (snd demo)) [] = Some (Inr [10, 30]) \<and>
    bindR (KArray_at 1 demo) (deref (fst demo)) = Inr 30"
  using KArray_range_for_visits_all [of demo_traits "fst demo" "snd demo" "[10, 30]" 1] demo_facts(4) by simp

text \<open>
  C26. The filling constructor with a positive count. It builds the requested elements only for a
  trivially copyable type and when the pool gives the storage. The result of \<open>grow\<close> is ignored, so a
  refused allocation makes it write through a null pointer; and for any other type it assigns to raw
  storage, where there is no object to assign to.
\<close>

theorem KArray_constructor_outcome:
  assumes "wf_traits T" and "pool_fresh pl" and "0 < cnt"
  shows "if \<not> grow_ok T cnt (pl, KArray_empty) then KArray_constructor T cnt v pl = Inl NullDeref
    else if \<not> trivially_copyable T then KArray_constructor T cnt v pl = Inl RawAccess
    else \<exists>st. KArray_constructor T cnt v pl = Inr st \<and> karray_rep T st (replicate cnt v) \<and>
      karray_frame (pl, KArray_empty) st"
  using constructor_refused [OF assms(2,3) _ assms(1)] constructor_assigns_raw [OF assms(3) _ assms(1)]
    constructor_fills [OF assms(2,3) _ assms(1)] by simp

theorem KArray_constructor_outcome_witness:
  "KArray_constructor word_traits 4294967295 9 no_pool = Inl NullDeref \<and>
    KArray_constructor demo_traits 3 9 no_pool = Inl RawAccess \<and>
    (\<exists>st. KArray_constructor word_traits 3 9 no_pool = Inr st \<and> karray_rep word_traits st [9, 9, 9] \<and>
      karray_frame (no_pool, KArray_empty) st)"
  using KArray_constructor_outcome [of word_traits no_pool 4294967295 9]
    KArray_constructor_outcome [of demo_traits no_pool 3 9] KArray_constructor_outcome [of word_traits no_pool 3 9]
    demo_facts(1-3) demo_grow by (simp add: numeral_3_eq_3 demo_traits_def word_traits_def)

text \<open>
  C27. Appending an element of the container to itself (\<open>a.append(a[i])\<close>) reads the freed block when
  the container is full: \<open>grow\<close> releases the storage the argument refers to before it is copied.
\<close>

theorem KArray_append_own_element:
  assumes "wf_traits T" and "karray_rep T (pl, a) xs" and "length xs = m_bufferSize a" and "i < length xs"
    and "grow_ok T (length xs + 1) (pl, a)"
  shows "bindR (KArray_at i (pl, a)) (\<lambda>t. KArray_append T t (pl, a)) = Inl UseAfterFree"
  using append_self_dangles [OF assms] rep_num [OF assms(2)] assms(4) by (simp add: KArray_at_def)

theorem KArray_append_own_element_witness:
  "bindR (KArray_at 0 full_demo) (\<lambda>t. KArray_append demo_traits t full_demo) = Inl UseAfterFree"
  using KArray_append_own_element [of demo_traits "fst full_demo" "snd full_demo" "[10, 30]" 0] demo_facts demo_grow
  by (simp add: numeral_3_eq_3)

text \<open>
  Move construction and move assignment hand the block over: the target holds the elements of
  the source, the source is empty, and assignment first gives back what the target held.
\<close>

theorem KArray_move_transfers:
  assumes "wf_traits T" and "karray_rep T (pl, a) xs" and "karray_rep T (pl, rhs) ys"
    and "data_p a = None \<or> data_p a \<noteq> data_p rhs"
  shows "KArray_move_constructor rhs = (rhs, KArray_empty) \<and>
    (\<exists>pl'. KArray_move_assign T rhs (pl, a) = Inr (pl', rhs, KArray_empty) \<and> karray_rep T (pl', rhs) ys \<and>
      blocks pl' = blocks pl |` (- set_option (data_p a)))"
proof -
  have src: "rhs\<lparr>m_bufferSize := 0, m_numElements := 0, data_p := None\<rparr> = KArray_empty"
    by (simp add: KArray_empty_def)
  obtain pl' where r: "KArray_reset T (pl, a) = Inr (pl', KArray_empty)" and fresh: "pool_fresh pl'"
    and bl: "blocks pl' = blocks pl |` (- set_option (data_p a))"
    using reset_spec [OF assms(1,2)] by blast
  have "KArray_move_assign T rhs (pl, a) = Inr (pl', rhs, KArray_empty)"
    using r src by (simp add: KArray_move_assign_def)
  moreover have "karray_rep T (pl', rhs) ys"
    using assms(3,4) fresh bl by (cases "data_p rhs") (auto simp: karray_rep_None karray_rep_Some)
  ultimately show ?thesis using bl src by (auto simp: KArray_move_constructor_def)
qed

theorem KArray_move_transfers_witness:
  "KArray_move_constructor KArray_empty = (KArray_empty, KArray_empty) \<and>
    (\<exists>pl'. KArray_move_assign demo_traits KArray_empty demo = Inr (pl', KArray_empty, KArray_empty) \<and>
      karray_rep demo_traits (pl', KArray_empty) [] \<and> blocks pl' = blocks (fst demo) |` (- {0}))"
proof -
  have "pool_fresh (fst demo)" by (simp add: pool_fresh_def demo_def no_pool_def)
  from karray_rep_empty [OF this, of demo_traits] show ?thesis
    using KArray_move_transfers [of demo_traits "fst demo" "snd demo" "[10, 30]" KArray_empty "[]"] demo_facts(1,4)
    by (simp add: demo_def KArray_empty_def)
qed


end
