(* ===== verification/CxVector.thy ===== *)
theory CxVector
  imports KArrayRep
begin

text \<open>
  \<open>CxPlatVector\<close> of \<open>inc/cxplatvector.h\<close>: in the kernel it is \<open>KArray\<close>, in user mode a class over \<open>std::vector\<close> with
  the same two operations. A \<open>std::vector\<close> is the list of its elements; whether an insertion throws is decided by the
  memory it is given.
\<close>

text \<open>\<open>push_back\<close> catches what \<open>std::vector::push_back\<close> throws, which then has changed nothing.\<close>

definition CxPlatVector_push_back :: "bool \<Rightarrow> 'a \<Rightarrow> 'a list \<Rightarrow> bool \<times> 'a list" where
  "CxPlatVector_push_back memory val xs = (if memory then (True, xs @ [val]) else (False, xs))"

text \<open>Erasing at or behind the end is undefined.\<close>

definition CxPlatVector_eraseAt :: "nat \<Rightarrow> 'a list \<Rightarrow> 'a list result" where
  "CxPlatVector_eraseAt index xs = guardR (index < length xs) Undefined (Inr (take index xs @ drop (Suc index) xs))"

datatype 'a vector_call = PushBackValue 'a | EraseAtIndex nat

text \<open>The same calls on both: the answers (true for the operation that has none) and the container.\<close>

fun user_vector :: "bool list \<Rightarrow> 'a vector_call list \<Rightarrow> 'a list \<Rightarrow> (bool list \<times> 'a list) result" where
  "user_vector mem [] xs = Inr ([], xs)"
| "user_vector mem (PushBackValue v # cs) xs = (case CxPlatVector_push_back (hd mem) v xs of
     (b, xs) \<Rightarrow> bindR (user_vector (tl mem) cs xs) (\<lambda>(bs, ys). Inr (b # bs, ys)))"
| "user_vector mem (EraseAtIndex i # cs) xs = bindR (CxPlatVector_eraseAt i xs) (\<lambda>xs.
     bindR (user_vector (tl mem) cs xs) (\<lambda>(bs, ys). Inr (True # bs, ys)))"

fun kernel_vector :: "'a traits \<Rightarrow> 'a vector_call list \<Rightarrow> 'a karray_state \<Rightarrow> (bool list \<times> 'a karray_state) result" where
  "kernel_vector T [] st = Inr ([], st)"
| "kernel_vector T (PushBackValue v # cs) st = bindR (KArray_push_back T (Temp v) st) (\<lambda>(b, st).
     bindR (kernel_vector T cs st) (\<lambda>(bs, st). Inr (b # bs, st)))"
| "kernel_vector T (EraseAtIndex i # cs) st = bindR (KArray_eraseAt T i st) (\<lambda>st.
     bindR (kernel_vector T cs st) (\<lambda>(bs, st). Inr (True # bs, st)))"

text \<open>How a run of the two ends, given the list both start from.\<close>

definition same_run :: "'a traits \<Rightarrow> bool list \<Rightarrow> 'a vector_call list \<Rightarrow> 'a list \<Rightarrow> (bool list \<times> 'a karray_state) result \<Rightarrow> bool" where
  "same_run T mem cs xs r \<longleftrightarrow> (case r of
      Inl e \<Rightarrow> e = FailFast \<and> user_vector mem cs xs = Inl Undefined
    | Inr (bs, st) \<Rightarrow> \<exists>ys. user_vector mem cs xs = Inr (bs, ys) \<and> karray_rep T st ys)"

lemma push_back_step:
  assumes "wf_traits T" and "karray_rep T st xs"
  obtains b st' where "KArray_push_back T (Temp v) st = Inr (b, st')" and "karray_rep T st' (if b then xs @ [v] else xs)"
proof -
  obtain pl a where st: "st = (pl, a)" by (cases st)
  have f: "foreign (pl, a) (Temp v) v" by simp
  have "yields T (pl, a) (KArray_append T (Temp v) (pl, a)) (grow_ok T (length xs + 1) (pl, a))
      (if grow_ok T (length xs + 1) (pl, a) then xs @ [v] else xs)"
    by (rule append_spec [OF assms(1) assms(2) [unfolded st] f])
  then obtain st' where "KArray_append T (Temp v) st = Inr (grow_ok T (length xs + 1) (pl, a), st')"
      "karray_rep T st' (if grow_ok T (length xs + 1) (pl, a) then xs @ [v] else xs)"
    unfolding yields_def st by blast
  then show ?thesis using that by (simp add: KArray_push_back_def)
qed

lemma vectors_agree:
  assumes "wf_traits T" and "karray_rep T st xs"
  shows "\<exists>mem. length mem = length cs \<and> same_run T mem cs xs (kernel_vector T cs st)"
  using assms(2)
proof (induction cs arbitrary: st xs)
  case Nil
  then show ?case by (simp add: same_run_def)
next
  case (Cons c cs)
  show ?case
  proof (cases c)
    case (PushBackValue v)
    obtain b st' where b: "KArray_push_back T (Temp v) st = Inr (b, st')" "karray_rep T st' (if b then xs @ [v] else xs)"
      using push_back_step [OF assms(1) Cons.prems] .
    obtain mem where mem: "length mem = length cs" "same_run T mem cs (if b then xs @ [v] else xs) (kernel_vector T cs st')"
      using Cons.IH [OF b(2)] by blast
    have p: "CxPlatVector_push_back b v xs = (b, if b then xs @ [v] else xs)" by (simp add: CxPlatVector_push_back_def)
    have "same_run T (b # mem) (c # cs) xs (kernel_vector T (c # cs) st)"
      using mem(2) PushBackValue b(1) p by (cases "kernel_vector T cs st'") (auto simp: same_run_def)
    then show ?thesis using mem(1) by (intro exI [of _ "b # mem"]) simp
  next
    case (EraseAtIndex i)
    show ?thesis
    proof (cases "i < length xs")
      case True
      obtain st' where e: "KArray_eraseAt T i st = Inr st'" "karray_rep T st' (take i xs @ drop (Suc i) xs)"
        using eraseAt_spec [OF assms(1), of "fst st" "snd st" xs i] Cons.prems True by auto
      obtain mem where mem: "length mem = length cs" "same_run T mem cs (take i xs @ drop (Suc i) xs) (kernel_vector T cs st')"
        using Cons.IH [OF e(2)] by blast
      have "same_run T (True # mem) (c # cs) xs (kernel_vector T (c # cs) st)"
        using mem(2) EraseAtIndex e(1) True by (cases "kernel_vector T cs st'") (auto simp: same_run_def CxPlatVector_eraseAt_def)
      then show ?thesis using mem(1) by (intro exI [of _ "True # mem"]) simp
    next
      case False
      then have "KArray_eraseAt T i st = Inl FailFast"
        using eraseAt_out_of_range [of xs i T st] Cons.prems by simp
      then show ?thesis using EraseAtIndex False
        by (intro exI [of _ "replicate (Suc (length cs)) True"]) (simp add: same_run_def CxPlatVector_eraseAt_def)
    qed
  qed
qed

text \<open>
  C11. The kernel's and the user mode \<open>CxPlatVector\<close> are interchangeable: for every sequence of \<open>push_back\<close> and \<open>eraseAt\<close>
  and every behaviour of the kernel's pool there is a behaviour of the user mode allocator under which both give the same
  answers and hold the same elements; and where the kernel's stops the program, on an index out of range, the
  user mode one is undefined.
\<close>

theorem CxPlatVector_equivalent:
  assumes "wf_traits T" and "pool_fresh pl"
  shows "\<exists>mem. length mem = length cs \<and> (case kernel_vector T cs (pl, KArray_empty) of
      Inl e \<Rightarrow> e = FailFast \<and> user_vector mem cs [] = Inl Undefined
    | Inr (bs, st) \<Rightarrow> \<exists>ys. user_vector mem cs [] = Inr (bs, ys) \<and> karray_rep T st ys)"
  using vectors_agree [OF assms(1) karray_rep_empty [OF assms(2)], of cs] by (simp add: same_run_def)

theorem CxPlatVector_equivalent_witness:
  "\<exists>mem. length mem = length [PushBackValue (5::nat), PushBackValue 6, EraseAtIndex 0] \<and> (case kernel_vector demo_traits [PushBackValue 5, PushBackValue 6, EraseAtIndex 0] (no_pool, KArray_empty) of
      Inl e \<Rightarrow> e = FailFast \<and> user_vector mem [PushBackValue (5::nat), PushBackValue 6, EraseAtIndex 0] [] = Inl Undefined
    | Inr (bs, st) \<Rightarrow> \<exists>ys. user_vector mem [PushBackValue 5, PushBackValue 6, EraseAtIndex 0] [] = Inr (bs, ys) \<and>
        karray_rep demo_traits st ys)"
  by (rule CxPlatVector_equivalent [OF demo_facts(1) demo_facts(3)])

end
