(* ===== verification/CxKalloc.thy ===== *)
theory CxKalloc
  imports CxPrelude
begin

unbundle bit_operations_syntax

text \<open>
  The pool routines and allocation base classes of \<open>inc/karray.h\<close>: the values of \<open>POOL_TYPE\<close>, the
  allocation tags, the \<open>new\<close> and \<open>delete\<close> operators of \<open>KALLOCATOR\<close> and \<open>KALLOCATOR_NONPAGED\<close>, the
  signature of \<open>DebugBlock\<close>, and the objects that have both bases. The pool is an argument: it chooses
  an address for a pool type, a size and a tag, given what is live.
\<close>

section \<open>Pool types\<close>

text \<open>The enumerators, in the order of the source; one without an initialiser is one more than its predecessor.\<close>

type_synonym POOL_TYPE = u32

definition NonPagedPool :: POOL_TYPE where "NonPagedPool = 0"
definition NonPagedPoolExecute :: POOL_TYPE where "NonPagedPoolExecute = NonPagedPool"
definition PagedPool :: POOL_TYPE where "PagedPool = NonPagedPoolExecute + 1"
definition NonPagedPoolMustSucceed :: POOL_TYPE where "NonPagedPoolMustSucceed = NonPagedPool + 2"
definition DontUseThisType :: POOL_TYPE where "DontUseThisType = NonPagedPoolMustSucceed + 1"
definition NonPagedPoolCacheAligned :: POOL_TYPE where "NonPagedPoolCacheAligned = NonPagedPool + 4"
definition PagedPoolCacheAligned :: POOL_TYPE where "PagedPoolCacheAligned = NonPagedPoolCacheAligned + 1"
definition NonPagedPoolCacheAlignedMustS :: POOL_TYPE where "NonPagedPoolCacheAlignedMustS = NonPagedPool + 6"
definition MaxPoolType :: POOL_TYPE where "MaxPoolType = NonPagedPoolCacheAlignedMustS + 1"
definition NonPagedPoolBase :: POOL_TYPE where "NonPagedPoolBase = 0"
definition NonPagedPoolBaseMustSucceed :: POOL_TYPE where "NonPagedPoolBaseMustSucceed = NonPagedPoolBase + 2"
definition NonPagedPoolBaseCacheAligned :: POOL_TYPE where "NonPagedPoolBaseCacheAligned = NonPagedPoolBase + 4"
definition NonPagedPoolBaseCacheAlignedMustS :: POOL_TYPE where "NonPagedPoolBaseCacheAlignedMustS = NonPagedPoolBase + 6"
definition NonPagedPoolSession :: POOL_TYPE where "NonPagedPoolSession = 32"
definition PagedPoolSession :: POOL_TYPE where "PagedPoolSession = NonPagedPoolSession + 1"
definition NonPagedPoolMustSucceedSession :: POOL_TYPE where "NonPagedPoolMustSucceedSession = PagedPoolSession + 1"
definition DontUseThisTypeSession :: POOL_TYPE where "DontUseThisTypeSession = NonPagedPoolMustSucceedSession + 1"
definition NonPagedPoolCacheAlignedSession :: POOL_TYPE where "NonPagedPoolCacheAlignedSession = DontUseThisTypeSession + 1"
definition PagedPoolCacheAlignedSession :: POOL_TYPE where "PagedPoolCacheAlignedSession = NonPagedPoolCacheAlignedSession + 1"
definition NonPagedPoolCacheAlignedMustSSession :: POOL_TYPE where
  "NonPagedPoolCacheAlignedMustSSession = PagedPoolCacheAlignedSession + 1"
definition NonPagedPoolNx :: POOL_TYPE where "NonPagedPoolNx = 512"
definition NonPagedPoolNxCacheAligned :: POOL_TYPE where "NonPagedPoolNxCacheAligned = NonPagedPoolNx + 4"
definition NonPagedPoolSessionNx :: POOL_TYPE where "NonPagedPoolSessionNx = NonPagedPoolNx + 32"

lemmas pool_type_defs = NonPagedPool_def NonPagedPoolExecute_def PagedPool_def NonPagedPoolMustSucceed_def
  DontUseThisType_def NonPagedPoolCacheAligned_def PagedPoolCacheAligned_def NonPagedPoolCacheAlignedMustS_def
  MaxPoolType_def NonPagedPoolBase_def NonPagedPoolBaseMustSucceed_def NonPagedPoolBaseCacheAligned_def
  NonPagedPoolBaseCacheAlignedMustS_def NonPagedPoolSession_def PagedPoolSession_def NonPagedPoolMustSucceedSession_def
  DontUseThisTypeSession_def NonPagedPoolCacheAlignedSession_def PagedPoolCacheAlignedSession_def
  NonPagedPoolCacheAlignedMustSSession_def NonPagedPoolNx_def NonPagedPoolNxCacheAligned_def NonPagedPoolSessionNx_def

text \<open>
  The note in the enumeration that the masks still apply to the session types: without their bit they
  are the plain types in the same order, all below \<open>MaxPoolType\<close>, and so are the types that are not
  executable; bit 0 is set exactly in the paged ones and the one not to be used.
\<close>

lemma pool_type_masks:
  "map (\<lambda>t. t AND NOT 32) [NonPagedPoolSession, PagedPoolSession, NonPagedPoolMustSucceedSession, DontUseThisTypeSession,
     NonPagedPoolCacheAlignedSession, PagedPoolCacheAlignedSession, NonPagedPoolCacheAlignedMustSSession] =
   [NonPagedPool, PagedPool, NonPagedPoolMustSucceed, DontUseThisType,
     NonPagedPoolCacheAligned, PagedPoolCacheAligned, NonPagedPoolCacheAlignedMustS]"
  "map (\<lambda>t. t AND NOT 512) [NonPagedPoolNx, NonPagedPoolNxCacheAligned, NonPagedPoolSessionNx] =
   [NonPagedPool, NonPagedPoolCacheAligned, NonPagedPoolSession]"
  "\<forall>t \<in> {NonPagedPool, PagedPool, NonPagedPoolMustSucceed, DontUseThisType, NonPagedPoolCacheAligned,
     PagedPoolCacheAligned, NonPagedPoolCacheAlignedMustS}. t < MaxPoolType"
  "filter (\<lambda>t. bit t 0) [NonPagedPool, PagedPool, NonPagedPoolMustSucceed, DontUseThisType, NonPagedPoolCacheAligned,
     PagedPoolCacheAligned, NonPagedPoolCacheAlignedMustS] = [PagedPool, DontUseThisType, PagedPoolCacheAligned]"
  by (simp_all add: pool_type_defs)

section \<open>Pool memory\<close>

record pool_block =
  block_size :: nat
  block_arena :: POOL_TYPE
  block_tag :: u32

type_synonym pool_memory = "nat \<rightharpoonup> pool_block"
type_synonym pool_choice = "POOL_TYPE \<Rightarrow> nat \<Rightarrow> u32 \<Rightarrow> pool_memory \<Rightarrow> nat option"

text \<open>Outside the kernel the pool is \<open>malloc\<close>, which looks at neither the type nor the tag.\<close>

definition user_pool :: "(nat \<Rightarrow> pool_memory \<Rightarrow> nat option) \<Rightarrow> pool_choice" where
  "user_pool malloc PoolType NumberOfBytes Tag k = malloc NumberOfBytes k"

definition pool_allocate :: "pool_choice \<Rightarrow> POOL_TYPE \<Rightarrow> nat \<Rightarrow> u32 \<Rightarrow> pool_memory \<Rightarrow> nat option \<times> pool_memory" where
  "pool_allocate Pool PoolType n Tag k = (case Pool PoolType n Tag k of None \<Rightarrow> (None, k)
     | Some a \<Rightarrow> (Some a, k(a \<mapsto> \<lparr>block_size = n, block_arena = PoolType, block_tag = Tag\<rparr>)))"

definition ExFreePool :: "nat \<Rightarrow> pool_memory \<Rightarrow> pool_memory result" where
  "ExFreePool a k = guardR (k a \<noteq> None) DoubleFree (Inr (k(a := None)))"

definition pool_release :: "nat \<Rightarrow> u32 \<Rightarrow> pool_memory \<Rightarrow> pool_memory result" where
  "pool_release a Tag k = ExFreePool a k"

text \<open>\<open>PAGED_CODE\<close> asserts in a debug build that the level is below \<open>DISPATCH_LEVEL\<close>.\<close>

definition PAGED_CODE :: "bool \<Rightarrow> nat \<Rightarrow> 'a result \<Rightarrow> 'a result" where
  "PAGED_CODE dbg irql r = guardR (dbg \<longrightarrow> irql \<le> 1) AssertFailed r"

section \<open>The operators\<close>

text \<open>The template arguments as the class records them, with the default arenas of the two templates.\<close>

record KALLOCATION_TAG =
  AllocationTag :: u32
  AllocationArena :: POOL_TYPE

definition KALLOCATION_TAG_args :: "u32 \<Rightarrow> POOL_TYPE option \<Rightarrow> KALLOCATION_TAG" where
  "KALLOCATION_TAG_args TAG ARENA =
     \<lparr>AllocationTag = TAG, AllocationArena = (case ARENA of None \<Rightarrow> PagedPool | Some a \<Rightarrow> a)\<rparr>"

definition KALLOCATION_TAG_DPC_ALLOC_args :: "u32 \<Rightarrow> POOL_TYPE option \<Rightarrow> KALLOCATION_TAG" where
  "KALLOCATION_TAG_DPC_ALLOC_args TAG ARENA =
     \<lparr>AllocationTag = TAG, AllocationArena = (case ARENA of None \<Rightarrow> NonPagedPoolNx | Some a \<Rightarrow> a)\<rparr>"

definition KALLOCATOR_new ::
  "KALLOCATION_TAG \<Rightarrow> bool \<Rightarrow> nat \<Rightarrow> pool_choice \<Rightarrow> nat \<Rightarrow> pool_memory \<Rightarrow> (nat option \<times> pool_memory) result" where
  "KALLOCATOR_new C dbg irql Pool cb k =
     PAGED_CODE dbg irql (Inr (pool_allocate Pool (AllocationArena C) cb (AllocationTag C) k))"

definition KALLOCATOR_delete :: "KALLOCATION_TAG \<Rightarrow> bool \<Rightarrow> nat \<Rightarrow> nat option \<Rightarrow> pool_memory \<Rightarrow> pool_memory result" where
  "KALLOCATOR_delete C dbg irql p k = PAGED_CODE dbg irql
     (case p of None \<Rightarrow> Inr k | Some a \<Rightarrow> pool_release a (AllocationTag C) k)"

definition KALLOCATOR_new_extra ::
  "KALLOCATION_TAG \<Rightarrow> bool \<Rightarrow> nat \<Rightarrow> pool_choice \<Rightarrow> u64 \<Rightarrow> u64 \<Rightarrow> pool_memory \<Rightarrow> (nat option \<times> pool_memory) result" where
  "KALLOCATOR_new_extra C dbg irql Pool cb extraBytes k = PAGED_CODE dbg irql
     (let size = cb + extraBytes in
      if size < cb then Inr (None, k)
      else Inr (pool_allocate Pool (AllocationArena C) (unat size) (AllocationTag C) k))"

definition KALLOCATOR_new_array ::
  "KALLOCATION_TAG \<Rightarrow> bool \<Rightarrow> nat \<Rightarrow> pool_choice \<Rightarrow> nat \<Rightarrow> pool_memory \<Rightarrow> (nat option \<times> pool_memory) result" where
  "KALLOCATOR_new_array C dbg irql Pool cb k =
     PAGED_CODE dbg irql (Inr (pool_allocate Pool (AllocationArena C) cb (AllocationTag C) k))"

definition KALLOCATOR_delete_array :: "KALLOCATION_TAG \<Rightarrow> bool \<Rightarrow> nat \<Rightarrow> nat option \<Rightarrow> pool_memory \<Rightarrow> pool_memory result" where
  "KALLOCATOR_delete_array C dbg irql p k = PAGED_CODE dbg irql
     (case p of None \<Rightarrow> Inr k | Some a \<Rightarrow> pool_release a (AllocationTag C) k)"

definition KALLOCATOR_placement_new :: "bool \<Rightarrow> nat \<Rightarrow> nat option \<Rightarrow> nat option result" where
  "KALLOCATOR_placement_new dbg irql p = PAGED_CODE dbg irql (Inr p)"

definition KALLOCATOR_placement_delete :: "bool \<Rightarrow> nat \<Rightarrow> pool_memory \<Rightarrow> pool_memory result" where
  "KALLOCATOR_placement_delete dbg irql k = PAGED_CODE dbg irql (Inr k)"

definition KALLOCATOR_NONPAGED_new :: "KALLOCATION_TAG \<Rightarrow> pool_choice \<Rightarrow> nat \<Rightarrow> pool_memory \<Rightarrow> nat option \<times> pool_memory" where
  "KALLOCATOR_NONPAGED_new C Pool cb k = pool_allocate Pool (AllocationArena C) cb (AllocationTag C) k"

definition KALLOCATOR_NONPAGED_delete :: "KALLOCATION_TAG \<Rightarrow> nat option \<Rightarrow> pool_memory \<Rightarrow> pool_memory result" where
  "KALLOCATOR_NONPAGED_delete C p k = (case p of None \<Rightarrow> Inr k | Some a \<Rightarrow> pool_release a (AllocationTag C) k)"

definition KALLOCATOR_NONPAGED_new_extra ::
  "KALLOCATION_TAG \<Rightarrow> pool_choice \<Rightarrow> u64 \<Rightarrow> u64 \<Rightarrow> pool_memory \<Rightarrow> nat option \<times> pool_memory" where
  "KALLOCATOR_NONPAGED_new_extra C Pool cb extraBytes k =
     (let size = cb + extraBytes in
      if size < cb then (None, k) else pool_allocate Pool (AllocationArena C) (unat size) (AllocationTag C) k)"

definition KALLOCATOR_NONPAGED_new_array :: "KALLOCATION_TAG \<Rightarrow> pool_choice \<Rightarrow> nat \<Rightarrow> pool_memory \<Rightarrow> nat option \<times> pool_memory" where
  "KALLOCATOR_NONPAGED_new_array C Pool cb k = pool_allocate Pool (AllocationArena C) cb (AllocationTag C) k"

definition KALLOCATOR_NONPAGED_delete_array :: "KALLOCATION_TAG \<Rightarrow> nat option \<Rightarrow> pool_memory \<Rightarrow> pool_memory result" where
  "KALLOCATOR_NONPAGED_delete_array C p k = (case p of None \<Rightarrow> Inr k | Some a \<Rightarrow> pool_release a (AllocationTag C) k)"

definition KALLOCATOR_NONPAGED_placement_new :: "nat option \<Rightarrow> nat option" where
  "KALLOCATOR_NONPAGED_placement_new p = p"

definition KALLOCATOR_NONPAGED_placement_delete :: "pool_memory \<Rightarrow> pool_memory" where
  "KALLOCATOR_NONPAGED_placement_delete k = k"

section \<open>Debug blocks\<close>

text \<open>The signature word; release builds have none and check nothing.\<close>

definition DebugBlock_ASSERT_VALID :: "bool \<Rightarrow> u32 \<Rightarrow> u32 \<Rightarrow> unit result" where
  "DebugBlock_ASSERT_VALID dbg SIGNATURE Signature = guardR (dbg \<longrightarrow> Signature = SIGNATURE) AssertFailed (Inr ())"

definition DebugBlock_destructor :: "bool \<Rightarrow> nat \<Rightarrow> u32 \<Rightarrow> u32 \<Rightarrow> u32 result" where
  "DebugBlock_destructor dbg irql SIGNATURE Signature =
     (if dbg then PAGED_CODE dbg irql (bindR (DebugBlock_ASSERT_VALID dbg SIGNATURE Signature) (\<lambda>_. Inr (Signature OR 0x80)))
      else Inr Signature)"

text \<open>
  A class with the bases \<open>KALLOCATOR<TAG, ARENA>\<close> and \<open>DebugBlock<TAG>\<close>. Creating an object allocates
  and sets the signature; a delete expression on a non-null pointer runs the destructor on the object
  and then the operator. \<open>PAGED_OBJECT\<close> and \<open>NONPAGED_OBJECT\<close> differ in the arena.
\<close>

type_synonym objects = "pool_memory \<times> (nat \<Rightarrow> u32)"

definition object_create ::
  "KALLOCATION_TAG \<Rightarrow> bool \<Rightarrow> nat \<Rightarrow> pool_choice \<Rightarrow> nat \<Rightarrow> objects \<Rightarrow> (nat option \<times> objects) result" where
  "object_create C dbg irql Pool cb = (\<lambda>(k, sig).
     bindR (KALLOCATOR_new C dbg irql Pool cb k) (\<lambda>(p, k).
     Inr (p, k, case p of None \<Rightarrow> sig | Some a \<Rightarrow> sig(a := AllocationTag C))))"

definition object_delete :: "KALLOCATION_TAG \<Rightarrow> bool \<Rightarrow> nat \<Rightarrow> nat option \<Rightarrow> objects \<Rightarrow> objects result" where
  "object_delete C dbg irql p = (\<lambda>(k, sig). case p of
      None \<Rightarrow> Inr (k, sig)
    | Some a \<Rightarrow> guardR (k a \<noteq> None) UseAfterFree
        (bindR (DebugBlock_destructor dbg irql (AllocationTag C) (sig a)) (\<lambda>s.
         bindR (KALLOCATOR_delete C dbg irql p k) (\<lambda>k. Inr (k, sig(a := s))))))"

definition PAGED_OBJECT :: "u32 \<Rightarrow> KALLOCATION_TAG" where
  "PAGED_OBJECT TAG = KALLOCATION_TAG_args TAG (Some PagedPool)"

definition NONPAGED_OBJECT :: "u32 \<Rightarrow> KALLOCATION_TAG" where
  "NONPAGED_OBJECT TAG = KALLOCATION_TAG_args TAG (Some NonPagedPoolNx)"

section \<open>Properties\<close>

lemma or_0x80_changes: "\<not> bit (s::u32) 7 \<Longrightarrow> s OR 0x80 \<noteq> s"
proof
  assume "\<not> bit s 7" and e: "s OR 0x80 = s"
  have "bit (s OR 0x80) 7" by (simp add: bit_or_iff)
  then show False using e \<open>\<not> bit s 7\<close> by simp
qed

text \<open>
  \<open>operator new\<close> with extra bytes, paged and not: it asks the pool for exactly the sum of the two sizes, and answers null
  without asking when the sum does not fit the 64 bits of \<open>size_t\<close>; it never hands out a block smaller than
  what was asked for.
\<close>

theorem KALLOCATOR_extra_bytes_exact:
  assumes "irql \<le> 1"
  shows "KALLOCATOR_new_extra C dbg irql Pool cb extraBytes k = Inr (KALLOCATOR_NONPAGED_new_extra C Pool cb extraBytes k) \<and>
    KALLOCATOR_NONPAGED_new_extra C Pool cb extraBytes k =
      (if unat cb + unat extraBytes < 2 ^ 64
       then pool_allocate Pool (AllocationArena C) (unat cb + unat extraBytes) (AllocationTag C) k else (None, k))"
proof -
  have "cb + extraBytes < cb \<longleftrightarrow> 2 ^ 64 \<le> unat cb + unat extraBytes"
  proof (cases "unat cb + unat extraBytes < 2 ^ 64")
    case True
    then have "unat (cb + extraBytes) = unat cb + unat extraBytes" by (simp add: unat_add_bounded)
    then show ?thesis using True by (simp add: word_less_nat_alt)
  next
    case False
    have b: "unat cb < 2 ^ LENGTH(64)" "unat extraBytes < 2 ^ LENGTH(64)" by (rule unsigned_less)+
    have "unat (cb + extraBytes) = (unat cb + unat extraBytes) mod 2 ^ 64" by (simp add: unat_word_ariths)
    also have "\<dots> = unat cb + unat extraBytes - 2 ^ 64"
      using False b by (simp add: mod_if)
    finally show ?thesis using False b by (simp add: word_less_nat_alt)
  qed
  moreover have "unat (cb + extraBytes) = unat cb + unat extraBytes" if "unat cb + unat extraBytes < 2 ^ 64"
    using that by (simp add: unat_add_bounded)
  ultimately show ?thesis using assms
    by (simp add: KALLOCATOR_new_extra_def KALLOCATOR_NONPAGED_new_extra_def PAGED_CODE_def Let_def)
qed

theorem KALLOCATOR_extra_bytes_exact_witness:
  "KALLOCATOR_new_extra (PAGED_OBJECT 9) True 0 (user_pool (\<lambda>n k. Some 7)) 100 28 Map.empty
     = Inr (Some 7, [7 \<mapsto> \<lparr>block_size = 128, block_arena = 1, block_tag = 9\<rparr>]) \<and>
   KALLOCATOR_new_extra (PAGED_OBJECT 9) True 0 (user_pool (\<lambda>n k. Some 7)) 100 (- 50) Map.empty = Inr (None, Map.empty)"
  using KALLOCATOR_extra_bytes_exact [of 0 "PAGED_OBJECT 9" True "user_pool (\<lambda>n k. Some 7)" 100 28 Map.empty]
    KALLOCATOR_extra_bytes_exact [of 0 "PAGED_OBJECT 9" True "user_pool (\<lambda>n k. Some 7)" 100 "- 50" Map.empty]
  by (simp add: pool_allocate_def user_pool_def PAGED_OBJECT_def KALLOCATION_TAG_args_def pool_type_defs)

text \<open>
  Objects of a class with the two bases, created and deleted at low level: a creation gives null and keeps
  memory, or gives a fresh block of the asked size with the tag and the arena of the class, which is the paged
  pool for \<open>PAGED_OBJECT\<close> and the pool that is neither paged nor executable for \<open>NONPAGED_OBJECT\<close>. The delete
  expression gives the block back and leaves memory as it was, and deleting the object again is caught. A debug
  block whose destructor ran does not pass for a valid one when bit 7 of its signature is clear, as it is for a
  tag of ASCII characters.
\<close>

theorem PAGED_OBJECT_lifecycle:
  assumes "irql \<le> 1" and "\<forall>t n g k a. Pool t n g k = Some a \<longrightarrow> k a = None" and "\<not> bit TAG 7"
    and "(C, arena) \<in> {(PAGED_OBJECT TAG, PagedPool), (NONPAGED_OBJECT TAG, NonPagedPoolNx)}"
  shows "(\<exists>sig'. object_create C dbg irql Pool cb (k, sig) = Inr (None, k, sig')) \<or>
    (\<exists>a k' sig' sig''. object_create C dbg irql Pool cb (k, sig) = Inr (Some a, k', sig') \<and> k a = None \<and>
       k' = k(a \<mapsto> \<lparr>block_size = cb, block_arena = arena, block_tag = TAG\<rparr>) \<and>
       object_delete C dbg irql (Some a) (k', sig') = Inr (k, sig'') \<and>
       object_delete C dbg irql (Some a) (k, sig'') = Inl UseAfterFree \<and>
       (dbg \<longrightarrow> DebugBlock_ASSERT_VALID dbg TAG (sig'' a) = Inl AssertFailed))"
proof -
  have C: "AllocationTag C = TAG" "AllocationArena C = arena"
    using assms(4) by (auto simp: PAGED_OBJECT_def NONPAGED_OBJECT_def KALLOCATION_TAG_args_def)
  show ?thesis
  proof (cases "Pool arena cb TAG k")
    case None
    then show ?thesis using assms(1) C
      by (auto simp: object_create_def KALLOCATOR_new_def PAGED_CODE_def pool_allocate_def)
  next
    case (Some a)
    then have a: "k a = None" using assms(2) by blast
    then have "k(a := None) = k" by (simp add: fun_eq_iff)
    then show ?thesis using Some a C assms(1) or_0x80_changes [OF assms(3)]
      by (intro disjI2 exI [of _ a] exI [of _ "k(a \<mapsto> \<lparr>block_size = cb, block_arena = arena, block_tag = TAG\<rparr>)"]
          exI [of _ "sig(a := TAG)"] exI [of _ "sig(a := if dbg then TAG OR 0x80 else TAG)"])
        (auto simp: object_create_def object_delete_def KALLOCATOR_new_def KALLOCATOR_delete_def PAGED_CODE_def pool_allocate_def
          pool_release_def ExFreePool_def DebugBlock_destructor_def DebugBlock_ASSERT_VALID_def)
  qed
qed

definition one_block :: "nat \<Rightarrow> pool_memory \<Rightarrow> nat option" where
  "one_block n k = (if k 5 = None then Some 5 else None)"

theorem PAGED_OBJECT_lifecycle_witness:
  "\<exists>a k' sig' sig''. object_create (NONPAGED_OBJECT 0x7272414B) True 0 (user_pool one_block) 24 (Map.empty, (\<lambda>_. 0)) = Inr (Some a, k', sig') \<and>
     object_delete (NONPAGED_OBJECT 0x7272414B) True 0 (Some a) (k', sig') = Inr (Map.empty, sig'')"
proof -
  let ?C = "NONPAGED_OBJECT 0x7272414B"
  have fresh: "\<forall>t n g k a. user_pool one_block t n g k = Some a \<longrightarrow> k a = None" by (simp add: user_pool_def one_block_def)
  have tag: "\<not> bit (0x7272414B :: u32) 7" by simp
  have C: "(?C, NonPagedPoolNx) \<in> {(PAGED_OBJECT 0x7272414B, PagedPool), (?C, NonPagedPoolNx)}" by simp
  have "object_create ?C True 0 (user_pool one_block) 24 (Map.empty, (\<lambda>_. 0)) \<noteq> Inr (None, k', sig')" for k' sig'
    by (simp add: object_create_def KALLOCATOR_new_def PAGED_CODE_def pool_allocate_def user_pool_def one_block_def)
  then show ?thesis
    using PAGED_OBJECT_lifecycle [OF le0 fresh tag C, of True 24 Map.empty "\<lambda>_. 0"] by blast
qed

end
