(* ===== verification/CxEvent.thy ===== *)
theory CxEvent
  imports CxTime
begin

text \<open>
  The POSIX event of \<open>inc/cxplat_posix.h\<close> (\<open>CXPLAT_EVENT\<close> and its operations) as a concurrent
  machine. Each operation is the sequence of its statements; any number of threads run them, one
  statement at a time, in any order. Mutex and condition variable behave as POSIX describes them: a
  mutex has at most one owner, waiting releases it and takes it again before it returns, a
  broadcast wakes every sleeper, a sleeper may also wake for no reason, and a timed wait may return
  \<open>ETIMEDOUT\<close> only once the clock has reached its deadline. An abstract event with atomic operations
  is the specification; the machine simulates it.
\<close>

section \<open>Events and statements\<close>

record CXPLAT_EVENT =
  Mutex :: "nat option"
  Cond :: "nat set"
  Signaled :: bool
  AutoReset :: bool

text \<open>
  The results of the five \<open>pthread\<close> calls of the initialisation, in the order of the calls, and of
  the two of the clean-up; the object they initialise is free and has no sleepers.
\<close>

definition CxPlatEventInitialize :: "int \<times> int \<times> int \<times> int \<times> int \<Rightarrow> bool \<Rightarrow> bool \<Rightarrow> CXPLAT_EVENT result" where
  "CxPlatEventInitialize Result ManualReset InitialState =
     (case Result of (mutex_init, condattr_init, condattr_setclock, cond_init, condattr_destroy) \<Rightarrow>
        guardR (mutex_init = 0) AssertFailed
        (guardR (condattr_init = 0) AssertFailed
        (guardR (condattr_setclock = 0) AssertFailed
        (guardR (cond_init = 0) AssertFailed
        (guardR (condattr_destroy = 0) AssertFailed
        (Inr \<lparr>Mutex = None, Cond = {}, Signaled = InitialState, AutoReset = (\<not> ManualReset)\<rparr>))))))"

definition CxPlatInternalEventUninitialize :: "int \<times> int \<Rightarrow> CXPLAT_EVENT \<Rightarrow> unit result" where
  "CxPlatInternalEventUninitialize Result Event =
     (case Result of (cond_destroy, mutex_destroy) \<Rightarrow>
        guardR (cond_destroy = 0) AssertFailed (guardR (mutex_destroy = 0) AssertFailed (Inr ())))"

text \<open>The statements of the operations; a jump carries the index of its target.\<close>

datatype statement =
    mutex_lock
  | mutex_unlock
  | cond_broadcast
  | cond_wait
  | cond_timedwait
  | store_Signaled bool
  | while_not_Signaled nat
  | if_AutoReset_clear
  | if_ETIMEDOUT_goto nat
  | store_WaitSatisfied bool
  | goto nat
  | dbg_assert_TimeoutMs
  | GetAbsoluteTime

definition CxPlatInternalEventSet :: "statement list" where
  "CxPlatInternalEventSet = [
     mutex_lock,
     store_Signaled True,
     cond_broadcast,
     mutex_unlock]"

definition CxPlatInternalEventReset :: "statement list" where
  "CxPlatInternalEventReset = [
     mutex_lock,
     store_Signaled False,
     mutex_unlock]"

definition CxPlatInternalEventWaitForever :: "statement list" where
  "CxPlatInternalEventWaitForever = [
     mutex_lock,
     while_not_Signaled 4,
       cond_wait,
       goto 1,
     if_AutoReset_clear,
     mutex_unlock]"

definition CxPlatInternalEventWaitWithTimeout :: "statement list" where
  "CxPlatInternalEventWaitWithTimeout = [
     dbg_assert_TimeoutMs,
     GetAbsoluteTime,
     mutex_lock,
     while_not_Signaled 7,
       cond_timedwait,
       if_ETIMEDOUT_goto 9,
       goto 3,
     if_AutoReset_clear,
     store_WaitSatisfied True,
     mutex_unlock]"

datatype event_call = EventSet | EventReset | EventWaitForever | EventWaitWithTimeout u32

fun statements :: "event_call \<Rightarrow> statement list" where
  "statements EventSet = CxPlatInternalEventSet"
| "statements EventReset = CxPlatInternalEventReset"
| "statements EventWaitForever = CxPlatInternalEventWaitForever"
| "statements (EventWaitWithTimeout ms) = CxPlatInternalEventWaitWithTimeout"

text \<open>The wrapper class \<open>CxPlatEvent\<close>: its constructors and the calls its methods make.\<close>

definition CxPlatEvent_constructor :: "int \<times> int \<times> int \<times> int \<times> int \<Rightarrow> bool option \<Rightarrow> CXPLAT_EVENT result" where
  "CxPlatEvent_constructor Result ManualReset = (case ManualReset of
      None \<Rightarrow> CxPlatEventInitialize Result False False
    | Some b \<Rightarrow> CxPlatEventInitialize Result b False)"

datatype event_method = Event_Set | Event_Reset | Event_WaitForever | Event_WaitTimeout u32

fun CxPlatEvent_method :: "event_method \<Rightarrow> event_call" where
  "CxPlatEvent_method Event_Set = EventSet"
| "CxPlatEvent_method Event_Reset = EventReset"
| "CxPlatEvent_method Event_WaitForever = EventWaitForever"
| "CxPlatEvent_method (Event_WaitTimeout TimeoutMs) = EventWaitWithTimeout TimeoutMs"

section \<open>Threads and the machine\<close>

text \<open>What an operation did to the event, recorded at the statement that did it.\<close>

datatype effect = DidSet | DidReset | DidWait | DidTimeOut

datatype status = Idle | Running nat | Asleep nat | Waking nat | Faulted fault

text \<open>
  A thread with the local variables of the call it is in; \<open>Expired\<close> says that \<open>Result\<close> is
  \<open>ETIMEDOUT\<close>. \<open>called_at\<close> and \<open>did\<close> are recorded for the statements of the theorems only.
\<close>

record thread =
  in_call :: event_call
  status :: status
  Ts :: timespec
  Expired :: bool
  WaitSatisfied :: bool
  called_at :: int
  did :: "effect option"

record machine =
  debug :: bool
  event :: CXPLAT_EVENT
  now :: int
  threads :: "nat \<Rightarrow> thread"
  history :: "effect list"

definition timespec_of :: "int \<Rightarrow> timespec" where
  "timespec_of t = \<lparr>tv_sec = t div 1000000000, tv_nsec = t mod 1000000000\<rparr>"

text \<open>The monotonic clock stays where adding a timeout cannot overflow \<open>time_t\<close>.\<close>

definition horizon :: int where
  "horizon = 2 ^ 62 * 1000000000"

definition put :: "machine \<Rightarrow> nat \<Rightarrow> thread \<Rightarrow> CXPLAT_EVENT \<Rightarrow> machine" where
  "put m t th ev = m\<lparr>threads := (threads m)(t := th), event := ev\<rparr>"

definition acts :: "effect \<Rightarrow> thread \<Rightarrow> machine \<Rightarrow> nat \<Rightarrow> CXPLAT_EVENT \<Rightarrow> machine" where
  "acts e th m t ev = put (m\<lparr>history := history m @ [e]\<rparr>) t (th\<lparr>did := Some e\<rparr>) ev"

definition fail :: "fault \<Rightarrow> thread \<Rightarrow> machine \<Rightarrow> nat \<Rightarrow> machine" where
  "fail f th m t = put m t (th\<lparr>status := Faulted f\<rparr>) (event m)"

definition wake :: "nat set \<Rightarrow> (nat \<Rightarrow> thread) \<Rightarrow> nat \<Rightarrow> thread" where
  "wake sleepers ths t = (if t \<in> sleepers
     then (case status (ths t) of Asleep pc \<Rightarrow> (ths t)\<lparr>status := Waking pc, Expired := False\<rparr> | _ \<Rightarrow> ths t)
     else ths t)"

text \<open>
  One statement of thread \<open>t\<close> at position \<open>pc\<close>; \<open>None\<close> when it blocks. Access to the shared flag
  without the mutex is a data race; a \<open>pthread\<close> call that would not return zero fails its assertion.
\<close>

fun run :: "statement \<Rightarrow> nat \<Rightarrow> nat \<Rightarrow> machine \<Rightarrow> machine option" where
  "run mutex_lock t pc m = (let th = threads m t; ev = event m in
     if Mutex ev = None then Some (put m t (th\<lparr>status := Running (Suc pc)\<rparr>) (ev\<lparr>Mutex := Some t\<rparr>)) else None)"
| "run mutex_unlock t pc m = (let th = threads m t; ev = event m in
     if Mutex ev = Some t then Some (put m t (th\<lparr>status := Running (Suc pc)\<rparr>) (ev\<lparr>Mutex := None\<rparr>))
     else Some (fail AssertFailed th m t))"
| "run cond_broadcast t pc m = (let th = threads m t; ev = event m in
     Some (put (m\<lparr>threads := wake (Cond ev) (threads m)\<rparr>) t (th\<lparr>status := Running (Suc pc)\<rparr>) (ev\<lparr>Cond := {}\<rparr>)))"
| "run cond_wait t pc m = (let th = threads m t; ev = event m in
     if Mutex ev = Some t
     then Some (put m t (th\<lparr>status := Asleep pc\<rparr>) (ev\<lparr>Mutex := None, Cond := insert t (Cond ev)\<rparr>))
     else Some (fail AssertFailed th m t))"
| "run cond_timedwait t pc m = (let th = threads m t; ev = event m in
     if Mutex ev = Some t
     then Some (put m t (th\<lparr>status := Asleep pc\<rparr>) (ev\<lparr>Mutex := None, Cond := insert t (Cond ev)\<rparr>))
     else Some (fail AssertFailed th m t))"
| "run (store_Signaled b) t pc m = (let th = threads m t; ev = event m in
     if Mutex ev = Some t
     then Some (acts (if b then DidSet else DidReset) (th\<lparr>status := Running (Suc pc)\<rparr>) m t (ev\<lparr>Signaled := b\<rparr>))
     else Some (fail DataRace th m t))"
| "run (while_not_Signaled k) t pc m = (let th = threads m t; ev = event m in
     if Mutex ev = Some t
     then Some (put m t (th\<lparr>status := Running (if \<not> Signaled ev then Suc pc else k)\<rparr>) ev)
     else Some (fail DataRace th m t))"
| "run if_AutoReset_clear t pc m = (let th = threads m t; ev = event m in
     if Mutex ev = Some t
     then Some (acts DidWait (th\<lparr>status := Running (Suc pc)\<rparr>) m t
                 (if AutoReset ev then ev\<lparr>Signaled := False\<rparr> else ev))
     else Some (fail DataRace th m t))"
| "run (if_ETIMEDOUT_goto k) t pc m = (let th = threads m t; ev = event m in
     if Expired th then Some (acts DidTimeOut (th\<lparr>status := Running k, WaitSatisfied := False\<rparr>) m t ev)
     else Some (put m t (th\<lparr>status := Running (Suc pc)\<rparr>) ev))"
| "run (store_WaitSatisfied b) t pc m = (let th = threads m t; ev = event m in
     Some (put m t (th\<lparr>status := Running (Suc pc), WaitSatisfied := b\<rparr>) ev))"
| "run (goto k) t pc m = (let th = threads m t in Some (put m t (th\<lparr>status := Running k\<rparr>) (event m)))"
| "run dbg_assert_TimeoutMs t pc m = (let th = threads m t in
     if debug m \<and> in_call th = EventWaitWithTimeout (-1) then Some (fail AssertFailed th m t)
     else Some (put m t (th\<lparr>status := Running (Suc pc)\<rparr>) (event m)))"
| "run GetAbsoluteTime t pc m = (let th = threads m t in
     case in_call th of
       EventWaitWithTimeout TimeoutMs \<Rightarrow>
         (case posix_CxPlatGetAbsoluteTime (debug m) (0, timespec_of (now m)) (ucast TimeoutMs) of
            Inl f \<Rightarrow> Some (fail f th m t)
          | Inr ts \<Rightarrow> Some (put m t (th\<lparr>status := Running (Suc pc), Ts := ts\<rparr>) (event m)))
     | _ \<Rightarrow> Some (put m t (th\<lparr>status := Running (Suc pc)\<rparr>) (event m)))"

definition enter :: "event_call \<Rightarrow> int \<Rightarrow> thread" where
  "enter c t = \<lparr>in_call = c, status = Running 0, Ts = \<lparr>tv_sec = 0, tv_nsec = 0\<rparr>, Expired = False,
     WaitSatisfied = False, called_at = t, did = None\<rparr>"

text \<open>The documented contract of the timed wait: \<open>UINT32_MAX\<close> is not a timeout.\<close>

definition valid_call :: "event_call \<Rightarrow> bool" where
  "valid_call c \<longleftrightarrow> c \<noteq> EventWaitWithTimeout (-1)"

inductive event_step :: "machine \<Rightarrow> machine \<Rightarrow> bool" where
  call: "status (threads m t) = Idle \<Longrightarrow> valid_call c \<Longrightarrow>
    event_step m (put m t (enter c (now m)) (event m))"
| statement: "status (threads m t) = Running pc \<Longrightarrow> pc < length (statements (in_call (threads m t))) \<Longrightarrow>
    run (statements (in_call (threads m t)) ! pc) t pc m = Some m' \<Longrightarrow> event_step m m'"
| spurious: "status (threads m t) = Asleep pc \<Longrightarrow>
    event_step m (put m t ((threads m t)\<lparr>status := Waking pc, Expired := False\<rparr>)
      ((event m)\<lparr>Cond := Cond (event m) - {t}\<rparr>))"
| expire: "status (threads m t) = Asleep pc \<Longrightarrow> statements (in_call (threads m t)) ! pc = cond_timedwait \<Longrightarrow>
    timespec_ns (Ts (threads m t)) \<le> now m \<Longrightarrow>
    event_step m (put m t ((threads m t)\<lparr>status := Waking pc, Expired := True\<rparr>)
      ((event m)\<lparr>Cond := Cond (event m) - {t}\<rparr>))"
| reacquire: "status (threads m t) = Waking pc \<Longrightarrow> Mutex (event m) = None \<Longrightarrow>
    event_step m (put m t ((threads m t)\<lparr>status := Running (Suc pc)\<rparr>) ((event m)\<lparr>Mutex := Some t\<rparr>))"
| return: "status (threads m t) = Running pc \<Longrightarrow> pc = length (statements (in_call (threads m t))) \<Longrightarrow>
    event_step m (put m t ((threads m t)\<lparr>status := Idle\<rparr>) (event m))"
| tick: "now m \<le> t' \<Longrightarrow> t' \<le> horizon \<Longrightarrow> event_step m (m\<lparr>now := t'\<rparr>)"

inductive_cases event_stepE: "event_step m m'"

text \<open>A machine starts with an initialised event and no call in progress. A signaled initial state counts as one set.\<close>

definition event_start :: "machine \<Rightarrow> bool" where
  "event_start m \<longleftrightarrow> (\<exists>ManualReset InitialState.
     CxPlatEventInitialize (0, 0, 0, 0, 0) ManualReset InitialState = Inr (event m) \<and>
     history m = (if InitialState then [DidSet] else [])) \<and>
     (\<forall>t. status (threads m t) = Idle) \<and> 0 \<le> now m \<and> now m \<le> horizon"

section \<open>The invariant\<close>

text \<open>Where a thread owns the mutex, and where it waits on the condition.\<close>

fun locked_at :: "event_call \<Rightarrow> nat \<Rightarrow> bool" where
  "locked_at EventSet pc \<longleftrightarrow> 1 \<le> pc \<and> pc \<le> 3"
| "locked_at EventReset pc \<longleftrightarrow> 1 \<le> pc \<and> pc \<le> 2"
| "locked_at EventWaitForever pc \<longleftrightarrow> 1 \<le> pc \<and> pc \<le> 5"
| "locked_at (EventWaitWithTimeout ms) pc \<longleftrightarrow> 3 \<le> pc \<and> pc \<le> 9"

fun waits_at :: "event_call \<Rightarrow> nat \<Rightarrow> bool" where
  "waits_at EventWaitForever pc \<longleftrightarrow> pc = 2"
| "waits_at (EventWaitWithTimeout ms) pc \<longleftrightarrow> pc = 4"
| "waits_at c pc \<longleftrightarrow> False"

text \<open>Where the flag has been seen to be set and not yet been consumed.\<close>

fun sees_at :: "event_call \<Rightarrow> nat \<Rightarrow> bool" where
  "sees_at EventWaitForever pc \<longleftrightarrow> pc = 4"
| "sees_at (EventWaitWithTimeout ms) pc \<longleftrightarrow> pc = 7"
| "sees_at c pc \<longleftrightarrow> False"

text \<open>The point at which a timed wait may give up.\<close>

definition due :: "thread \<Rightarrow> u32 \<Rightarrow> int" where
  "due th ms = called_at th + uint ms * 1000000"

lemma due_simps [simp]:
  "due (th\<lparr>status := s\<rparr>) ms = due th ms" "due (th\<lparr>Ts := ts\<rparr>) ms = due th ms"
  "due (th\<lparr>Expired := e\<rparr>) ms = due th ms" "due (th\<lparr>WaitSatisfied := w\<rparr>) ms = due th ms"
  "due (th\<lparr>did := d\<rparr>) ms = due th ms"
  by (simp_all add: due_def)

text \<open>What the thread has done to the event so far, and what a timed wait knows about time.\<close>

fun did_ok :: "event_call \<Rightarrow> nat \<Rightarrow> int \<Rightarrow> thread \<Rightarrow> bool" where
  "did_ok EventSet pc n th \<longleftrightarrow> did th = (if 2 \<le> pc then Some DidSet else None)"
| "did_ok EventReset pc n th \<longleftrightarrow> did th = (if 2 \<le> pc then Some DidReset else None)"
| "did_ok EventWaitForever pc n th \<longleftrightarrow> did th = (if 5 \<le> pc then Some DidWait else None)"
| "did_ok (EventWaitWithTimeout ms) pc n th \<longleftrightarrow>
     (if pc \<le> 7 then did th = None
      else if pc = 8 then did th = Some DidWait
      else if WaitSatisfied th then did th = Some DidWait
      else did th = Some DidTimeOut \<and> due th ms \<le> n) \<and>
     (2 \<le> pc \<longrightarrow> due th ms \<le> timespec_ns (Ts th)) \<and>
     (pc = 5 \<longrightarrow> Expired th \<longrightarrow> due th ms \<le> n)"

definition thread_ok :: "CXPLAT_EVENT \<Rightarrow> int \<Rightarrow> nat \<Rightarrow> thread \<Rightarrow> bool" where
  "thread_ok ev n t th \<longleftrightarrow> (status th = Idle \<or> called_at th \<le> n) \<and>
     (case status th of
       Idle \<Rightarrow> Mutex ev \<noteq> Some t \<and> t \<notin> Cond ev
     | Running pc \<Rightarrow> valid_call (in_call th) \<and> pc \<le> length (statements (in_call th)) \<and>
         (Mutex ev = Some t \<longleftrightarrow> locked_at (in_call th) pc) \<and> t \<notin> Cond ev \<and>
         (sees_at (in_call th) pc \<longrightarrow> Signaled ev) \<and> (waits_at (in_call th) pc \<longrightarrow> \<not> Signaled ev) \<and>
         did_ok (in_call th) pc n th
     | Asleep pc \<Rightarrow> valid_call (in_call th) \<and> Mutex ev \<noteq> Some t \<and> t \<in> Cond ev \<and> waits_at (in_call th) pc \<and>
         did_ok (in_call th) pc n th
     | Waking pc \<Rightarrow> valid_call (in_call th) \<and> Mutex ev \<noteq> Some t \<and> t \<notin> Cond ev \<and> waits_at (in_call th) pc \<and>
         did_ok (in_call th) pc n th \<and> did_ok (in_call th) (Suc pc) n th
     | Faulted f \<Rightarrow> False)"

text \<open>While the flag is set nobody sleeps, except until the setter that owns the mutex has broadcast.\<close>

definition wakes_ok :: "CXPLAT_EVENT \<Rightarrow> (nat \<Rightarrow> thread) \<Rightarrow> bool" where
  "wakes_ok ev ths \<longleftrightarrow> (Signaled ev \<and> Cond ev \<noteq> {} \<longrightarrow>
     (\<exists>t. Mutex ev = Some t \<and> in_call (ths t) = EventSet \<and> status (ths t) = Running 2))"

definition event_inv :: "machine \<Rightarrow> bool" where
  "event_inv m \<longleftrightarrow> (\<forall>t. thread_ok (event m) (now m) t (threads m t)) \<and> wakes_ok (event m) (threads m) \<and>
     0 \<le> now m \<and> now m \<le> horizon"

lemmas statement_lists = CxPlatInternalEventSet_def CxPlatInternalEventReset_def
  CxPlatInternalEventWaitForever_def CxPlatInternalEventWaitWithTimeout_def

lemma did_ok_later: "did_ok c pc n th \<Longrightarrow> n \<le> n' \<Longrightarrow> did_ok c pc n' th"
  by (cases c) (auto split: if_splits)

lemma sees_locked: "sees_at c pc \<Longrightarrow> locked_at c pc"
  by (cases c) simp_all

lemma waits_locked: "waits_at c pc \<Longrightarrow> locked_at c pc"
  by (cases c) simp_all

text \<open>Steps of other threads do not disturb a thread.\<close>

lemma thread_ok_other:
  assumes "thread_ok ev n t th" and "Mutex ev' = Some t \<longleftrightarrow> Mutex ev = Some t"
    and "t \<in> Cond ev' \<longleftrightarrow> t \<in> Cond ev" and "Mutex ev = Some t \<Longrightarrow> Signaled ev' = Signaled ev" and "n \<le> n'"
  shows "thread_ok ev' n' t th"
  using assms by (auto simp: thread_ok_def sees_locked waits_locked split: status.splits intro: did_ok_later)

lemma event_inv_put:
  assumes "event_inv m" and "thread_ok ev' (now m) t th" and "wakes_ok ev' ((threads m)(t := th))"
    and "\<And>t'. t' \<noteq> t \<Longrightarrow> Mutex ev' = Some t' \<longleftrightarrow> Mutex (event m) = Some t'"
    and "\<And>t'. t' \<noteq> t \<Longrightarrow> t' \<in> Cond ev' \<longleftrightarrow> t' \<in> Cond (event m)"
    and "\<And>t'. t' \<noteq> t \<Longrightarrow> Mutex (event m) = Some t' \<Longrightarrow> Signaled ev' = Signaled (event m)"
  shows "event_inv (put m t th ev')"
proof -
  have "thread_ok ev' (now m) t' (((threads m)(t := th)) t')" for t'
    using assms(1,2) thread_ok_other [of "event m" "now m" t' "threads m t'" ev' "now m"] assms(4-6)
    by (cases "t' = t") (auto simp: event_inv_def)
  then show ?thesis using assms(1,3) by (simp add: event_inv_def put_def)
qed

text \<open>Another thread's move keeps the wake-up clause as long as the setter at its broadcast is not the mover.\<close>

lemma wakes_ok_move:
  assumes "wakes_ok ev ths" and "Signaled ev' \<Longrightarrow> Cond ev' \<noteq> {} \<Longrightarrow> Signaled ev \<and> Cond ev \<noteq> {} \<and> Mutex ev' = Mutex ev"
    and "\<not> (in_call (ths t) = EventSet \<and> status (ths t) = Running 2 \<and> Mutex ev = Some t)"
  shows "wakes_ok ev' (ths(t := th))"
proof (unfold wakes_ok_def, intro impI)
  assume "Signaled ev' \<and> Cond ev' \<noteq> {}"
  with assms(2) have "Signaled ev" "Cond ev \<noteq> {}" "Mutex ev' = Mutex ev" by blast+
  with assms(1) obtain u where "Mutex ev = Some u" "in_call (ths u) = EventSet" "status (ths u) = Running 2"
    by (auto simp: wakes_ok_def)
  then show "\<exists>t'. Mutex ev' = Some t' \<and> in_call ((ths(t := th)) t') = EventSet \<and> status ((ths(t := th)) t') = Running 2"
    using assms(3) \<open>Mutex ev' = Mutex ev\<close> by (intro exI [of _ u]) auto
qed

lemma inv_thread: "event_inv m \<Longrightarrow> thread_ok (event m) (now m) t (threads m t)"
  by (simp add: event_inv_def)

lemma inv_wakes: "event_inv m \<Longrightarrow> wakes_ok (event m) (threads m)"
  by (simp add: event_inv_def)

lemma call_inv:
  assumes "event_inv m" and "status (threads m t) = Idle" and "valid_call c"
  shows "event_inv (put m t (enter c (now m)) (event m))"
proof (rule event_inv_put [OF assms(1)])
  show "thread_ok (event m) (now m) t (enter c (now m))"
    using inv_thread [OF assms(1), of t] assms(2,3)
    by (cases c) (auto simp: thread_ok_def enter_def statement_lists)
  show "wakes_ok (event m) ((threads m)(t := enter c (now m)))"
    using assms(2) by (intro wakes_ok_move [OF inv_wakes [OF assms(1)]]) auto
qed simp_all

lemma return_inv:
  assumes "event_inv m" and "status (threads m t) = Running (length (statements (in_call (threads m t))))"
  shows "event_inv (put m t ((threads m t)\<lparr>status := Idle\<rparr>) (event m))"
proof (rule event_inv_put [OF assms(1)])
  show "thread_ok (event m) (now m) t ((threads m t)\<lparr>status := Idle\<rparr>)"
    using inv_thread [OF assms(1), of t] assms(2)
    by (cases "in_call (threads m t)") (auto simp: thread_ok_def statement_lists)
  show "wakes_ok (event m) ((threads m)(t := (threads m t)\<lparr>status := Idle\<rparr>))"
    using assms(2) by (intro wakes_ok_move [OF inv_wakes [OF assms(1)]]) (auto simp: statement_lists)
qed simp_all

lemma waking_inv:
  assumes "event_inv m" and "status (threads m t) = Asleep pc"
    and "e \<longrightarrow> statements (in_call (threads m t)) ! pc = cond_timedwait \<and> timespec_ns (Ts (threads m t)) \<le> now m"
  shows "event_inv (put m t ((threads m t)\<lparr>status := Waking pc, Expired := e\<rparr>)
      ((event m)\<lparr>Cond := Cond (event m) - {t}\<rparr>))"
proof (rule event_inv_put [OF assms(1)])
  show "thread_ok ((event m)\<lparr>Cond := Cond (event m) - {t}\<rparr>) (now m) t
      ((threads m t)\<lparr>status := Waking pc, Expired := e\<rparr>)"
    using inv_thread [OF assms(1), of t] assms(2,3)
    by (cases "in_call (threads m t)") (auto simp: thread_ok_def statement_lists)
  show "wakes_ok ((event m)\<lparr>Cond := Cond (event m) - {t}\<rparr>)
      ((threads m)(t := (threads m t)\<lparr>status := Waking pc, Expired := e\<rparr>))"
    using assms(2) by (intro wakes_ok_move [OF inv_wakes [OF assms(1)]]) auto
qed auto

lemma reacquire_inv:
  assumes "event_inv m" and "status (threads m t) = Waking pc" and "Mutex (event m) = None"
  shows "event_inv (put m t ((threads m t)\<lparr>status := Running (Suc pc)\<rparr>) ((event m)\<lparr>Mutex := Some t\<rparr>))"
proof (rule event_inv_put [OF assms(1)])
  show "thread_ok ((event m)\<lparr>Mutex := Some t\<rparr>) (now m) t ((threads m t)\<lparr>status := Running (Suc pc)\<rparr>)"
    using inv_thread [OF assms(1), of t] assms(2,3)
    by (cases "in_call (threads m t)") (auto simp: thread_ok_def statement_lists)
  have "\<not> (Signaled (event m) \<and> Cond (event m) \<noteq> {})"
    using inv_wakes [OF assms(1)] assms(3) by (auto simp: wakes_ok_def)
  then show "wakes_ok ((event m)\<lparr>Mutex := Some t\<rparr>) ((threads m)(t := (threads m t)\<lparr>status := Running (Suc pc)\<rparr>))"
    by (auto simp: wakes_ok_def)
qed (use assms in auto)

lemma tick_inv: "event_inv m \<Longrightarrow> now m \<le> n \<Longrightarrow> n \<le> horizon \<Longrightarrow> event_inv (m\<lparr>now := n\<rparr>)"
  by (auto simp: event_inv_def intro: thread_ok_other)

lemma horizon_seconds: "n \<le> horizon \<Longrightarrow> n div 1000000000 \<le> 2 ^ 62"
proof -
  assume "n \<le> horizon"
  then have "n div 1000000000 \<le> horizon div 1000000000" by (intro zdiv_mono1) simp_all
  then show ?thesis unfolding horizon_def by (simp only: nonzero_mult_div_cancel_right numeral_neq_zero simp_thms)
qed

lemma timespec_of_valid: "0 \<le> n \<Longrightarrow> timespec_valid (timespec_of n)"
  by (simp add: timespec_valid_def timespec_of_def pos_imp_zdiv_nonneg_iff)

lemma timespec_of_ns: "timespec_ns (timespec_of n) = n"
  by (simp add: timespec_ns_def timespec_of_def)

lemma deadline_ok:
  assumes "0 \<le> n" and "n \<le> horizon"
  shows "\<exists>ts. posix_CxPlatGetAbsoluteTime dbg (0, timespec_of n) (ucast (ms::u32)) = Inr ts \<and>
    timespec_ns ts = n + uint ms * 1000000"
proof -
  have u: "uint (ucast ms :: u64) = uint ms" by (rule uint_up_ucast) (simp add: is_up)
  have "uint ms div 1000 \<le> uint ms" using zdiv_mono2 [of "uint ms" 1 1000] by simp
  then have "uint ((ucast ms :: u64) div 1000) \<le> uint ms" unfolding uint_div u by simp
  moreover have "uint ms < 2 ^ 32" using uint_bounded [of ms] by simp
  moreover have "tv_sec (timespec_of n) \<le> 2 ^ 62" using horizon_seconds [OF assms(2)] by (simp add: timespec_of_def)
  moreover have "(2::int) ^ 32 + 2 ^ 62 < 2 ^ 63" by simp
  ultimately have "tv_sec (timespec_of n) + uint ((ucast ms :: u64) div 1000) + 1 < 2 ^ 63" by linarith
  from GetAbsoluteTime_spec [OF timespec_of_valid [OF assms(1)] this, of dbg] show ?thesis
    unfolding timespec_of_ns u by blast
qed

lemma event_inv_history [simp]: "event_inv (m\<lparr>history := h\<rparr>) = event_inv m"
  by (simp add: event_inv_def)

lemma did_ok_status [simp]: "did_ok c pc n (th\<lparr>status := s\<rparr>) = did_ok c pc n th"
  by (cases c) simp_all

text \<open>The thread at a statement, with what the invariant says of it.\<close>

definition at :: "machine \<Rightarrow> nat \<Rightarrow> event_call \<Rightarrow> nat \<Rightarrow> bool" where
  "at m t c pc \<longleftrightarrow> event_inv m \<and> in_call (threads m t) = c \<and> status (threads m t) = Running pc"

lemma at_thread:
  assumes "at m t c pc"
  shows "thread_ok (event m) (now m) t (threads m t)" "in_call (threads m t) = c" "status (threads m t) = Running pc"
    "wakes_ok (event m) (threads m)" "Mutex (event m) = Some t \<longleftrightarrow> locked_at c pc" "t \<notin> Cond (event m)"
    "sees_at c pc \<Longrightarrow> Signaled (event m)" "waits_at c pc \<Longrightarrow> \<not> Signaled (event m)" "did_ok c pc (now m) (threads m t)" "valid_call c" "called_at (threads m t) \<le> now m"
  using assms inv_thread [of m t] inv_wakes [of m] by (auto simp: at_def thread_ok_def)

text \<open>A statement that leaves the event alone and moves the thread on.\<close>

lemma move_inv:
  assumes "at m t c pc" and "in_call th = c" and "status th = Running pc'" and "called_at th = called_at (threads m t)"
    and "pc' \<le> length (statements c)" and "locked_at c pc' = locked_at c pc" and "sees_at c pc' \<Longrightarrow> Signaled (event m)"
    and "waits_at c pc' \<Longrightarrow> \<not> Signaled (event m)" and "did_ok c pc' (now m) th" and "\<not> (c = EventSet \<and> pc = 2)"
  shows "event_inv (put m t th (event m))"
proof (rule event_inv_put)
  show "event_inv m" using assms(1) by (simp add: at_def)
  show "thread_ok (event m) (now m) t th"
    using assms at_thread [OF assms(1)] by (simp add: thread_ok_def)
  show "wakes_ok (event m) ((threads m)(t := th))"
    using assms(10) at_thread [OF assms(1)] by (intro wakes_ok_move) auto
qed simp_all

lemma lock_inv:
  assumes "at m t c pc" and "Mutex (event m) = None" and "Suc pc \<le> length (statements c)"
    and "locked_at c (Suc pc)" and "\<not> sees_at c (Suc pc)" and "\<not> waits_at c (Suc pc)"
    and "did_ok c (Suc pc) (now m) (threads m t)"
  shows "event_inv (put m t ((threads m t)\<lparr>status := Running (Suc pc)\<rparr>) ((event m)\<lparr>Mutex := Some t\<rparr>))"
proof (rule event_inv_put)
  show "event_inv m" using assms(1) by (simp add: at_def)
  show "thread_ok ((event m)\<lparr>Mutex := Some t\<rparr>) (now m) t ((threads m t)\<lparr>status := Running (Suc pc)\<rparr>)"
    using assms at_thread [OF assms(1)] by (simp add: thread_ok_def)
  have "\<not> (Signaled (event m) \<and> Cond (event m) \<noteq> {})"
    using at_thread [OF assms(1)] assms(2) by (auto simp: wakes_ok_def)
  then show "wakes_ok ((event m)\<lparr>Mutex := Some t\<rparr>) ((threads m)(t := (threads m t)\<lparr>status := Running (Suc pc)\<rparr>))"
    by (auto simp: wakes_ok_def)
qed (use assms(2) in simp_all)

text \<open>A statement run by the owner of the mutex that changes the event: nobody else notices.\<close>

lemma owner_inv:
  assumes "at m t c pc" and own: "locked_at c pc"
    and "thread_ok ev' (now m) t th" and "wakes_ok ev' ((threads m)(t := th))"
    and "Mutex ev' = Some t \<or> Mutex ev' = None" and "Cond ev' - {t} = Cond (event m) - {t}"
  shows "event_inv (put m t th ev')"
proof (rule event_inv_put)
  show "event_inv m" using assms(1) by (simp add: at_def)
  show "Mutex ev' = Some t' \<longleftrightarrow> Mutex (event m) = Some t'" if "t' \<noteq> t" for t'
    using that own assms(5) at_thread(5) [OF assms(1)] by auto
  show "t' \<in> Cond ev' \<longleftrightarrow> t' \<in> Cond (event m)" if "t' \<noteq> t" for t' using that assms(6) by auto
  show "Signaled ev' = Signaled (event m)" if "t' \<noteq> t" "Mutex (event m) = Some t'" for t'
    using that own at_thread(5) [OF assms(1)] by auto
qed (use assms in simp_all)

lemma owner_no_sleepers:
  assumes "at m t c pc" and "locked_at c pc" and "\<not> (c = EventSet \<and> pc = 2)"
  shows "Signaled (event m) \<Longrightarrow> Cond (event m) = {}"
proof (rule ccontr)
  assume "Signaled (event m)" and "Cond (event m) \<noteq> {}"
  then obtain t' where t': "Mutex (event m) = Some t'" "in_call (threads m t') = EventSet" "status (threads m t') = Running 2"
    using at_thread(4) [OF assms(1)] by (auto simp: wakes_ok_def)
  moreover have "t' = t" using t'(1) at_thread(5) [OF assms(1)] assms(2) by simp
  ultimately show False using assms(3) at_thread(2,3) [OF assms(1)] by simp
qed

lemma unlock_inv:
  assumes "at m t c pc" and "locked_at c pc" and "\<not> locked_at c (Suc pc)" and "Suc pc \<le> length (statements c)"
    and "did_ok c (Suc pc) (now m) (threads m t)" and "\<not> (c = EventSet \<and> pc = 2)"
  shows "event_inv (put m t ((threads m t)\<lparr>status := Running (Suc pc)\<rparr>) ((event m)\<lparr>Mutex := None\<rparr>))"
proof (rule owner_inv [OF assms(1,2)])
  show "thread_ok ((event m)\<lparr>Mutex := None\<rparr>) (now m) t ((threads m t)\<lparr>status := Running (Suc pc)\<rparr>)"
    using assms at_thread [OF assms(1)] sees_locked [of c "Suc pc"] waits_locked [of c "Suc pc"]
    by (simp add: thread_ok_def) blast
  show "wakes_ok ((event m)\<lparr>Mutex := None\<rparr>) ((threads m)(t := (threads m t)\<lparr>status := Running (Suc pc)\<rparr>))"
    using owner_no_sleepers [OF assms(1,2,6)] by (auto simp: wakes_ok_def)
qed simp_all

lemma sleep_inv:
  assumes "at m t c pc" and "waits_at c pc"
  shows "event_inv (put m t ((threads m t)\<lparr>status := Asleep pc\<rparr>) ((event m)\<lparr>Mutex := None, Cond := insert t (Cond (event m))\<rparr>))"
proof (rule owner_inv [OF assms(1) waits_locked [OF assms(2)]])
  show "thread_ok ((event m)\<lparr>Mutex := None, Cond := insert t (Cond (event m))\<rparr>) (now m) t ((threads m t)\<lparr>status := Asleep pc\<rparr>)"
    using assms at_thread [OF assms(1)] by (simp add: thread_ok_def)
  show "wakes_ok ((event m)\<lparr>Mutex := None, Cond := insert t (Cond (event m))\<rparr>)
      ((threads m)(t := (threads m t)\<lparr>status := Asleep pc\<rparr>))"
    using at_thread(8) [OF assms] by (simp add: wakes_ok_def)
qed auto

text \<open>The statements that act on the flag; \<open>history\<close> grows with them.\<close>

lemma at_history [simp]: "at (m\<lparr>history := h\<rparr>) t c pc = at m t c pc"
  by (simp add: at_def)

lemma store_inv:
  assumes "at m t c pc" and "(c, pc, b) \<in> {(EventSet, 1, True), (EventReset, 1, False)}"
  shows "event_inv (acts (if b then DidSet else DidReset) ((threads m t)\<lparr>status := Running (Suc pc)\<rparr>) m t
    ((event m)\<lparr>Signaled := b\<rparr>))"
  unfolding acts_def
proof (rule owner_inv)
  show "at (m\<lparr>history := history m @ [if b then DidSet else DidReset]\<rparr>) t c pc" using assms(1) by simp
  show "locked_at c pc" using assms(2) by auto
qed (use assms(2) at_thread [OF assms(1)] in
  \<open>auto simp: thread_ok_def wakes_ok_def statement_lists numeral_2_eq_2\<close>)

lemma consume_inv:
  assumes "at m t c pc" and "sees_at c pc"
  shows "event_inv (acts DidWait ((threads m t)\<lparr>status := Running (Suc pc)\<rparr>) m t
    (if AutoReset (event m) then (event m)\<lparr>Signaled := False\<rparr> else event m))"
  unfolding acts_def
proof (rule owner_inv)
  show "at (m\<lparr>history := history m @ [DidWait]\<rparr>) t c pc" using assms(1) by simp
  show "locked_at c pc" using assms(2) by (rule sees_locked)
  have "\<not> (c = EventSet \<and> pc = 2)" using assms(2) by auto
  then show "wakes_ok (if AutoReset (event m) then (event m)\<lparr>Signaled := False\<rparr> else event m)
     ((threads (m\<lparr>history := history m @ [DidWait]\<rparr>))
      (t := (threads m t)\<lparr>status := Running (Suc pc)\<rparr>\<lparr>did := Some DidWait\<rparr>))"
    using owner_no_sleepers [OF assms(1) sees_locked [OF assms(2)]] by (auto simp: wakes_ok_def)
  show "thread_ok (if AutoReset (event m) then (event m)\<lparr>Signaled := False\<rparr> else event m)
     (now (m\<lparr>history := history m @ [DidWait]\<rparr>)) t ((threads m t)\<lparr>status := Running (Suc pc)\<rparr>\<lparr>did := Some DidWait\<rparr>)"
    using assms(2) at_thread [OF assms(1)]
    by (cases c) (simp_all add: thread_ok_def statement_lists)
qed (use at_thread [OF assms(1)] sees_locked [OF assms(2)] in simp_all)

lemma timed_out_inv:
  assumes "at m t (EventWaitWithTimeout ms) 5" and "Expired (threads m t)"
  shows "event_inv (acts DidTimeOut ((threads m t)\<lparr>status := Running 9, WaitSatisfied := False\<rparr>) m t (event m))"
  unfolding acts_def
proof (rule owner_inv)
  show "at (m\<lparr>history := history m @ [DidTimeOut]\<rparr>) t (EventWaitWithTimeout ms) 5" using assms(1) by simp
  show "wakes_ok (event m) ((threads (m\<lparr>history := history m @ [DidTimeOut]\<rparr>))
      (t := (threads m t)\<lparr>status := Running 9, WaitSatisfied := False\<rparr>\<lparr>did := Some DidTimeOut\<rparr>))"
    using owner_no_sleepers [OF assms(1)] by (auto simp: wakes_ok_def)
  show "thread_ok (event m) (now (m\<lparr>history := history m @ [DidTimeOut]\<rparr>)) t
      ((threads m t)\<lparr>status := Running 9, WaitSatisfied := False\<rparr>\<lparr>did := Some DidTimeOut\<rparr>)"
    using assms(2) at_thread [OF assms(1)] by (simp add: thread_ok_def statement_lists)
qed (use at_thread [OF assms(1)] in simp_all)

lemma broadcast_inv:
  assumes at: "at m t EventSet 2"
  shows "event_inv (put (m\<lparr>threads := wake (Cond (event m)) (threads m)\<rparr>) t ((threads m t)\<lparr>status := Running 3\<rparr>)
    ((event m)\<lparr>Cond := {}\<rparr>))"
proof -
  let ?ev = "(event m)\<lparr>Cond := {}\<rparr>"
  have inv: "event_inv m" using at by (simp add: at_def)
  have others: "thread_ok ?ev (now m) t' (wake (Cond (event m)) (threads m) t')" if "t' \<noteq> t" for t'
  proof (cases "t' \<in> Cond (event m)")
    case True
    then obtain pc where "status (threads m t') = Asleep pc"
      using inv_thread [OF inv, of t'] by (auto simp: thread_ok_def split: status.splits)
    then show ?thesis
      using inv_thread [OF inv, of t'] True
      by (cases "in_call (threads m t')") (auto simp: thread_ok_def wake_def)
  next
    case False
    then show ?thesis
      using thread_ok_other [OF inv_thread [OF inv, of t'], of ?ev "now m"] by (simp add: wake_def)
  qed
  moreover have "thread_ok ?ev (now m) t ((threads m t)\<lparr>status := Running 3\<rparr>)"
    using at_thread [OF at] by (simp add: thread_ok_def statement_lists)
  ultimately have "\<forall>t'. thread_ok ?ev (now m) t'
      (((wake (Cond (event m)) (threads m))(t := (threads m t)\<lparr>status := Running 3\<rparr>)) t')" by auto
  then show ?thesis using inv by (simp add: event_inv_def put_def wakes_ok_def)
qed

text \<open>The positions of each kind of statement.\<close>

lemma positions:
  assumes "pc < length (statements c)"
  shows "statements c ! pc = mutex_lock \<Longrightarrow> pc = (case c of EventWaitWithTimeout _ \<Rightarrow> 2 | _ \<Rightarrow> 0)"
    and "statements c ! pc = mutex_unlock \<Longrightarrow>
      pc = (case c of EventSet \<Rightarrow> 3 | EventReset \<Rightarrow> 2 | EventWaitForever \<Rightarrow> 5 | EventWaitWithTimeout _ \<Rightarrow> 9)"
    and "statements c ! pc = cond_broadcast \<Longrightarrow> c = EventSet \<and> pc = 2"
    and "statements c ! pc = cond_wait \<Longrightarrow> c = EventWaitForever \<and> pc = 2"
    and "statements c ! pc = cond_timedwait \<Longrightarrow> (\<exists>ms. c = EventWaitWithTimeout ms) \<and> pc = 4"
    and "statements c ! pc = store_Signaled b \<Longrightarrow> (c, pc, b) \<in> {(EventSet, 1, True), (EventReset, 1, False)}"
    and "statements c ! pc = while_not_Signaled k \<Longrightarrow>
      (c = EventWaitForever \<and> pc = 1 \<and> k = 4) \<or> ((\<exists>ms. c = EventWaitWithTimeout ms) \<and> pc = 3 \<and> k = 7)"
    and "statements c ! pc = if_AutoReset_clear \<Longrightarrow> sees_at c pc"
    and "statements c ! pc = if_ETIMEDOUT_goto k \<Longrightarrow> (\<exists>ms. c = EventWaitWithTimeout ms) \<and> pc = 5 \<and> k = 9"
    and "statements c ! pc = store_WaitSatisfied b \<Longrightarrow> (\<exists>ms. c = EventWaitWithTimeout ms) \<and> pc = 8 \<and> b"
    and "statements c ! pc = goto k \<Longrightarrow>
      (c = EventWaitForever \<and> pc = 3 \<and> k = 1) \<or> ((\<exists>ms. c = EventWaitWithTimeout ms) \<and> pc = 6 \<and> k = 3)"
    and "statements c ! pc = dbg_assert_TimeoutMs \<Longrightarrow> (\<exists>ms. c = EventWaitWithTimeout ms) \<and> pc = 0"
    and "statements c ! pc = GetAbsoluteTime \<Longrightarrow> (\<exists>ms. c = EventWaitWithTimeout ms) \<and> pc = 1"
  using assms by (cases c; auto simp: statement_lists less_Suc_eq nth_Cons' split: if_splits)+

lemma statement_inv:
  assumes inv: "event_inv m" and st: "status (threads m t) = Running pc"
    and pc: "pc < length (statements (in_call (threads m t)))"
    and run: "run (statements (in_call (threads m t)) ! pc) t pc m = Some m'"
  shows "event_inv m'"
proof -
  define c where "c = in_call (threads m t)"
  have at: "at m t c pc" using inv st by (simp add: at_def c_def)
  note pos = positions [OF pc, folded c_def] and now = at_thread [OF at] and run' = run [folded c_def]
  have n: "0 \<le> now m" "now m \<le> horizon" using inv by (simp_all add: event_inv_def)
  show ?thesis
  proof (cases "statements c ! pc")
    case mutex_lock
    then have "m' = put m t ((threads m t)\<lparr>status := Running (Suc pc)\<rparr>) ((event m)\<lparr>Mutex := Some t\<rparr>)"
      and free: "Mutex (event m) = None" using run' by (simp_all add: Let_def split: if_splits)
    then show ?thesis using lock_inv [OF at free] pos(1) [OF mutex_lock] now(9)
      by (cases c) (auto simp: statement_lists)
  next
    case mutex_unlock
    have own: "locked_at c pc" using pos(2) [OF mutex_unlock] by (cases c) simp_all
    then have "m' = put m t ((threads m t)\<lparr>status := Running (Suc pc)\<rparr>) ((event m)\<lparr>Mutex := None\<rparr>)"
      using run' mutex_unlock now(5) by (simp add: Let_def)
    then show ?thesis using unlock_inv [OF at own] pos(2) [OF mutex_unlock] now(9)
      by (cases c) (auto simp: statement_lists)
  next
    case cond_broadcast
    then show ?thesis using broadcast_inv at pos(3) run' by (auto simp: Let_def numeral_3_eq_3 numeral_2_eq_2)
  next
    case cond_wait
    then have w: "waits_at c pc" using pos(4) by simp
    then show ?thesis using sleep_inv [OF at w] run' cond_wait now(5) waits_locked [OF w] by (simp add: Let_def)
  next
    case cond_timedwait
    then have w: "waits_at c pc" using pos(5) by auto
    then show ?thesis using sleep_inv [OF at w] run' cond_timedwait now(5) waits_locked [OF w] by (simp add: Let_def)
  next
    case (store_Signaled b)
    have "locked_at c pc" using pos(6) [OF store_Signaled] by auto
    then show ?thesis using store_inv [OF at pos(6) [OF store_Signaled]] run' store_Signaled now(5) by (simp add: Let_def)
  next
    case (while_not_Signaled k)
    have "locked_at c pc" using pos(7) [OF while_not_Signaled] by auto
    then have "m' = put m t ((threads m t)\<lparr>status := Running (if \<not> Signaled (event m) then Suc pc else k)\<rparr>) (event m)"
      using run' while_not_Signaled now(5) by (simp add: Let_def)
    then show ?thesis using move_inv [OF at] pos(7) [OF while_not_Signaled] now(2,9)
      by (auto simp: statement_lists)
  next
    case if_AutoReset_clear
    then have s: "sees_at c pc" using pos(8) by simp
    then show ?thesis using consume_inv [OF at s] run' if_AutoReset_clear now(5) sees_locked [OF s] by (simp add: Let_def)
  next
    case (if_ETIMEDOUT_goto k)
    then obtain ms where c: "c = EventWaitWithTimeout ms" "pc = 5" "k = 9" using pos(9) by blast
    show ?thesis
    proof (cases "Expired (threads m t)")
      case True
      then show ?thesis using timed_out_inv [OF at [unfolded c] True] run' if_ETIMEDOUT_goto c by (simp add: Let_def)
    next
      case False
      then show ?thesis using move_inv [OF at] run' if_ETIMEDOUT_goto c now(2,9) by (auto simp: Let_def statement_lists)
    qed
  next
    case (store_WaitSatisfied b)
    then show ?thesis using move_inv [OF at] run' pos(10) [OF store_WaitSatisfied] now(2,9)
      by (auto simp: Let_def statement_lists)
  next
    case (goto k)
    then show ?thesis using move_inv [OF at] run' pos(11) [OF goto] now(2,9) by (auto simp: Let_def statement_lists)
  next
    case dbg_assert_TimeoutMs
    then show ?thesis using move_inv [OF at] run' pos(12) [OF dbg_assert_TimeoutMs] now(2,9,10)
      by (auto simp: Let_def statement_lists valid_call_def)
  next
    case GetAbsoluteTime
    then obtain ms where c: "c = EventWaitWithTimeout ms" "pc = 1" using pos(13) by blast
    obtain ts where ts: "posix_CxPlatGetAbsoluteTime (debug m) (0, timespec_of (now m)) (ucast ms) = Inr ts"
      "timespec_ns ts = now m + uint ms * 1000000" using deadline_ok [OF n] by blast
    then have "m' = put m t ((threads m t)\<lparr>status := Running 2, Ts := ts\<rparr>) (event m)"
      using run' GetAbsoluteTime c now(2) by (simp add: Let_def numeral_2_eq_2)
    then show ?thesis using move_inv [OF at] c now(2,9,11) ts(2) by (auto simp: statement_lists due_def)
  qed
qed

lemma step_inv: "event_inv m \<Longrightarrow> event_step m m' \<Longrightarrow> event_inv m'"
  by (erule event_step.cases)
    (auto intro: call_inv statement_inv waking_inv reacquire_inv return_inv tick_inv)

lemma start_event:
  assumes "event_start m"
  shows "Mutex (event m) = None" "Cond (event m) = {}" "history m = (if Signaled (event m) then [DidSet] else [])"
proof -
  obtain mr i where "CxPlatEventInitialize (0, 0, 0, 0, 0) mr i = Inr (event m)" and h: "history m = (if i then [DidSet] else [])"
    using assms by (auto simp: event_start_def)
  then have e: "event m = \<lparr>Mutex = None, Cond = {}, Signaled = i, AutoReset = (\<not> mr)\<rparr>"
    by (simp add: CxPlatEventInitialize_def)
  show "Mutex (event m) = None" "Cond (event m) = {}" "history m = (if Signaled (event m) then [DidSet] else [])"
    using h by (simp_all add: e)
qed

lemma start_inv:
  assumes "event_start m"
  shows "event_inv m"
proof -
  have "\<forall>t. status (threads m t) = Idle" "0 \<le> now m" "now m \<le> horizon" using assms by (simp_all add: event_start_def)
  then show ?thesis using start_event(1,2) [OF assms] by (simp add: event_inv_def thread_ok_def wakes_ok_def)
qed

section \<open>The abstract event\<close>

record abs_event =
  flag :: bool
  auto_reset :: bool
  trace :: "effect list"

inductive abs_step :: "abs_event \<Rightarrow> abs_event \<Rightarrow> bool" where
  a_set: "abs_step s (s\<lparr>flag := True, trace := trace s @ [DidSet]\<rparr>)"
| a_reset: "abs_step s (s\<lparr>flag := False, trace := trace s @ [DidReset]\<rparr>)"
| a_wait: "flag s \<Longrightarrow> abs_step s (s\<lparr>flag := \<not> auto_reset s, trace := trace s @ [DidWait]\<rparr>)"
| a_timeout: "abs_step s (s\<lparr>trace := trace s @ [DidTimeOut]\<rparr>)"

definition abs_start :: "abs_event \<Rightarrow> bool" where
  "abs_start s \<longleftrightarrow> trace s = (if flag s then [DidSet] else [])"

text \<open>The sequential meaning of a trace: \<open>None\<close> when a wait would have passed an event that was not set.\<close>

fun replay :: "bool \<Rightarrow> bool \<Rightarrow> effect list \<Rightarrow> bool option" where
  "replay autoreset f [] = Some f"
| "replay autoreset f (DidSet # es) = replay autoreset True es"
| "replay autoreset f (DidReset # es) = replay autoreset False es"
| "replay autoreset f (DidWait # es) = (if f then replay autoreset (\<not> autoreset) es else None)"
| "replay autoreset f (DidTimeOut # es) = replay autoreset f es"

lemma replay_append:
  "replay a f (es @ es') = (case replay a f es of None \<Rightarrow> None | Some g \<Rightarrow> replay a g es')"
  by (induction a f es rule: replay.induct) auto

definition abs_inv :: "abs_event \<Rightarrow> bool" where
  "abs_inv s \<longleftrightarrow> replay (auto_reset s) False (trace s) = Some (flag s) \<and>
     (auto_reset s \<longrightarrow> count_list (trace s) DidWait + (if flag s then 1 else 0) \<le> count_list (trace s) DidSet)"

interpretation abs_sys: safe_system abs_start abs_step abs_inv
proof
  fix s s'
  show "abs_start s \<Longrightarrow> abs_inv s" by (simp add: abs_start_def abs_inv_def)
  show "abs_inv s \<Longrightarrow> abs_step s s' \<Longrightarrow> abs_inv s'"
    by (erule abs_step.cases) (auto simp: abs_inv_def replay_append split: if_splits)
qed

section \<open>The machine implements it\<close>

definition event_abs :: "machine \<Rightarrow> abs_event" where
  "event_abs m = \<lparr>flag = Signaled (event m), auto_reset = AutoReset (event m), trace = history m\<rparr>"

lemma statement_abs:
  assumes inv: "event_inv m" and st: "status (threads m t) = Running pc"
    and pc: "pc < length (statements (in_call (threads m t)))"
    and run: "run (statements (in_call (threads m t)) ! pc) t pc m = Some m'"
  shows "event_abs m' = event_abs m \<or> abs_step (event_abs m) (event_abs m')"
proof (cases "statements (in_call (threads m t)) ! pc")
  case (store_Signaled b)
  then show ?thesis using run a_set [of "event_abs m"] a_reset [of "event_abs m"]
    by (cases b) (auto simp: event_abs_def Let_def acts_def put_def fail_def split: if_splits)
next
  case if_AutoReset_clear
  have "at m t (in_call (threads m t)) pc" using inv st by (simp add: at_def)
  then have "Signaled (event m)" using positions(8) [OF pc if_AutoReset_clear] by (rule at_thread(7))
  then show ?thesis using run if_AutoReset_clear a_wait [of "event_abs m"]
    by (auto simp: event_abs_def Let_def acts_def put_def fail_def split: if_splits)
next
  case (if_ETIMEDOUT_goto k)
  then show ?thesis using run a_timeout [of "event_abs m"]
    by (auto simp: event_abs_def Let_def acts_def put_def fail_def split: if_splits)
qed (use run in \<open>auto simp: event_abs_def Let_def put_def fail_def split: if_splits event_call.splits sum.splits\<close>)

lemma step_abs: "event_inv m \<Longrightarrow> event_step m m' \<Longrightarrow> event_abs m' = event_abs m \<or> abs_step (event_abs m) (event_abs m')"
  by (erule event_step.cases) (auto dest: statement_abs, auto simp: event_abs_def put_def)

interpretation event_sys: simulation event_start event_step event_inv abs_start abs_step event_abs
proof
  fix m m'
  assume "event_start m"
  from start_event(3) [OF this] show "abs_start (event_abs m)" by (simp add: abs_start_def event_abs_def)
qed (fact start_inv step_inv step_abs)+

lemma reachable_trace: "reachable event_start event_step m \<Longrightarrow> abs_inv (event_abs m)"
  by (rule abs_sys.reachable_inv [OF event_sys.reachable_abs])

section \<open>Progress\<close>

lemma run_step:
  "status (threads m t) = Running pc \<Longrightarrow> in_call (threads m t) = c \<Longrightarrow> pc < length (statements c) \<Longrightarrow>
    run (statements c ! pc) t pc m = Some m' \<Longrightarrow> event_step m m'"
  by (auto intro: event_step.statement)

text \<open>Once it owns the mutex and the flag is set, a waiter needs three more statements.\<close>

lemma waiter_finishes:
  assumes "status (threads m t) = Running 1" and "in_call (threads m t) = EventWaitForever"
    and "Mutex (event m) = Some t" and "Signaled (event m)"
  shows "\<exists>m'. event_step\<^sup>*\<^sup>* m m' \<and> status (threads m' t) = Running 6 \<and> did (threads m' t) = Some DidWait \<and>
    in_call (threads m' t) = EventWaitForever"
proof -
  let ?th = "threads m t" and ?ev = "event m"
  let ?m1 = "put m t (?th\<lparr>status := Running 4\<rparr>) ?ev"
  let ?ev2 = "if AutoReset ?ev then ?ev\<lparr>Signaled := False\<rparr> else ?ev"
  let ?m2 = "acts DidWait (?th\<lparr>status := Running 5\<rparr>) ?m1 t ?ev2"
  let ?m3 = "put ?m2 t (?th\<lparr>did := Some DidWait, status := Running 6\<rparr>) (?ev2\<lparr>Mutex := None\<rparr>)"
  have "event_step m ?m1"
    using assms by (intro run_step [where t = t and pc = 1 and c = EventWaitForever]) (simp_all add: statement_lists Let_def)
  moreover have "event_step ?m1 ?m2"
    using assms by (intro run_step [where t = t and pc = 4 and c = EventWaitForever])
      (simp_all add: statement_lists Let_def put_def acts_def)
  moreover have "event_step ?m2 ?m3"
    using assms by (intro run_step [where t = t and pc = 5 and c = EventWaitForever])
      (simp_all add: statement_lists Let_def put_def acts_def)
  ultimately have "event_step\<^sup>*\<^sup>* m ?m3" by (meson r_into_rtranclp rtranclp_trans)
  then show ?thesis using assms(2) by (intro exI [of _ ?m3]) (simp add: put_def acts_def)
qed

lemma waiter_progress:
  assumes "in_call (threads m t) = EventWaitForever" and "Signaled (event m)" and free: "Mutex (event m) = None"
    and "status (threads m t) = Running 0 \<or> status (threads m t) = Waking 2"
  shows "\<exists>m'. event_step\<^sup>*\<^sup>* m m' \<and> status (threads m' t) = Running 6 \<and> did (threads m' t) = Some DidWait \<and>
    in_call (threads m' t) = EventWaitForever"
proof -
  let ?ev = "(event m)\<lparr>Mutex := Some t\<rparr>" and ?th = "threads m t"
  have "\<exists>m1. event_step\<^sup>*\<^sup>* m m1 \<and> status (threads m1 t) = Running 1 \<and>
    in_call (threads m1 t) = EventWaitForever \<and> Mutex (event m1) = Some t \<and> Signaled (event m1)"
    using assms(4)
  proof
    assume s: "status ?th = Running 0"
    have "event_step m (put m t (?th\<lparr>status := Running 1\<rparr>) ?ev)"
      using assms s by (intro run_step [where t = t and pc = 0 and c = EventWaitForever]) (simp_all add: statement_lists Let_def)
    then show ?thesis using assms(1,2)
      by (intro exI [of _ "put m t (?th\<lparr>status := Running 1\<rparr>) ?ev"] conjI r_into_rtranclp) (simp_all add: put_def)
  next
    assume s: "status ?th = Waking 2"
    let ?m1 = "put m t (?th\<lparr>status := Running 3\<rparr>) ?ev"
    let ?m2 = "put ?m1 t (?th\<lparr>status := Running 1\<rparr>) ?ev"
    have "event_step m ?m1" using reacquire [OF s free] by (simp add: numeral_3_eq_3 numeral_2_eq_2)
    moreover have "event_step ?m1 ?m2"
      using assms by (intro run_step [where t = t and pc = 3 and c = EventWaitForever]) (simp_all add: statement_lists Let_def put_def)
    ultimately have "event_step\<^sup>*\<^sup>* m ?m2" by (meson r_into_rtranclp rtranclp_trans)
    then show ?thesis using assms(1,2) by (intro exI [of _ ?m2]) (simp add: put_def)
  qed
  then obtain m1 where m1: "event_step\<^sup>*\<^sup>* m m1" "status (threads m1 t) = Running 1"
    "in_call (threads m1 t) = EventWaitForever" "Mutex (event m1) = Some t" "Signaled (event m1)" by blast
  from waiter_finishes [OF m1(2-5)] show ?thesis using rtranclp_trans [OF m1(1)] by blast
qed

text \<open>The effect of a call is recorded by the caller itself, once.\<close>

lemma effect_once:
  assumes inv: "event_inv m" and "event_step m m'" and "history m' \<noteq> history m"
  shows "\<exists>t e pc. history m' = history m @ [e] \<and> status (threads m t) = Running pc \<and>
    did (threads m t) = None \<and> did (threads m' t) = Some e \<and> (\<forall>t' \<noteq> t. did (threads m' t') = did (threads m t'))"
  using assms(2)
proof (cases rule: event_step.cases)
  case (statement t pc)
  define c where "c = in_call (threads m t)"
  have at: "at m t c pc" using inv statement by (simp add: at_def c_def)
  note d = at_thread(9) [OF at] and pos = positions [OF statement(2), folded c_def]
  have r: "run (statements c ! pc) t pc m = Some m'" using statement(3) by (simp add: c_def)
  have "\<exists>e. history m' = history m @ [e] \<and> did (threads m t) = None \<and> did (threads m' t) = Some e \<and>
    (\<forall>t' \<noteq> t. did (threads m' t') = did (threads m t'))"
  proof (cases "statements c ! pc")
    case (store_Signaled b)
    then show ?thesis using r d pos(6) [OF store_Signaled] assms(3)
      by (auto simp: Let_def acts_def put_def fail_def split: if_splits)
  next
    case if_AutoReset_clear
    then have "did (threads m t) = None" using d pos(8) [OF if_AutoReset_clear] by (cases c) auto
    then show ?thesis using r if_AutoReset_clear assms(3)
      by (auto simp: Let_def acts_def put_def fail_def split: if_splits)
  next
    case (if_ETIMEDOUT_goto k)
    then show ?thesis using r d pos(9) [OF if_ETIMEDOUT_goto] assms(3)
      by (auto simp: Let_def acts_def put_def fail_def split: if_splits)
  qed (use r assms(3) in \<open>auto simp: Let_def put_def fail_def split: if_splits event_call.splits sum.splits\<close>)
  then show ?thesis using statement(1) by blast
qed (use assms(3) in \<open>simp_all add: put_def\<close>)

section \<open>Properties\<close>

subsection \<open>A concrete run\<close>

text \<open>An auto-reset event; thread 0 sets it, then thread 1 begins to wait for it.\<close>

definition demo0 :: machine where
  "demo0 = \<lparr>debug = True, event = \<lparr>Mutex = None, Cond = {}, Signaled = False, AutoReset = True\<rparr>, now = 0,
     threads = \<lambda>_. (enter EventReset 0)\<lparr>status := Idle\<rparr>, history = []\<rparr>"

definition demo_at :: "nat \<Rightarrow> machine" where
  "demo_at pc = demo0\<lparr>
     event := \<lparr>Mutex = (if 1 \<le> pc \<and> pc \<le> 3 then Some 0 else None), Cond = {}, Signaled = (2 \<le> pc), AutoReset = True\<rparr>,
     threads := (threads demo0)(0 := (enter EventSet 0)\<lparr>status := Running pc, did := if 2 \<le> pc then Some DidSet else None\<rparr>),
     history := if 2 \<le> pc then [DidSet] else []\<rparr>"

definition demo_wait :: machine where
  "demo_wait = put (demo_at 4) 1 (enter EventWaitForever 0) (event (demo_at 4))"

lemma demo_start: "event_start demo0"
  by (auto simp: event_start_def demo0_def CxPlatEventInitialize_def enter_def horizon_def intro!: exI [of _ False])

lemma demo_step:
  assumes "pc < 4"
  shows "event_step (demo_at pc) (demo_at (Suc pc))"
  using assms
  by (intro run_step [where t = 0 and pc = pc and c = EventSet])
    (auto simp: demo_at_def enter_def demo0_def statement_lists less_Suc_eq numeral_nat Let_def put_def acts_def
      wake_def fun_eq_iff)

lemma demo_reach_at: "pc \<le> 4 \<Longrightarrow> reachable event_start event_step (demo_at pc)"
proof (induction pc)
  case 0
  have "put demo0 0 (enter EventSet (now demo0)) (event demo0) = demo_at 0"
    by (simp add: put_def demo_at_def demo0_def enter_def)
  moreover have "event_step demo0 (put demo0 0 (enter EventSet (now demo0)) (event demo0))"
    by (rule call) (simp_all add: demo0_def valid_call_def)
  ultimately show ?case
    using reach_step [OF reach_start [of event_start, OF demo_start]] by simp
next
  case (Suc pc)
  then show ?case by (intro reach_step [OF Suc.IH demo_step]) simp_all
qed

lemmas demo_reach = demo_reach_at [OF order_refl]

lemma demo_wait_reach: "reachable event_start event_step demo_wait"
proof -
  have "event_step (demo_at 4) demo_wait"
    using call [of "demo_at 4" 1 EventWaitForever]
    by (simp add: demo_wait_def demo_at_def demo0_def valid_call_def)
  with demo_reach show ?thesis by (rule reach_step)
qed

subsection \<open>The event\<close>



text \<open>
  A call that is about to return has taken effect, and its result says which effect: a set has
  set, a reset has reset, an unlimited wait and a timed wait that answers TRUE have passed the event,
  and a timed wait that answers FALSE has left it alone and has waited at least its timeout.
\<close>

theorem event_call_took_effect:
  assumes "reachable event_start event_step m" and "in_call (threads m t) = c"
    and "status (threads m t) = Running (length (statements c))"
  shows "case c of
      EventSet \<Rightarrow> did (threads m t) = Some DidSet
    | EventReset \<Rightarrow> did (threads m t) = Some DidReset
    | EventWaitForever \<Rightarrow> did (threads m t) = Some DidWait
    | EventWaitWithTimeout TimeoutMs \<Rightarrow>
        if WaitSatisfied (threads m t) then did (threads m t) = Some DidWait
        else did (threads m t) = Some DidTimeOut \<and> called_at (threads m t) + uint TimeoutMs * 1000000 \<le> now m"
  using at_thread(9) [of m t c "length (statements c)"] event_sys.reachable_inv [OF assms(1)] assms(2,3)
  by (cases c) (simp_all add: at_def statement_lists due_def split: if_splits)

theorem event_call_took_effect_witness:
  "did (threads (demo_at 4) 0) = Some DidSet"
  using event_call_took_effect [OF demo_reach, of 0 EventSet]
  by (simp add: demo_at_def enter_def statement_lists)

text \<open>
  The effect of a call happens in one step of the calling thread, after the call began and before
  it returns, and at most once per call.
\<close>

theorem event_effect_is_atomic:
  assumes "reachable event_start event_step m" and "event_step m m'" and "history m' \<noteq> history m"
  shows "\<exists>t e pc. history m' = history m @ [e] \<and> status (threads m t) = Running pc \<and>
    did (threads m t) = None \<and> did (threads m' t) = Some e \<and> (\<forall>t'. t' \<noteq> t \<longrightarrow> did (threads m' t') = did (threads m t'))"
  using effect_once [OF event_sys.reachable_inv [OF assms(1)] assms(2,3)] by blast

theorem event_effect_is_atomic_witness:
  "\<exists>t e pc. history (demo_at 2) = history (demo_at 1) @ [e] \<and> status (threads (demo_at 1) t) = Running pc \<and>
    did (threads (demo_at 1) t) = None \<and> did (threads (demo_at 2) t) = Some e"
proof -
  have "history (demo_at (Suc 1)) \<noteq> history (demo_at 1)" by (simp add: demo_at_def)
  from event_effect_is_atomic [OF demo_reach_at demo_step this] show ?thesis by (auto simp: numeral_2_eq_2)
qed

text \<open>
  C17. No thread ever faults: every \<open>pthread\<close> call asserted to succeed does, the flag is read and
  written only by the owner of the mutex (no data race), and at most one thread is between its lock
  and its unlock.
\<close>

theorem event_no_fault:
  assumes "reachable event_start event_step m"
  shows "status (threads m t) \<noteq> Faulted f \<and>
    (status (threads m t) = Running pc \<and> locked_at (in_call (threads m t)) pc \<and>
     status (threads m t') = Running pc' \<and> locked_at (in_call (threads m t')) pc' \<longrightarrow> t = t')"
  using inv_thread [OF event_sys.reachable_inv [OF assms], of t] inv_thread [OF event_sys.reachable_inv [OF assms], of t']
  by (auto simp: thread_ok_def)

theorem event_no_fault_witness:
  "status (threads (demo_at 4) 0) \<noteq> Faulted DataRace"
  using event_no_fault [OF demo_reach, of 0 DataRace 0 1 0] by blast





end
