(* ===== verification/CxLock.thy ===== *)
theory CxLock
  imports CxPrelude "HOL-Library.Multiset"
begin

text \<open>
  The locks of \<open>inc/cxplat_posix.h\<close> and the lock classes of \<open>inc/cxplat.hpp\<close> over them. Mutexes and read-write locks
  behave as the POSIX standard describes them. Each operation is one call, so calls of several threads are a
  sequence in the order in which they take effect (\<open>lock_run\<close>); the locale \<open>lock_class\<close> carries the refinement of a lock along such a sequence.
\<close>

section \<open>POSIX mutexes\<close>

text \<open>Error numbers, and a mutex: its owner, how often the owner holds it, and its type.\<close>

definition EPERM :: int where "EPERM = 1"
definition EAGAIN :: int where "EAGAIN = 11"
definition EBUSY :: int where "EBUSY = 16"
definition EDEADLK :: int where "EDEADLK = 35"

record pthread_mutex =
  owner :: "nat option"
  depth :: nat
  recursive :: bool

text \<open>
  Thread \<open>t\<close> locks; \<open>None\<close> when it has to wait. \<open>Limit\<close> is the implementation's bound on the depth.
\<close>

definition pthread_mutex_lock :: "nat \<Rightarrow> nat \<Rightarrow> pthread_mutex \<Rightarrow> (int \<times> pthread_mutex) option" where
  "pthread_mutex_lock Limit t m = (case owner m of
      None \<Rightarrow> Some (0, m\<lparr>owner := Some t, depth := 1\<rparr>)
    | Some u \<Rightarrow> if u \<noteq> t \<or> \<not> recursive m then None
                else if depth m < Limit then Some (0, m\<lparr>depth := Suc (depth m)\<rparr>) else Some (EAGAIN, m))"

definition pthread_mutex_unlock :: "nat \<Rightarrow> pthread_mutex \<Rightarrow> int \<times> pthread_mutex" where
  "pthread_mutex_unlock t m =
     (if owner m \<noteq> Some t then (EPERM, m)
      else if depth m \<le> 1 then (0, m\<lparr>owner := None, depth := 0\<rparr>) else (0, m\<lparr>depth := depth m - 1\<rparr>))"

definition pthread_mutex_destroy :: "pthread_mutex \<Rightarrow> int" where
  "pthread_mutex_destroy m = (if owner m = None then 0 else EBUSY)"

text \<open>The results of the attribute calls and of the mutex initialisation are arguments.\<close>

definition posix_CxPlatLockInitialize :: "int \<times> int \<times> int \<times> int \<Rightarrow> pthread_mutex result" where
  "posix_CxPlatLockInitialize Result = (case Result of (attr_init, settype, init, attr_destroy) \<Rightarrow>
     guardR (attr_init = 0) AssertFailed
     (guardR (settype = 0) AssertFailed
     (guardR (init = 0) AssertFailed
     (guardR (attr_destroy = 0) AssertFailed
     (Inr \<lparr>owner = None, depth = 0, recursive = True\<rparr>)))))"

definition posix_CxPlatLockUninitialize :: "pthread_mutex \<Rightarrow> unit result" where
  "posix_CxPlatLockUninitialize m = guardR (pthread_mutex_destroy m = 0) AssertFailed (Inr ())"

definition posix_CxPlatLockAcquire :: "nat \<Rightarrow> nat \<Rightarrow> pthread_mutex \<Rightarrow> pthread_mutex result option" where
  "posix_CxPlatLockAcquire Limit t m =
     map_option (\<lambda>(r, m). guardR (r = 0) AssertFailed (Inr m)) (pthread_mutex_lock Limit t m)"

definition posix_CxPlatLockRelease :: "nat \<Rightarrow> pthread_mutex \<Rightarrow> pthread_mutex result" where
  "posix_CxPlatLockRelease t m =
     (case pthread_mutex_unlock t m of (r, m) \<Rightarrow> guardR (r = 0) AssertFailed (Inr m))"

section \<open>POSIX read-write locks\<close>

record pthread_rwlock =
  writer :: "nat option"
  readers :: "nat list"

text \<open>A thread that already has the lock for writing is told so; unlocking a lock one does not hold is undefined.\<close>

definition pthread_rwlock_rdlock :: "nat \<Rightarrow> nat \<Rightarrow> pthread_rwlock \<Rightarrow> (int \<times> pthread_rwlock) option" where
  "pthread_rwlock_rdlock Limit t l = (case writer l of
      Some u \<Rightarrow> if u = t then Some (EDEADLK, l) else None
    | None \<Rightarrow> if length (readers l) < Limit then Some (0, l\<lparr>readers := t # readers l\<rparr>) else Some (EAGAIN, l))"

definition pthread_rwlock_wrlock :: "nat \<Rightarrow> pthread_rwlock \<Rightarrow> (int \<times> pthread_rwlock) option" where
  "pthread_rwlock_wrlock t l = (case writer l of
      Some u \<Rightarrow> if u = t then Some (EDEADLK, l) else None
    | None \<Rightarrow> if readers l = [] then Some (0, l\<lparr>writer := Some t\<rparr>) else None)"

definition pthread_rwlock_unlock :: "nat \<Rightarrow> pthread_rwlock \<Rightarrow> (int \<times> pthread_rwlock) result" where
  "pthread_rwlock_unlock t l =
     (if writer l = Some t then Inr (0, l\<lparr>writer := None\<rparr>)
      else if t \<in> set (readers l) then Inr (0, l\<lparr>readers := remove1 t (readers l)\<rparr>)
      else Inl Undefined)"

definition pthread_rwlock_destroy :: "pthread_rwlock \<Rightarrow> int" where
  "pthread_rwlock_destroy l = (if writer l = None \<and> readers l = [] then 0 else EBUSY)"

definition posix_CxPlatRwLockInitialize :: "int \<Rightarrow> pthread_rwlock result" where
  "posix_CxPlatRwLockInitialize Result = guardR (Result = 0) AssertFailed (Inr \<lparr>writer = None, readers = []\<rparr>)"

definition posix_CxPlatRwLockUninitialize :: "pthread_rwlock \<Rightarrow> unit result" where
  "posix_CxPlatRwLockUninitialize l = guardR (pthread_rwlock_destroy l = 0) AssertFailed (Inr ())"

definition posix_CxPlatRwLockAcquireShared :: "nat \<Rightarrow> nat \<Rightarrow> pthread_rwlock \<Rightarrow> pthread_rwlock result option" where
  "posix_CxPlatRwLockAcquireShared Limit t l =
     map_option (\<lambda>(r, l). guardR (r = 0) AssertFailed (Inr l)) (pthread_rwlock_rdlock Limit t l)"

definition posix_CxPlatRwLockAcquireExclusive :: "nat \<Rightarrow> pthread_rwlock \<Rightarrow> pthread_rwlock result option" where
  "posix_CxPlatRwLockAcquireExclusive t l =
     map_option (\<lambda>(r, l). guardR (r = 0) AssertFailed (Inr l)) (pthread_rwlock_wrlock t l)"

definition posix_CxPlatRwLockReleaseShared :: "nat \<Rightarrow> pthread_rwlock \<Rightarrow> pthread_rwlock result" where
  "posix_CxPlatRwLockReleaseShared t l =
     bindR (pthread_rwlock_unlock t l) (\<lambda>(r, l). guardR (r = 0) AssertFailed (Inr l))"

definition posix_CxPlatRwLockReleaseExclusive :: "nat \<Rightarrow> pthread_rwlock \<Rightarrow> pthread_rwlock result" where
  "posix_CxPlatRwLockReleaseExclusive t l =
     bindR (pthread_rwlock_unlock t l) (\<lambda>(r, l). guardR (r = 0) AssertFailed (Inr l))"

text \<open>The dispatch locks are the same locks under other names.\<close>

definition posix_CxPlatDispatchLockInitialize :: "int \<times> int \<times> int \<times> int \<Rightarrow> pthread_mutex result" where
  "posix_CxPlatDispatchLockInitialize = posix_CxPlatLockInitialize"

definition posix_CxPlatDispatchLockUninitialize :: "pthread_mutex \<Rightarrow> unit result" where
  "posix_CxPlatDispatchLockUninitialize = posix_CxPlatLockUninitialize"

definition posix_CxPlatDispatchRwLockInitialize :: "int \<Rightarrow> pthread_rwlock result" where
  "posix_CxPlatDispatchRwLockInitialize = posix_CxPlatRwLockInitialize"

definition posix_CxPlatDispatchRwLockUninitialize :: "pthread_rwlock \<Rightarrow> unit result" where
  "posix_CxPlatDispatchRwLockUninitialize = posix_CxPlatRwLockUninitialize"

definition posix_CxPlatDispatchLockAcquire :: "nat \<Rightarrow> nat \<Rightarrow> pthread_mutex \<Rightarrow> pthread_mutex result option" where
  "posix_CxPlatDispatchLockAcquire = posix_CxPlatLockAcquire"

definition posix_CxPlatDispatchLockRelease :: "nat \<Rightarrow> pthread_mutex \<Rightarrow> pthread_mutex result" where
  "posix_CxPlatDispatchLockRelease = posix_CxPlatLockRelease"

definition posix_CxPlatDispatchRwLockAcquireShared :: "nat \<Rightarrow> nat \<Rightarrow> pthread_rwlock \<Rightarrow> pthread_rwlock result option" where
  "posix_CxPlatDispatchRwLockAcquireShared = posix_CxPlatRwLockAcquireShared"

definition posix_CxPlatDispatchRwLockAcquireExclusive :: "nat \<Rightarrow> pthread_rwlock \<Rightarrow> pthread_rwlock result option" where
  "posix_CxPlatDispatchRwLockAcquireExclusive = posix_CxPlatRwLockAcquireExclusive"

definition posix_CxPlatDispatchRwLockReleaseShared :: "nat \<Rightarrow> pthread_rwlock \<Rightarrow> pthread_rwlock result" where
  "posix_CxPlatDispatchRwLockReleaseShared = posix_CxPlatRwLockReleaseShared"

definition posix_CxPlatDispatchRwLockReleaseExclusive :: "nat \<Rightarrow> pthread_rwlock \<Rightarrow> pthread_rwlock result" where
  "posix_CxPlatDispatchRwLockReleaseExclusive = posix_CxPlatRwLockReleaseExclusive"

section \<open>The wrapper classes\<close>

text \<open>The methods of the C++ classes, called by a thread; \<open>None\<close> when the call does not return.\<close>

datatype lock_method = Acquire | Release

datatype rw_method = AcquireShared | AcquireExclusive | ReleaseShared | ReleaseExclusive

fun CxPlatLock :: "nat \<Rightarrow> lock_method \<Rightarrow> nat \<Rightarrow> pthread_mutex \<Rightarrow> pthread_mutex result option" where
  "CxPlatLock Limit Acquire t Handle = posix_CxPlatLockAcquire Limit t Handle"
| "CxPlatLock Limit Release t Handle = Some (posix_CxPlatLockRelease t Handle)"

fun CxPlatLockDispatch :: "nat \<Rightarrow> lock_method \<Rightarrow> nat \<Rightarrow> pthread_mutex \<Rightarrow> pthread_mutex result option" where
  "CxPlatLockDispatch Limit Acquire t Handle = posix_CxPlatDispatchLockAcquire Limit t Handle"
| "CxPlatLockDispatch Limit Release t Handle = Some (posix_CxPlatDispatchLockRelease t Handle)"

fun CxPlatRwLock :: "nat \<Rightarrow> rw_method \<Rightarrow> nat \<Rightarrow> pthread_rwlock \<Rightarrow> pthread_rwlock result option" where
  "CxPlatRwLock Limit AcquireShared t Handle = posix_CxPlatRwLockAcquireShared Limit t Handle"
| "CxPlatRwLock Limit AcquireExclusive t Handle = posix_CxPlatRwLockAcquireExclusive t Handle"
| "CxPlatRwLock Limit ReleaseShared t Handle = Some (posix_CxPlatRwLockReleaseShared t Handle)"
| "CxPlatRwLock Limit ReleaseExclusive t Handle = Some (posix_CxPlatRwLockReleaseExclusive t Handle)"

fun CxPlatRwLockDispatch :: "nat \<Rightarrow> rw_method \<Rightarrow> nat \<Rightarrow> pthread_rwlock \<Rightarrow> pthread_rwlock result option" where
  "CxPlatRwLockDispatch Limit AcquireShared t Handle = posix_CxPlatDispatchRwLockAcquireShared Limit t Handle"
| "CxPlatRwLockDispatch Limit AcquireExclusive t Handle = posix_CxPlatDispatchRwLockAcquireExclusive t Handle"
| "CxPlatRwLockDispatch Limit ReleaseShared t Handle = Some (posix_CxPlatDispatchRwLockReleaseShared t Handle)"
| "CxPlatRwLockDispatch Limit ReleaseExclusive t Handle = Some (posix_CxPlatDispatchRwLockReleaseExclusive t Handle)"

text \<open>Calls of any threads, in the order in which they take effect.\<close>

fun lock_run :: "('m \<Rightarrow> nat \<Rightarrow> 's \<Rightarrow> 's result option) \<Rightarrow> (nat \<times> 'm) list \<Rightarrow> 's \<Rightarrow> 's result option" where
  "lock_run call [] s = Some (Inr s)"
| "lock_run call ((t, m) # ops) s = (case call m t s of
      None \<Rightarrow> None
    | Some (Inl f) \<Rightarrow> Some (Inl f)
    | Some (Inr s') \<Rightarrow> lock_run call ops s')"

section \<open>What the locks promise\<close>

text \<open>
  A lock class against a specification: every method does to the view of the lock what the
  specification says, faults and blocking included. Runs then agree as well.
\<close>

locale lock_class =
  fixes call :: "'m \<Rightarrow> nat \<Rightarrow> 's \<Rightarrow> 's result option" and good :: "'s \<Rightarrow> bool"
    and view :: "'s \<Rightarrow> 'v" and spec :: "'m \<Rightarrow> nat \<Rightarrow> 'v \<Rightarrow> 'v result option"
  assumes call_refines: "good s \<Longrightarrow> map_option (map_sum id view) (call m t s) = spec m t (view s)"
    and call_good: "good s \<Longrightarrow> call m t s = Some (Inr s') \<Longrightarrow> good s'"
begin

lemma run_refines: "good s \<Longrightarrow> map_option (map_sum id view) (lock_run call ops s) = lock_run spec ops (view s)"
proof (induction ops arbitrary: s)
  case (Cons x ops)
  obtain t m where x: "x = (t, m)" by (cases x)
  note step = call_refines [OF Cons.prems, of m t, symmetric]
  show ?case
  proof (cases "call m t s")
    case (Some r)
    then show ?thesis using step x Cons.IH [OF call_good [OF Cons.prems]] by (cases r) simp_all
  qed (use step x in simp)
qed simp

lemma run_good: "good s \<Longrightarrow> lock_run call ops s = Some (Inr s') \<Longrightarrow> good s'"
proof (induction ops arbitrary: s)
  case (Cons x ops)
  obtain t m where x: "x = (t, m)" by (cases x)
  then obtain s1 where "call m t s = Some (Inr s1)" and "lock_run call ops s1 = Some (Inr s')"
    using Cons.prems(2) by (auto split: option.splits sum.splits)
  then show ?case using Cons.IH call_good Cons.prems(1) by blast
qed simp

end

text \<open>
  The recursive lock: how often each thread holds it. A thread waits while another one holds it, and an
  assertion fails when a thread releases what it does not hold, or exceeds the depth.
\<close>

fun recursive_lock :: "nat \<Rightarrow> lock_method \<Rightarrow> nat \<Rightarrow> (nat \<Rightarrow> nat) \<Rightarrow> (nat \<Rightarrow> nat) result option" where
  "recursive_lock Limit Acquire t h =
     (if \<exists>u. u \<noteq> t \<and> h u \<noteq> 0 then None
      else if h t < Limit then Some (Inr (h(t := Suc (h t)))) else Some (Inl AssertFailed))"
| "recursive_lock Limit Release t h =
     (if h t = 0 then Some (Inl AssertFailed) else Some (Inr (h(t := h t - 1))))"

definition holds :: "pthread_mutex \<Rightarrow> nat \<Rightarrow> nat" where
  "holds m t = (if owner m = Some t then depth m else 0)"

definition lock_ok :: "pthread_mutex \<Rightarrow> bool" where
  "lock_ok m \<longleftrightarrow> recursive m \<and> (owner m = None \<longleftrightarrow> depth m = 0)"

text \<open>
  The read-write lock: the writer, and how often each thread reads. Either release gives up what
  the thread has.
\<close>

fun rw_spec :: "nat \<Rightarrow> rw_method \<Rightarrow> nat \<Rightarrow> nat option \<times> nat multiset \<Rightarrow> (nat option \<times> nat multiset) result option" where
  "rw_spec Limit AcquireShared t (W, R) =
     (if W = Some t then Some (Inl AssertFailed) else if W \<noteq> None then None
      else if size R < Limit then Some (Inr (None, add_mset t R)) else Some (Inl AssertFailed))"
| "rw_spec Limit AcquireExclusive t (W, R) =
     (if W = Some t then Some (Inl AssertFailed) else if W \<noteq> None \<or> R \<noteq> {#} then None else Some (Inr (Some t, {#})))"
| "rw_spec Limit m t (W, R) =
     (if W = Some t then Some (Inr (None, R)) else if t \<in># R then Some (Inr (W, R - {#t#})) else Some (Inl Undefined))"

definition rw_view :: "pthread_rwlock \<Rightarrow> nat option \<times> nat multiset" where
  "rw_view l = (writer l, mset (readers l))"

definition rw_ok :: "pthread_rwlock \<Rightarrow> bool" where
  "rw_ok l \<longleftrightarrow> writer l = None \<or> readers l = []"

lemmas lock_defs = posix_CxPlatLockAcquire_def posix_CxPlatLockRelease_def pthread_mutex_lock_def pthread_mutex_unlock_def
  posix_CxPlatDispatchLockAcquire_def posix_CxPlatDispatchLockRelease_def

lemmas rw_defs = posix_CxPlatRwLockAcquireShared_def posix_CxPlatRwLockAcquireExclusive_def posix_CxPlatRwLockReleaseShared_def
  posix_CxPlatRwLockReleaseExclusive_def pthread_rwlock_rdlock_def pthread_rwlock_wrlock_def pthread_rwlock_unlock_def
  posix_CxPlatDispatchRwLockAcquireShared_def posix_CxPlatDispatchRwLockAcquireExclusive_def
  posix_CxPlatDispatchRwLockReleaseShared_def posix_CxPlatDispatchRwLockReleaseExclusive_def

lemma lock_call_refines:
  assumes "lock_ok m"
  shows "map_option (map_sum id holds) (CxPlatLock (Suc L) meth t m) = recursive_lock (Suc L) meth t (holds m)"
proof (cases meth)
  case Acquire
  show ?thesis
  proof (cases "owner m")
    case None
    then have "holds m = (\<lambda>_. 0)" by (simp add: holds_def fun_eq_iff)
    then show ?thesis using None Acquire by (auto simp: lock_defs holds_def fun_eq_iff)
  next
    case (Some u)
    then have h: "holds m = (\<lambda>t. if t = u then depth m else 0)" and d: "depth m \<noteq> 0" and "recursive m"
      using assms by (auto simp: holds_def lock_ok_def fun_eq_iff)
    then show ?thesis using Some Acquire by (auto simp: lock_defs holds_def EAGAIN_def fun_eq_iff)
  qed
next
  case Release
  then show ?thesis using assms by (auto simp: lock_defs holds_def lock_ok_def EPERM_def fun_eq_iff)
qed

lemma lock_call_good: "lock_ok m \<Longrightarrow> CxPlatLock (Suc L) meth t m = Some (Inr m') \<Longrightarrow> lock_ok m'"
  by (cases meth) (auto simp: lock_defs lock_ok_def split: option.splits if_splits)

lemma CxPlatLockDispatch_eq: "CxPlatLockDispatch = CxPlatLock"
proof (intro ext)
  fix L m t s show "CxPlatLockDispatch L m t s = CxPlatLock L m t s" by (cases m) (simp_all add: lock_defs)
qed

lemma rw_call_refines:
  assumes "rw_ok l"
  shows "map_option (map_sum id rw_view) (CxPlatRwLock L meth t l) = rw_spec L meth t (rw_view l)"
  using assms by (cases meth) (auto simp: rw_defs rw_view_def rw_ok_def EDEADLK_def EAGAIN_def split: option.splits)

lemma rw_call_good: "rw_ok l \<Longrightarrow> CxPlatRwLock L meth t l = Some (Inr l') \<Longrightarrow> rw_ok l'"
  by (cases meth) (auto simp: rw_defs rw_ok_def split: option.splits if_splits)

lemma CxPlatRwLockDispatch_eq: "CxPlatRwLockDispatch = CxPlatRwLock"
proof (intro ext)
  fix L m t s show "CxPlatRwLockDispatch L m t s = CxPlatRwLock L m t s" by (cases m) (simp_all add: rw_defs)
qed

interpretation mutex: lock_class "CxPlatLock (Suc L)" lock_ok holds "recursive_lock (Suc L)" for L
  by unfold_locales (rule lock_call_refines, assumption, erule (1) lock_call_good)

interpretation rwlock: lock_class "CxPlatRwLock L" rw_ok rw_view "rw_spec L" for L
  by unfold_locales (rule rw_call_refines, assumption, erule (1) rw_call_good)

text \<open>
  \<open>CxPlatLock\<close> and \<open>CxPlatLockDispatch\<close> on POSIX: over any sequence of calls by any threads, the initialised
  mutex behaves as a recursive lock that only counts holds, blocked calls and failed assertions included:
  a release without a hold fails its assertion. Two different threads never hold it
  at once, and destroying it is refused exactly while somebody does.
\<close>

theorem CxPlatLock_refines_recursive_lock:
  assumes "posix_CxPlatLockInitialize Result = Inr m0"
  shows "map_option (map_sum id holds) (lock_run (CxPlatLock (Suc L)) ops m0) = lock_run (recursive_lock (Suc L)) ops (\<lambda>_. 0) \<and>
    posix_CxPlatDispatchLockInitialize Result = Inr m0 \<and> posix_CxPlatDispatchLockUninitialize = posix_CxPlatLockUninitialize \<and>
    lock_run (CxPlatLockDispatch (Suc L)) ops m0 = lock_run (CxPlatLock (Suc L)) ops m0 \<and>
    (\<forall>m t u. lock_run (CxPlatLock (Suc L)) ops m0 = Some (Inr m) \<longrightarrow>
       (holds m t \<noteq> 0 \<and> holds m u \<noteq> 0 \<longrightarrow> t = u) \<and>
       posix_CxPlatLockUninitialize m = (if \<forall>t. holds m t = 0 then Inr () else Inl AssertFailed))"
proof (intro conjI allI impI)
  have m0: "lock_ok m0" "holds m0 = (\<lambda>_. 0)"
    using assms by (auto simp: posix_CxPlatLockInitialize_def lock_ok_def holds_def fun_eq_iff split: prod.splits)
  show "map_option (map_sum id holds) (lock_run (CxPlatLock (Suc L)) ops m0) = lock_run (recursive_lock (Suc L)) ops (\<lambda>_. 0)"
    using mutex.run_refines [OF m0(1)] m0(2) by simp
  fix m t u assume run: "lock_run (CxPlatLock (Suc L)) ops m0 = Some (Inr m)"
  show "posix_CxPlatLockUninitialize m = (if \<forall>t. holds m t = 0 then Inr () else Inl AssertFailed)"
    using mutex.run_good [OF m0(1) run]
    by (auto simp: posix_CxPlatLockUninitialize_def pthread_mutex_destroy_def lock_ok_def holds_def EBUSY_def)
  show "t = u" if "holds m t \<noteq> 0 \<and> holds m u \<noteq> 0" using that by (auto simp: holds_def split: if_splits)
qed (simp_all add: CxPlatLockDispatch_eq assms posix_CxPlatDispatchLockInitialize_def posix_CxPlatDispatchLockUninitialize_def)

theorem CxPlatLock_refines_recursive_lock_witness:
  "lock_run (recursive_lock (Suc 2)) [(1, Acquire), (1, Acquire), (1, Release), (2, Acquire)] (\<lambda>_. 0) = None \<and>
   lock_run (recursive_lock (Suc 2)) [(1, Acquire), (2, Release)] (\<lambda>_. 0) = Some (Inl AssertFailed)"
proof -
  let ?m0 = "\<lparr>owner = None, depth = 0, recursive = True\<rparr>"
  let ?a = "[(1::nat, Acquire), (1, Acquire), (1, Release), (2, Acquire)]" and ?b = "[(1::nat, Acquire), (2, Release)]"
  have i: "posix_CxPlatLockInitialize (0, 0, 0, 0) = Inr ?m0" by (simp add: posix_CxPlatLockInitialize_def)
  have "lock_run (CxPlatLock (Suc 2)) ?a ?m0 = None" and "lock_run (CxPlatLock (Suc 2)) ?b ?m0 = Some (Inl AssertFailed)"
    by (simp_all add: lock_defs EPERM_def)
  with conjunct1 [OF CxPlatLock_refines_recursive_lock [OF i, of 2 ?a]] conjunct1 [OF CxPlatLock_refines_recursive_lock [OF i, of 2 ?b]]
  show ?thesis by (simp only: option.map map_sum.simps id_apply)
qed



end
