(* ===== verification/CxDispatch.thy ===== *)
theory CxDispatch
  imports CxLock
begin

text \<open>
  The locks of \<open>inc/cxplat_winkernel.h\<close>: push locks inside critical regions, and dispatch locks that keep the
  interrupt request level to go back to in a field beside the spin lock. Each macro is the
  sequence of its statements; any number of processors (threads, for push locks) run
  them in any order. The kernel's own lock primitives are an argument, with their documented contract.
\<close>

section \<open>The macros\<close>

definition DISPATCH_LEVEL :: nat where "DISPATCH_LEVEL = 2"

datatype kstatement =
    enter_region
  | leave_region
  | acquire_exclusive
  | acquire_shared
  | store_PrevIrql
  | load_PrevIrql
  | release_exclusive
  | release_shared

definition winkernel_CxPlatLockAcquire :: "kstatement list" where
  "winkernel_CxPlatLockAcquire = [enter_region, acquire_exclusive]"

definition winkernel_CxPlatLockRelease :: "kstatement list" where
  "winkernel_CxPlatLockRelease = [release_exclusive, leave_region]"

definition winkernel_CxPlatDispatchLockAcquire :: "kstatement list" where
  "winkernel_CxPlatDispatchLockAcquire = [acquire_exclusive, store_PrevIrql]"

definition winkernel_CxPlatDispatchLockRelease :: "kstatement list" where
  "winkernel_CxPlatDispatchLockRelease = [load_PrevIrql, release_exclusive]"

definition winkernel_CxPlatRwLockAcquireShared :: "kstatement list" where
  "winkernel_CxPlatRwLockAcquireShared = [enter_region, acquire_shared]"

definition winkernel_CxPlatRwLockAcquireExclusive :: "kstatement list" where
  "winkernel_CxPlatRwLockAcquireExclusive = [enter_region, acquire_exclusive]"

definition winkernel_CxPlatRwLockReleaseShared :: "kstatement list" where
  "winkernel_CxPlatRwLockReleaseShared = [release_shared, leave_region]"

definition winkernel_CxPlatRwLockReleaseExclusive :: "kstatement list" where
  "winkernel_CxPlatRwLockReleaseExclusive = [release_exclusive, leave_region]"

definition winkernel_CxPlatDispatchRwLockAcquireShared :: "kstatement list" where
  "winkernel_CxPlatDispatchRwLockAcquireShared = [acquire_shared, store_PrevIrql]"

definition winkernel_CxPlatDispatchRwLockAcquireExclusive :: "kstatement list" where
  "winkernel_CxPlatDispatchRwLockAcquireExclusive = [acquire_exclusive, store_PrevIrql]"

definition winkernel_CxPlatDispatchRwLockReleaseShared :: "kstatement list" where
  "winkernel_CxPlatDispatchRwLockReleaseShared = [load_PrevIrql, release_shared]"

definition winkernel_CxPlatDispatchRwLockReleaseExclusive :: "kstatement list" where
  "winkernel_CxPlatDispatchRwLockReleaseExclusive = [load_PrevIrql, release_exclusive]"

text \<open>The four lock types and the macros they have.\<close>

datatype lock_family = PushLock | DispatchLock | PushRwLock | DispatchRwLock

fun macro :: "lock_family \<Rightarrow> rw_method \<Rightarrow> kstatement list option" where
  "macro PushLock AcquireExclusive = Some winkernel_CxPlatLockAcquire"
| "macro PushLock ReleaseExclusive = Some winkernel_CxPlatLockRelease"
| "macro PushLock _ = None"
| "macro DispatchLock AcquireExclusive = Some winkernel_CxPlatDispatchLockAcquire"
| "macro DispatchLock ReleaseExclusive = Some winkernel_CxPlatDispatchLockRelease"
| "macro DispatchLock _ = None"
| "macro PushRwLock AcquireShared = Some winkernel_CxPlatRwLockAcquireShared"
| "macro PushRwLock AcquireExclusive = Some winkernel_CxPlatRwLockAcquireExclusive"
| "macro PushRwLock ReleaseShared = Some winkernel_CxPlatRwLockReleaseShared"
| "macro PushRwLock ReleaseExclusive = Some winkernel_CxPlatRwLockReleaseExclusive"
| "macro DispatchRwLock AcquireShared = Some winkernel_CxPlatDispatchRwLockAcquireShared"
| "macro DispatchRwLock AcquireExclusive = Some winkernel_CxPlatDispatchRwLockAcquireExclusive"
| "macro DispatchRwLock ReleaseShared = Some winkernel_CxPlatDispatchRwLockReleaseShared"
| "macro DispatchRwLock ReleaseExclusive = Some winkernel_CxPlatDispatchRwLockReleaseExclusive"

section \<open>The kernel's primitives\<close>

text \<open>
  An acquisition, given the lock and the level of the processor, yields nothing while it has to
  wait, or the new lock, the new level and the level it hands back. A release, given also
  the level it is told to restore, yields the new lock and the new level.
\<close>

record 's lock_api =
  InitialLock :: 's
  TryExclusive :: "'s \<Rightarrow> nat \<Rightarrow> ('s \<times> nat \<times> nat) option"
  TryShared :: "'s \<Rightarrow> nat \<Rightarrow> ('s \<times> nat \<times> nat) option"
  DropExclusive :: "'s \<Rightarrow> nat \<Rightarrow> nat \<Rightarrow> 's \<times> nat"
  DropShared :: "'s \<Rightarrow> nat \<Rightarrow> nat \<Rightarrow> 's \<times> nat"

datatype lock_mode = Free | Shared nat | Exclusive

text \<open>
  The contract of the push lock and spin lock routines: one exclusive holder or several shared ones. Spin
  locks also raise to \<open>DISPATCH_LEVEL\<close> and hand back the level before; releasing goes to the level it is given.
\<close>

definition documented_lock :: "'s lock_api \<Rightarrow> ('s \<Rightarrow> lock_mode) \<Rightarrow> bool" where
  "documented_lock K mode \<longleftrightarrow> mode (InitialLock K) = Free \<and>
     (\<forall>s i s' r. TryExclusive K s i = Some (s', r) \<longrightarrow> mode s = Free \<and> mode s' = Exclusive) \<and>
     (\<forall>s i s' r. TryShared K s i = Some (s', r) \<longrightarrow>
        mode s = Free \<and> mode s' = Shared 1 \<or> (\<exists>n. mode s = Shared n \<and> mode s' = Shared (Suc n))) \<and>
     (\<forall>s p i. mode s = Exclusive \<longrightarrow> mode (fst (DropExclusive K s p i)) = Free) \<and>
     (\<forall>s p i n. mode s = Shared (Suc n) \<longrightarrow> mode (fst (DropShared K s p i)) = (if n = 0 then Free else Shared n))"

definition documented_levels :: "'s lock_api \<Rightarrow> bool" where
  "documented_levels K \<longleftrightarrow>
     (\<forall>s i s' i' old. TryExclusive K s i = Some (s', i', old) \<longrightarrow> i' = DISPATCH_LEVEL \<and> old = i) \<and>
     (\<forall>s i s' i' old. TryShared K s i = Some (s', i', old) \<longrightarrow> i' = DISPATCH_LEVEL \<and> old = i) \<and>
     (\<forall>s p i. snd (DropExclusive K s p i) = p) \<and> (\<forall>s p i. snd (DropShared K s p i) = p)"

section \<open>The machine\<close>

datatype holding = Out | Shar | Excl

text \<open>
  A processor: the statements it still has to run, its temporary, its level, the number of critical
  regions it is in, how it holds the lock, and the level it was at by its own choice.
\<close>

record processor =
  todo :: "kstatement list"
  Temp :: nat
  irql :: nat
  regions :: nat
  inside :: holding
  came_from :: nat

record 's CXPLAT_DISPATCH_RW_LOCK =
  SpinLock :: 's
  PrevIrql :: nat

type_synonym 's kmachine = "'s CXPLAT_DISPATCH_RW_LOCK \<times> (nat \<Rightarrow> processor)"

text \<open>One statement; \<open>None\<close> while an acquisition waits.\<close>

fun kexec :: "'s lock_api \<Rightarrow> kstatement \<Rightarrow> 's CXPLAT_DISPATCH_RW_LOCK \<Rightarrow> processor \<Rightarrow> ('s CXPLAT_DISPATCH_RW_LOCK \<times> processor) option" where
  "kexec K enter_region L p = Some (L, p\<lparr>regions := Suc (regions p)\<rparr>)"
| "kexec K leave_region L p = Some (L, p\<lparr>regions := regions p - 1\<rparr>)"
| "kexec K acquire_exclusive L p = (case TryExclusive K (SpinLock L) (irql p) of
      None \<Rightarrow> None
    | Some (s, i, old) \<Rightarrow> Some (L\<lparr>SpinLock := s\<rparr>, p\<lparr>irql := i, Temp := old, inside := Excl\<rparr>))"
| "kexec K acquire_shared L p = (case TryShared K (SpinLock L) (irql p) of
      None \<Rightarrow> None
    | Some (s, i, old) \<Rightarrow> Some (L\<lparr>SpinLock := s\<rparr>, p\<lparr>irql := i, Temp := old, inside := Shar\<rparr>))"
| "kexec K store_PrevIrql L p = Some (L\<lparr>PrevIrql := Temp p\<rparr>, p)"
| "kexec K load_PrevIrql L p = Some (L, p\<lparr>Temp := PrevIrql L\<rparr>)"
| "kexec K release_exclusive L p = (case DropExclusive K (SpinLock L) (Temp p) (irql p) of
      (s, i) \<Rightarrow> Some (L\<lparr>SpinLock := s\<rparr>, p\<lparr>irql := i, inside := Out\<rparr>))"
| "kexec K release_shared L p = (case DropShared K (SpinLock L) (Temp p) (irql p) of
      (s, i) \<Rightarrow> Some (L\<lparr>SpinLock := s\<rparr>, p\<lparr>irql := i, inside := Out\<rparr>))"

fun method_from :: "holding \<Rightarrow> rw_method \<Rightarrow> bool" where
  "method_from Out m \<longleftrightarrow> m = AcquireShared \<or> m = AcquireExclusive"
| "method_from Shar m \<longleftrightarrow> m = ReleaseShared"
| "method_from Excl m \<longleftrightarrow> m = ReleaseExclusive"

text \<open>
  Processors call the macros in turn, at any level; \<open>lv\<close> restricts the levels at which the lock is
  acquired shared. Outside they change their level at will.
\<close>

inductive kstep :: "lock_family \<Rightarrow> 's lock_api \<Rightarrow> (nat \<Rightarrow> bool) \<Rightarrow> 's kmachine \<Rightarrow> 's kmachine \<Rightarrow> bool"
  for f K lv where
  change_level: "todo (ps c) = [] \<Longrightarrow> inside (ps c) = Out \<Longrightarrow> i \<le> DISPATCH_LEVEL \<Longrightarrow>
    kstep f K lv (L, ps) (L, ps(c := (ps c)\<lparr>irql := i, came_from := i\<rparr>))"
| call_macro: "todo (ps c) = [] \<Longrightarrow> method_from (inside (ps c)) m \<Longrightarrow> macro f m = Some body \<Longrightarrow>
    (m = AcquireShared \<longrightarrow> lv (irql (ps c))) \<Longrightarrow>
    kstep f K lv (L, ps) (L, ps(c := (ps c)\<lparr>todo := body\<rparr>))"
| run_statement: "todo (ps c) = st # rest \<Longrightarrow> kexec K st L (ps c) = Some (L', p) \<Longrightarrow>
    kstep f K lv (L, ps) (L', ps(c := p\<lparr>todo := rest\<rparr>))"

inductive_cases kstepE: "kstep f K lv M M'"

text \<open>The initialisation macros set the lock word and leave \<open>PrevIrql\<close> as it is; the others do nothing.\<close>

definition winkernel_CxPlatLockInitialize :: "'s lock_api \<Rightarrow> 's CXPLAT_DISPATCH_RW_LOCK \<Rightarrow> 's CXPLAT_DISPATCH_RW_LOCK" where
  "winkernel_CxPlatLockInitialize K L = L\<lparr>SpinLock := InitialLock K\<rparr>"

definition winkernel_CxPlatDispatchLockInitialize :: "'s lock_api \<Rightarrow> 's CXPLAT_DISPATCH_RW_LOCK \<Rightarrow> 's CXPLAT_DISPATCH_RW_LOCK" where
  "winkernel_CxPlatDispatchLockInitialize K L = L\<lparr>SpinLock := InitialLock K\<rparr>"

definition winkernel_CxPlatRwLockInitialize :: "'s lock_api \<Rightarrow> 's CXPLAT_DISPATCH_RW_LOCK \<Rightarrow> 's CXPLAT_DISPATCH_RW_LOCK" where
  "winkernel_CxPlatRwLockInitialize K L = L\<lparr>SpinLock := InitialLock K\<rparr>"

definition winkernel_CxPlatDispatchRwLockInitialize :: "'s lock_api \<Rightarrow> 's CXPLAT_DISPATCH_RW_LOCK \<Rightarrow> 's CXPLAT_DISPATCH_RW_LOCK" where
  "winkernel_CxPlatDispatchRwLockInitialize K L = L\<lparr>SpinLock := InitialLock K\<rparr>"

definition winkernel_CxPlatLockUninitialize :: "'s CXPLAT_DISPATCH_RW_LOCK \<Rightarrow> 's CXPLAT_DISPATCH_RW_LOCK" where
  "winkernel_CxPlatLockUninitialize L = L"

definition winkernel_CxPlatDispatchLockUninitialize :: "'s CXPLAT_DISPATCH_RW_LOCK \<Rightarrow> 's CXPLAT_DISPATCH_RW_LOCK" where
  "winkernel_CxPlatDispatchLockUninitialize L = L"

definition winkernel_CxPlatRwLockUninitialize :: "'s CXPLAT_DISPATCH_RW_LOCK \<Rightarrow> 's CXPLAT_DISPATCH_RW_LOCK" where
  "winkernel_CxPlatRwLockUninitialize L = L"

definition winkernel_CxPlatDispatchRwLockUninitialize :: "'s CXPLAT_DISPATCH_RW_LOCK \<Rightarrow> 's CXPLAT_DISPATCH_RW_LOCK" where
  "winkernel_CxPlatDispatchRwLockUninitialize L = L"

fun initialize_macro :: "lock_family \<Rightarrow> 's lock_api \<Rightarrow> 's CXPLAT_DISPATCH_RW_LOCK \<Rightarrow> 's CXPLAT_DISPATCH_RW_LOCK" where
  "initialize_macro PushLock = winkernel_CxPlatLockInitialize"
| "initialize_macro DispatchLock = winkernel_CxPlatDispatchLockInitialize"
| "initialize_macro PushRwLock = winkernel_CxPlatRwLockInitialize"
| "initialize_macro DispatchRwLock = winkernel_CxPlatDispatchRwLockInitialize"

definition kstart :: "lock_family \<Rightarrow> 's lock_api \<Rightarrow> 's kmachine \<Rightarrow> bool" where
  "kstart f K = (\<lambda>(L, ps). (\<exists>L0. L = initialize_macro f K L0) \<and>
     (\<forall>c. todo (ps c) = [] \<and> inside (ps c) = Out \<and> regions (ps c) = 0 \<and> irql (ps c) = came_from (ps c)))"

lemma initialized_lock: "(\<exists>L0. L = initialize_macro f K L0) \<longleftrightarrow> SpinLock L = InitialLock K"
proof
  assume "SpinLock L = InitialLock K"
  then have "L = initialize_macro f K L"
    by (cases f) (simp_all add: winkernel_CxPlatLockInitialize_def winkernel_CxPlatDispatchLockInitialize_def
        winkernel_CxPlatRwLockInitialize_def winkernel_CxPlatDispatchRwLockInitialize_def)
  then show "\<exists>L0. L = initialize_macro f K L0" by blast
qed (cases f; auto simp: winkernel_CxPlatLockInitialize_def winkernel_CxPlatDispatchLockInitialize_def
        winkernel_CxPlatRwLockInitialize_def winkernel_CxPlatDispatchRwLockInitialize_def)

lemma kstart_iff: "kstart f K (L, ps) \<longleftrightarrow> SpinLock L = InitialLock K \<and>
    (\<forall>c. todo (ps c) = [] \<and> inside (ps c) = Out \<and> regions (ps c) = 0 \<and> irql (ps c) = came_from (ps c))"
  by (simp add: kstart_def initialized_lock)

section \<open>Invariants\<close>

text \<open>Where a processor can be in the macros of a family: how it holds the lock, what is left to run, its regions.\<close>

definition dispatch_phases :: "(holding \<times> kstatement list \<times> nat) set" where
  "dispatch_phases = {(Out, [], 0), (Out, [acquire_exclusive, store_PrevIrql], 0), (Excl, [store_PrevIrql], 0), (Excl, [], 0),
     (Excl, [load_PrevIrql, release_exclusive], 0), (Excl, [release_exclusive], 0)}"

definition push_phases :: "(holding \<times> kstatement list \<times> nat) set" where
  "push_phases = {(Out, [], 0), (Out, [enter_region, acquire_exclusive], 0), (Out, [acquire_exclusive], 1), (Excl, [], 1),
     (Excl, [release_exclusive, leave_region], 1), (Out, [leave_region], 1)}"

fun phases :: "lock_family \<Rightarrow> (holding \<times> kstatement list \<times> nat) set" where
  "phases DispatchLock = dispatch_phases"
| "phases DispatchRwLock = dispatch_phases \<union> {(Out, [acquire_shared, store_PrevIrql], 0), (Shar, [store_PrevIrql], 0),
     (Shar, [], 0), (Shar, [load_PrevIrql, release_shared], 0), (Shar, [release_shared], 0)}"
| "phases PushLock = push_phases"
| "phases PushRwLock = push_phases \<union> {(Out, [enter_region, acquire_shared], 0), (Out, [acquire_shared], 1), (Shar, [], 1),
     (Shar, [release_shared, leave_region], 1)}"

definition phase :: "lock_family \<Rightarrow> processor \<Rightarrow> bool" where
  "phase f p \<longleftrightarrow> (inside p, todo p, regions p) \<in> phases f"

text \<open>The lock's mode tells who is inside.\<close>

definition holders :: "(nat \<Rightarrow> processor) \<Rightarrow> nat set" where
  "holders ps = {c. inside (ps c) = Shar}"

definition modes_ok :: "('s \<Rightarrow> lock_mode) \<Rightarrow> 's \<Rightarrow> (nat \<Rightarrow> processor) \<Rightarrow> bool" where
  "modes_ok mode s ps \<longleftrightarrow> finite (holders ps) \<and>
     (\<forall>c. inside (ps c) = Excl \<longrightarrow> mode s = Exclusive \<and> (\<forall>d. d \<noteq> c \<longrightarrow> inside (ps d) = Out)) \<and>
     (holders ps \<noteq> {} \<longrightarrow> mode s = Shared (card (holders ps))) \<and>
     (\<forall>n. mode s = Shared n \<longrightarrow> card (holders ps) = n)"

lemmas macro_defs = winkernel_CxPlatLockAcquire_def winkernel_CxPlatLockRelease_def winkernel_CxPlatDispatchLockAcquire_def
  winkernel_CxPlatDispatchLockRelease_def winkernel_CxPlatRwLockAcquireShared_def winkernel_CxPlatRwLockAcquireExclusive_def
  winkernel_CxPlatRwLockReleaseShared_def winkernel_CxPlatRwLockReleaseExclusive_def
  winkernel_CxPlatDispatchRwLockAcquireShared_def winkernel_CxPlatDispatchRwLockAcquireExclusive_def
  winkernel_CxPlatDispatchRwLockReleaseShared_def winkernel_CxPlatDispatchRwLockReleaseExclusive_def

lemma phase_call:
  assumes "phase f p" and "todo p = []" and "method_from (inside p) m" and "macro f m = Some body"
  shows "phase f (p\<lparr>todo := body\<rparr>)"
proof -
  have b: "body = the (macro f m)" and n: "macro f m \<noteq> None" using assms(4) by simp_all
  show ?thesis unfolding b using assms(1-3) n
    by (cases f; cases m; cases "inside p") (simp_all add: phase_def dispatch_phases_def push_phases_def macro_defs)
qed

text \<open>What a statement does to a processor's hold and its regions.\<close>

fun hold_after :: "kstatement \<Rightarrow> holding \<Rightarrow> holding" where
  "hold_after acquire_exclusive h = Excl"
| "hold_after acquire_shared h = Shar"
| "hold_after release_exclusive h = Out"
| "hold_after release_shared h = Out"
| "hold_after _ h = h"

fun regions_after :: "kstatement \<Rightarrow> nat \<Rightarrow> nat" where
  "regions_after enter_region n = Suc n"
| "regions_after leave_region n = n - 1"
| "regions_after _ n = n"

lemma kexec_fields:
  assumes "kexec K st L p = Some (L', p')"
  shows "inside p' = hold_after st (inside p) \<and> regions p' = regions_after st (regions p) \<and>
    came_from p' = came_from p \<and> todo p' = todo p"
  using assms by (cases st) (auto split: option.splits prod.splits)

lemma phases_advance:
  "\<forall>(h, ts, n) \<in> phases f. ts = [] \<or> (hold_after (hd ts) h, tl ts, regions_after (hd ts) n) \<in> phases f"
  by (cases f) (simp_all add: dispatch_phases_def push_phases_def)

lemma phase_run:
  assumes "phase f p" and "todo p = st # rest" and "kexec K st L p = Some (L', p')"
  shows "phase f (p'\<lparr>todo := rest\<rparr>)"
  using kexec_fields [OF assms(3)] bspec [OF phases_advance assms(1) [unfolded phase_def]] assms(2)
  by (simp add: phase_def)

lemma phase_release:
  "phase f p \<Longrightarrow> todo p = release_exclusive # rest \<Longrightarrow> inside p = Excl"
  "phase f p \<Longrightarrow> todo p = release_shared # rest \<Longrightarrow> inside p = Shar"
  "phase f p \<Longrightarrow> todo p = acquire_exclusive # rest \<Longrightarrow> inside p = Out"
  "phase f p \<Longrightarrow> todo p = acquire_shared # rest \<Longrightarrow> inside p = Out"
  by (cases f; auto simp: phase_def dispatch_phases_def push_phases_def)+

lemma modes_ok_same:
  assumes "modes_ok mode s ps" and i: "inside p = inside (ps c)"
  shows "modes_ok mode s (ps(c := p))"
proof -
  have "inside ((ps(c := p)) d) = inside (ps d)" for d using i by simp
  then have "modes_ok mode s (ps(c := p)) = modes_ok mode s ps" by (simp only: modes_ok_def holders_def)
  then show ?thesis using assms(1) by simp
qed

lemma modes_ok_exclusive:
  assumes "modes_ok mode s ps" and "mode s = Free" and "mode s' = Exclusive" and "inside p = Excl"
  shows "modes_ok mode s' (ps(c := p))"
proof -
  have out: "inside (ps d) = Out" for d
    using assms(1,2) by (cases "inside (ps d)") (auto simp: modes_ok_def holders_def)
  then have "holders (ps(c := p)) = {}" using assms(4) by (auto simp: holders_def)
  then show ?thesis using assms out by (auto simp: modes_ok_def)
qed

lemma modes_ok_shared:
  assumes "modes_ok mode s ps" and "mode s = Free \<and> mode s' = Shared 1 \<or> (\<exists>n. mode s = Shared n \<and> mode s' = Shared (Suc n))"
    and "inside (ps c) = Out" and "inside p = Shar"
  shows "modes_ok mode s' (ps(c := p))"
proof -
  have h: "holders (ps(c := p)) = insert c (holders ps)" and c: "c \<notin> holders ps"
    using assms(3,4) by (auto simp: holders_def)
  have "mode s' = Shared (Suc (card (holders ps)))"
    using assms(1,2) by (auto simp: modes_ok_def)
  moreover have "inside ((ps(c := p)) d) \<noteq> Excl" for d
    using assms(1,2,4) by (auto simp: modes_ok_def)
  ultimately show ?thesis using assms(1) h c by (auto simp: modes_ok_def)
qed

lemma modes_ok_drop_exclusive:
  assumes "modes_ok mode s ps" and "inside (ps c) = Excl" and "mode s' = Free" and "inside p = Out"
  shows "modes_ok mode s' (ps(c := p))"
proof -
  have out: "inside ((ps(c := p)) d) = Out" for d using assms by (auto simp: modes_ok_def)
  then have "holders (ps(c := p)) = {}" by (simp only: holders_def) simp
  then show ?thesis using out assms(3) unfolding modes_ok_def by (metis (no_types) finite.emptyI holding.distinct(3) lock_mode.distinct(1))
qed

lemma modes_ok_drop_shared:
  assumes "modes_ok mode s ps" and "inside (ps c) = Shar" and "inside p = Out"
    and "\<And>n. mode s = Shared (Suc n) \<Longrightarrow> mode s' = (if n = 0 then Free else Shared n)"
  shows "modes_ok mode s' (ps(c := p))"
proof -
  have h: "holders (ps(c := p)) = holders ps - {c}" and c: "c \<in> holders ps" and fin: "finite (holders ps)"
    using assms(1-3) by (auto simp: holders_def modes_ok_def)
  then obtain n where n: "card (holders ps) = Suc n" by (cases "card (holders ps)") auto
  then have "mode s = Shared (Suc n)" using assms(1) c by (auto simp: modes_ok_def)
  then have m: "mode s' = (if n = 0 then Free else Shared n)" by (rule assms(4))
  have n': "card (holders ps - {c}) = n" using n c by simp
  have "inside ((ps(c := p)) d) \<noteq> Excl" for d
    using assms(1-3) by (auto simp: modes_ok_def)
  then show ?thesis using h m n' fin by (auto simp: modes_ok_def split: if_splits)
qed

definition kinv :: "lock_family \<Rightarrow> ('s \<Rightarrow> lock_mode) \<Rightarrow> 's kmachine \<Rightarrow> bool" where
  "kinv f mode = (\<lambda>(L, ps). modes_ok mode (SpinLock L) ps \<and> (\<forall>c. phase f (ps c)))"

lemma kexec_modes:
  assumes K: "documented_lock K mode" and inv: "kinv f mode (L, ps)" and t: "todo (ps c) = st # rest"
    and x: "kexec K st L (ps c) = Some (L', p)"
  shows "modes_ok mode (SpinLock L') (ps(c := p\<lparr>todo := rest\<rparr>))"
proof -
  have m: "modes_ok mode (SpinLock L) ps" and ph: "phase f (ps c)" using inv by (simp_all add: kinv_def)
  note hold = kexec_fields [OF x, THEN conjunct1]
  show ?thesis
  proof (cases st)
    case acquire_exclusive
    then have "mode (SpinLock L) = Free" "mode (SpinLock L') = Exclusive"
      using x K by (fastforce simp: documented_lock_def split: option.splits)+
    then show ?thesis using m hold acquire_exclusive by (intro modes_ok_exclusive [OF m]) simp_all
  next
    case acquire_shared
    then obtain s i old where "TryShared K (SpinLock L) (irql (ps c)) = Some (s, i, old)" and "SpinLock L' = s"
      using x by (auto split: option.splits)
    moreover have "mode (SpinLock L) = Free \<and> mode s = Shared 1 \<or> (\<exists>n. mode (SpinLock L) = Shared n \<and> mode s = Shared (Suc n))"
      if "TryShared K (SpinLock L) i = Some (s, r)" for i s r using K that unfolding documented_lock_def by blast
    ultimately show ?thesis using hold acquire_shared phase_release(4) [OF ph] t
      by (intro modes_ok_shared [OF m]) (blast, simp_all)
  next
    case release_exclusive
    have e: "inside (ps c) = Excl" by (rule phase_release(1) [OF ph t [unfolded release_exclusive]])
    moreover have "SpinLock L' = fst (DropExclusive K (SpinLock L) (Temp (ps c)) (irql (ps c)))"
      using x release_exclusive by (auto split: prod.splits)
    moreover have "mode (SpinLock L) = Exclusive" using m e by (auto simp: modes_ok_def)
    ultimately show ?thesis using K hold release_exclusive
      by (intro modes_ok_drop_exclusive [OF m]) (simp_all add: documented_lock_def)
  next
    case release_shared
    have e: "inside (ps c) = Shar" by (rule phase_release(2) [OF ph t [unfolded release_shared]])
    have "SpinLock L' = fst (DropShared K (SpinLock L) (Temp (ps c)) (irql (ps c)))"
      using x release_shared by (auto split: prod.splits)
    then show ?thesis using K hold release_shared e
      by (intro modes_ok_drop_shared [OF m]) (simp_all add: documented_lock_def)
  qed (use x hold m in \<open>auto intro!: modes_ok_same\<close>)
qed

lemma kinv_step:
  assumes K: "documented_lock K mode" and inv: "kinv f mode M" and step: "kstep f K lv M M'"
  shows "kinv f mode M'"
  using step
proof (cases rule: kstep.cases)
  case (change_level ps c i L)
  moreover have "phase f (ps c)" using inv change_level(1) by (simp add: kinv_def)
  ultimately show ?thesis using inv by (auto simp: kinv_def phase_def intro!: modes_ok_same)
next
  case (call_macro ps c m body L)
  then show ?thesis using inv phase_call [of f "ps c" m body] by (auto simp: kinv_def intro!: modes_ok_same)
next
  case (run_statement ps c st rest L L' p)
  have "phase f (p\<lparr>todo := rest\<rparr>)"
    using run_statement(3,4) inv run_statement(1) by (intro phase_run [where p = "ps c"]) (auto simp: kinv_def)
  moreover have "modes_ok mode (SpinLock L') (ps(c := p\<lparr>todo := rest\<rparr>))"
    using kexec_modes [OF K, of f L ps c st rest L' p] run_statement inv by simp
  ultimately show ?thesis using inv run_statement(1,2) by (simp add: kinv_def)
qed

lemma kinv_start: "documented_lock K mode \<Longrightarrow> kstart f K M \<Longrightarrow> kinv f mode M"
  by (cases M; cases f) (simp_all add: kstart_iff kinv_def modes_ok_def holders_def phase_def documented_lock_def dispatch_phases_def push_phases_def)

lemma reachable_kinv:
  assumes "documented_lock K mode" and "reachable (kstart f K) (kstep f K lv) M"
  shows "kinv f mode M"
  using assms(2) by (induction rule: reachable.induct) (auto intro: kinv_start [OF assms(1)] kinv_step [OF assms(1)])

section \<open>Levels\<close>

text \<open>
  What the dispatch locks keep of the levels, as long as shared acquisitions come from one level only:
  the temporary holds the level to go back to where it is about to be stored or used, and the lock's field
  holds it in between.
\<close>

definition level_ok :: "(nat \<Rightarrow> bool) \<Rightarrow> nat \<Rightarrow> processor \<Rightarrow> bool" where
  "level_ok lv prev p \<longleftrightarrow> (inside p = Out \<longrightarrow> irql p = came_from p) \<and>
     (todo p = [store_PrevIrql] \<or> todo p = [release_exclusive] \<or> todo p = [release_shared] \<longrightarrow> Temp p = came_from p) \<and>
     (inside p \<noteq> Out \<and> (todo p = [] \<or> todo p = [load_PrevIrql, release_exclusive] \<or> todo p = [load_PrevIrql, release_shared])
        \<longrightarrow> prev = came_from p) \<and>
     (inside p = Shar \<or> todo p = [acquire_shared, store_PrevIrql] \<longrightarrow> lv (came_from p))"

definition linv :: "lock_family \<Rightarrow> ('s \<Rightarrow> lock_mode) \<Rightarrow> (nat \<Rightarrow> bool) \<Rightarrow> 's kmachine \<Rightarrow> bool" where
  "linv f mode lv M \<longleftrightarrow> kinv f mode M \<and> (\<forall>c. level_ok lv (PrevIrql (fst M)) (snd M c))"

lemma dispatch_shapes:
  assumes "phase f p" and "f = DispatchLock \<or> f = DispatchRwLock" and "todo p = st # rest"
  shows "(st = acquire_exclusive \<and> rest = [store_PrevIrql] \<and> inside p = Out) \<or>
    (st = acquire_shared \<and> rest = [store_PrevIrql] \<and> inside p = Out) \<or>
    (st = store_PrevIrql \<and> rest = [] \<and> inside p \<noteq> Out) \<or>
    (st = load_PrevIrql \<and> rest = [release_exclusive] \<and> inside p = Excl) \<or>
    (st = load_PrevIrql \<and> rest = [release_shared] \<and> inside p = Shar) \<or>
    (st = release_exclusive \<and> rest = [] \<and> inside p = Excl) \<or> (st = release_shared \<and> rest = [] \<and> inside p = Shar)"
proof -
  have "\<forall>(h, ts, n) \<in> phases f. ts = [] \<or> (hd ts = acquire_exclusive \<and> tl ts = [store_PrevIrql] \<and> h = Out) \<or>
    (hd ts = acquire_shared \<and> tl ts = [store_PrevIrql] \<and> h = Out) \<or>
    (hd ts = store_PrevIrql \<and> tl ts = [] \<and> h \<noteq> Out) \<or>
    (hd ts = load_PrevIrql \<and> tl ts = [release_exclusive] \<and> h = Excl) \<or>
    (hd ts = load_PrevIrql \<and> tl ts = [release_shared] \<and> h = Shar) \<or>
    (hd ts = release_exclusive \<and> tl ts = [] \<and> h = Excl) \<or> (hd ts = release_shared \<and> tl ts = [] \<and> h = Shar)"
    using assms(2) by (elim disjE) (simp_all add: dispatch_phases_def)
  from bspec [OF this assms(1) [unfolded phase_def]] assms(3) show ?thesis by simp
qed

lemma level_ok_self:
  assumes K: "documented_levels K" and ph: "phase f p" and f: "f = DispatchLock \<or> f = DispatchRwLock"
    and t: "todo p = st # rest" and x: "kexec K st L p = Some (L', p')" and lv: "level_ok lv (PrevIrql L) p"
  shows "level_ok lv (PrevIrql L') (p'\<lparr>todo := rest\<rparr>)"
  using dispatch_shapes [OF ph f t]
proof (elim disjE conjE)
  assume "st = acquire_exclusive" "rest = [store_PrevIrql]" "inside p = Out"
  then show ?thesis using x lv K t by (fastforce simp: level_ok_def documented_levels_def split: option.splits)
next
  assume "st = acquire_shared" "rest = [store_PrevIrql]" "inside p = Out"
  then show ?thesis using x lv K t by (fastforce simp: level_ok_def documented_levels_def split: option.splits)
next
  assume s: "st = release_exclusive" "rest = []" "inside p = Excl"
  have "irql p' = snd (DropExclusive K (SpinLock L) (Temp p) (irql p))" using x s(1) by (auto split: prod.splits)
  then have "irql p' = Temp p" using K by (simp add: documented_levels_def)
  moreover have "inside p' = Out" "came_from p' = came_from p" using kexec_fields [OF x] s by simp_all
  ultimately show ?thesis using lv t s by (simp add: level_ok_def)
next
  assume s: "st = release_shared" "rest = []" "inside p = Shar"
  have "irql p' = snd (DropShared K (SpinLock L) (Temp p) (irql p))" using x s(1) by (auto split: prod.splits)
  then have "irql p' = Temp p" using K by (simp add: documented_levels_def)
  moreover have "inside p' = Out" "came_from p' = came_from p" using kexec_fields [OF x] s by simp_all
  ultimately show ?thesis using lv t s by (simp add: level_ok_def)
qed (use x lv t in \<open>auto simp: level_ok_def\<close>)

text \<open>A store changes what another processor relies on only if that one is inside as well, so shared.\<close>

lemma level_ok_other:
  assumes ph: "phase f p" and f: "f = DispatchLock \<or> f = DispatchRwLock" and t: "todo p = st # rest"
    and x: "kexec K st L p = Some (L', p')" and lv: "level_ok lv (PrevIrql L) p" "level_ok lv (PrevIrql L) q"
    and one: "\<forall>i j. lv i \<longrightarrow> lv j \<longrightarrow> i = j" and together: "inside q \<noteq> Out \<Longrightarrow> inside p \<noteq> Out \<Longrightarrow> inside p = Shar \<and> inside q = Shar"
  shows "level_ok lv (PrevIrql L') q"
proof (cases "st = store_PrevIrql")
  case True
  then have p: "rest = []" "inside p \<noteq> Out" using dispatch_shapes [OF ph f t] by auto
  then have T: "Temp p = came_from p" and L: "PrevIrql L' = Temp p" using True lv(1) t x by (auto simp: level_ok_def)
  show ?thesis
  proof (cases "inside q = Out")
    case False
    then have "lv (came_from p)" "lv (came_from q)" using together p(2) lv by (auto simp: level_ok_def)
    then have "PrevIrql L' = came_from q" using one T L by metis
    then show ?thesis using lv(2) by (simp add: level_ok_def)
  qed (use lv(2) in \<open>simp add: level_ok_def\<close>)
next
  case False
  then have "PrevIrql L' = PrevIrql L" using x by (cases st) (auto split: option.splits prod.splits)
  then show ?thesis using lv(2) by simp
qed

lemma level_ok_call:
  assumes "todo p = []" and "method_from (inside p) m" and "macro f m = Some body" and "m = AcquireShared \<longrightarrow> lv (irql p)"
    and f: "f = DispatchLock \<or> f = DispatchRwLock" and lv: "level_ok lv prev p"
  shows "level_ok lv prev (p\<lparr>todo := body\<rparr>)"
proof -
  have b: "body = the (macro f m)" and n: "macro f m \<noteq> None" using assms(3) by simp_all
  show ?thesis unfolding b using assms(1,2,4) n lv f
    by (elim disjE) (cases m; cases "inside p"; simp add: level_ok_def macro_defs)+
qed

lemma linv_step:
  assumes K: "documented_lock K mode" "documented_levels K" and f: "f = DispatchLock \<or> f = DispatchRwLock"
    and one: "\<forall>i j. lv i \<longrightarrow> lv j \<longrightarrow> i = j" and inv: "linv f mode lv M" and step: "kstep f K lv M M'"
  shows "linv f mode lv M'"
proof -
  have k: "kinv f mode M" "kinv f mode M'" using inv kinv_step [OF K(1) _ step] by (auto simp: linv_def)
  have l: "level_ok lv (PrevIrql (fst M)) (snd M c)" for c using inv by (simp add: linv_def)
  from step have "level_ok lv (PrevIrql (fst M')) (snd M' d)" for d
  proof (cases rule: kstep.cases)
    case (change_level ps c i L)
    then show ?thesis using l [of d] l [of c] by (auto simp: level_ok_def)
  next
    case (call_macro ps c m body L)
    then show ?thesis using level_ok_call [of "ps c" m f body lv "PrevIrql L"] f l [of d] l [of c] by simp
  next
    case (run_statement ps c st rest L L' p)
    have ph: "phase f (ps c)" using k(1) run_statement(1) by (simp add: kinv_def)
    have excl: "inside (ps a) = Excl \<Longrightarrow> b \<noteq> a \<Longrightarrow> inside (ps b) = Out" for a b
      using k(1) run_statement(1) by (simp add: kinv_def modes_ok_def)
    show ?thesis
    proof (cases "d = c")
      case True
      then show ?thesis using level_ok_self [OF K(2) ph f run_statement(3,4)] l [of c] run_statement(1,2) by simp
    next
      case False
      have "inside (ps d) \<noteq> Out \<Longrightarrow> inside (ps c) \<noteq> Out \<Longrightarrow> inside (ps c) = Shar \<and> inside (ps d) = Shar"
        using excl [of c d] excl [of d c] False by (cases "inside (ps c)"; cases "inside (ps d)") simp_all
      then show ?thesis
        using level_ok_other [OF ph f run_statement(3,4) _ _ one, of "ps d"] l [of c] l [of d] False run_statement(1,2) by simp
    qed
  qed
  then show ?thesis using k(2) by (simp add: linv_def)
qed

lemma reachable_linv:
  assumes "documented_lock K mode" "documented_levels K" and "f = DispatchLock \<or> f = DispatchRwLock"
    and "\<forall>i j. lv i \<longrightarrow> lv j \<longrightarrow> i = j" and "reachable (kstart f K) (kstep f K lv) M"
  shows "linv f mode lv M"
  using assms(5)
proof (induction rule: reachable.induct)
  case (reach_start M)
  then show ?case using kinv_start [OF assms(1) reach_start]
    by (cases M) (auto simp: linv_def kstart_iff level_ok_def)
qed (rule linv_step [OF assms(1-4)])

section \<open>Properties\<close>

text \<open>A lock with the documented behaviour: its mode, and nothing else.\<close>

definition plain_lock :: "lock_mode lock_api" where
  "plain_lock = \<lparr>InitialLock = Free,
     TryExclusive = (\<lambda>s i. if s = Free then Some (Exclusive, DISPATCH_LEVEL, i) else None),
     TryShared = (\<lambda>s i. case s of Free \<Rightarrow> Some (Shared 1, DISPATCH_LEVEL, i) | Shared n \<Rightarrow> Some (Shared (Suc n), DISPATCH_LEVEL, i)
        | Exclusive \<Rightarrow> None),
     DropExclusive = (\<lambda>s p i. (Free, p)),
     DropShared = (\<lambda>s p i. (case s of Shared (Suc n) \<Rightarrow> if n = 0 then Free else Shared n | _ \<Rightarrow> s, p))\<rparr>"

lemma plain_lock_documented: "documented_lock plain_lock (\<lambda>s. s)" "documented_levels plain_lock"
  by (auto simp: documented_lock_def documented_levels_def plain_lock_def split: lock_mode.splits if_splits)

definition idle :: "nat \<Rightarrow> processor" where
  "idle i = \<lparr>todo = [], Temp = 0, irql = i, regions = 0, inside = Out, came_from = i\<rparr>"

text \<open>Schedules: what a processor does next. A schedule that runs leads to a reachable state.\<close>

datatype kaction = Level nat | Call rw_method | Run

fun kact :: "lock_family \<Rightarrow> 's lock_api \<Rightarrow> nat \<Rightarrow> kaction \<Rightarrow> 's kmachine \<Rightarrow> 's kmachine option" where
  "kact f K c (Level i) (L, ps) =
     (if todo (ps c) = [] \<and> inside (ps c) = Out \<and> i \<le> DISPATCH_LEVEL
      then Some (L, ps(c := (ps c)\<lparr>irql := i, came_from := i\<rparr>)) else None)"
| "kact f K c (Call m) (L, ps) =
     (if todo (ps c) = [] \<and> method_from (inside (ps c)) m
      then map_option (\<lambda>body. (L, ps(c := (ps c)\<lparr>todo := body\<rparr>))) (macro f m) else None)"
| "kact f K c Run (L, ps) = (case todo (ps c) of [] \<Rightarrow> None
     | st # rest \<Rightarrow> map_option (\<lambda>(L', p). (L', ps(c := p\<lparr>todo := rest\<rparr>))) (kexec K st L (ps c)))"

fun kplay :: "lock_family \<Rightarrow> 's lock_api \<Rightarrow> (nat \<times> kaction) list \<Rightarrow> 's kmachine \<Rightarrow> 's kmachine option" where
  "kplay f K [] M = Some M"
| "kplay f K ((c, a) # as) M = (case kact f K c a M of None \<Rightarrow> None | Some M' \<Rightarrow> kplay f K as M')"

lemma kact_step:
  assumes "kact f K c a M = Some M'"
  shows "kstep f K (\<lambda>_. True) M M' \<and> (a \<noteq> Call AcquireShared \<longrightarrow> kstep f K lv M M')"
proof (cases M)
  case (Pair L ps)
  then show ?thesis using assms
    by (cases a) (auto split: if_splits list.splits intro: kstep.intros)
qed

lemma kplay_reachable:
  assumes "kplay f K as M = Some M'" and "reachable (kstart f K) (kstep f K lv) M"
    and "(\<forall>i. lv i) \<or> (\<forall>(c, a) \<in> set as. a \<noteq> Call AcquireShared)"
  shows "reachable (kstart f K) (kstep f K lv) M'"
  using assms
proof (induction as arbitrary: M)
  case (Cons x as)
  obtain c a where x: "x = (c, a)" by (cases x)
  then obtain M1 where M1: "kact f K c a M = Some M1" "kplay f K as M1 = Some M'"
    using Cons.prems(1) by (auto split: option.splits)
  have "lv = (\<lambda>_. True)" if "\<forall>i. lv i" using that by (simp add: fun_eq_iff)
  then have "kstep f K lv M M1" using kact_step [OF M1(1), of lv] Cons.prems(3) x by auto
  then show ?case using Cons.IH [OF M1(2)] Cons.prems(2,3) by (auto intro: reach_step)
qed simp

definition kidle :: "lock_mode kmachine" where
  "kidle = (\<lparr>SpinLock = Free, PrevIrql = 0\<rparr>, idle)"

lemma kidle_reachable: "reachable (kstart f plain_lock) step kidle"
  by (rule reach_start) (simp add: kstart_iff kidle_def plain_lock_def idle_def)





text \<open>
  Shared acquisitions from different levels break this: with two readers, one from level 0 and one
  from \<open>DISPATCH_LEVEL\<close>, on a lock that behaves as documented, the second overwrites the level the first has to go back to, and the
  first is left at \<open>DISPATCH_LEVEL\<close> after it has released the lock.
\<close>

theorem dispatch_rw_lock_shared_loses_irql:
  "\<exists>L ps c. reachable (kstart DispatchRwLock plain_lock) (kstep DispatchRwLock plain_lock (\<lambda>_. True)) (L, ps) \<and>
     inside (ps c) = Out \<and> todo (ps c) = [] \<and> came_from (ps c) = 0 \<and> irql (ps c) = DISPATCH_LEVEL"
proof -
  let ?s = "[(5, Level 0), (6, Level 2), (5, Call AcquireShared), (5, Run), (5, Run), (6, Call AcquireShared), (6, Run), (6, Run),
      (5, Call ReleaseShared), (5, Run), (5, Run)]"
  obtain L ps where p: "kplay DispatchRwLock plain_lock ?s kidle = Some (L, ps)"
      "inside (ps 5) = Out" "todo (ps 5) = []" "came_from (ps 5) = 0" "irql (ps 5) = DISPATCH_LEVEL"
    by (simp add: kidle_def macro_defs plain_lock_def idle_def DISPATCH_LEVEL_def)
  have "reachable (kstart DispatchRwLock plain_lock) (kstep DispatchRwLock plain_lock (\<lambda>_. True)) (L, ps)"
    by (rule kplay_reachable [OF p(1) kidle_reachable]) simp
  then show ?thesis using p by blast
qed

end
