(* ===== verification/CxWinLock.thy ===== *)
theory CxWinLock
  imports CxDispatch
begin

text \<open>
  The locks of user mode Windows (\<open>inc/cxplat_winuser.h\<close>), and the lock classes of \<open>inc/cxplat.hpp\<close> across
  the platforms. Critical sections and slim reader/writer locks belong to the system: their functions are
  the fields of a record, with their documentation as a predicate. A specification that gives a meaning only to
  clients that do not acquire a lock they hold, nor release one they do not, says
  what code can rely on everywhere; the POSIX, user mode and kernel locks all implement it.
\<close>

section \<open>User mode locks\<close>

text \<open>The calling thread is an argument; entering yields \<open>None\<close> while it has to wait.\<close>

record 's critical_section_api =
  InitializeCriticalSection :: 's
  DeleteCriticalSection :: "'s \<Rightarrow> unit result"
  EnterCriticalSection :: "nat \<Rightarrow> 's \<Rightarrow> 's option"
  LeaveCriticalSection :: "nat \<Rightarrow> 's \<Rightarrow> 's result"

record 's srw_lock_api =
  InitializeSRWLock :: 's
  AcquireSRWLockShared :: "nat \<Rightarrow> 's \<Rightarrow> 's option"
  AcquireSRWLockExclusive :: "nat \<Rightarrow> 's \<Rightarrow> 's option"
  ReleaseSRWLockShared :: "nat \<Rightarrow> 's \<Rightarrow> 's result"
  ReleaseSRWLockExclusive :: "nat \<Rightarrow> 's \<Rightarrow> 's result"

definition winuser_CxPlatLockInitialize :: "'s critical_section_api \<Rightarrow> 's" where
  "winuser_CxPlatLockInitialize CS = InitializeCriticalSection CS"

definition winuser_CxPlatLockUninitialize :: "'s critical_section_api \<Rightarrow> 's \<Rightarrow> unit result" where
  "winuser_CxPlatLockUninitialize CS Lock = DeleteCriticalSection CS Lock"

definition winuser_CxPlatLockAcquire :: "'s critical_section_api \<Rightarrow> nat \<Rightarrow> 's \<Rightarrow> 's option" where
  "winuser_CxPlatLockAcquire CS t Lock = EnterCriticalSection CS t Lock"

definition winuser_CxPlatLockRelease :: "'s critical_section_api \<Rightarrow> nat \<Rightarrow> 's \<Rightarrow> 's result" where
  "winuser_CxPlatLockRelease CS t Lock = LeaveCriticalSection CS t Lock"

definition winuser_CxPlatDispatchLockInitialize :: "'s critical_section_api \<Rightarrow> 's" where
  "winuser_CxPlatDispatchLockInitialize CS = InitializeCriticalSection CS"

definition winuser_CxPlatDispatchLockUninitialize :: "'s critical_section_api \<Rightarrow> 's \<Rightarrow> unit result" where
  "winuser_CxPlatDispatchLockUninitialize CS Lock = DeleteCriticalSection CS Lock"

definition winuser_CxPlatDispatchLockAcquire :: "'s critical_section_api \<Rightarrow> nat \<Rightarrow> 's \<Rightarrow> 's option" where
  "winuser_CxPlatDispatchLockAcquire CS t Lock = EnterCriticalSection CS t Lock"

definition winuser_CxPlatDispatchLockRelease :: "'s critical_section_api \<Rightarrow> nat \<Rightarrow> 's \<Rightarrow> 's result" where
  "winuser_CxPlatDispatchLockRelease CS t Lock = LeaveCriticalSection CS t Lock"

definition winuser_CxPlatRwLockInitialize :: "'s srw_lock_api \<Rightarrow> 's" where
  "winuser_CxPlatRwLockInitialize SRW = InitializeSRWLock SRW"

definition winuser_CxPlatRwLockUninitialize :: "'s \<Rightarrow> 's" where
  "winuser_CxPlatRwLockUninitialize Lock = Lock"

definition winuser_CxPlatRwLockAcquireShared :: "'s srw_lock_api \<Rightarrow> nat \<Rightarrow> 's \<Rightarrow> 's option" where
  "winuser_CxPlatRwLockAcquireShared SRW t Lock = AcquireSRWLockShared SRW t Lock"

definition winuser_CxPlatRwLockAcquireExclusive :: "'s srw_lock_api \<Rightarrow> nat \<Rightarrow> 's \<Rightarrow> 's option" where
  "winuser_CxPlatRwLockAcquireExclusive SRW t Lock = AcquireSRWLockExclusive SRW t Lock"

definition winuser_CxPlatRwLockReleaseShared :: "'s srw_lock_api \<Rightarrow> nat \<Rightarrow> 's \<Rightarrow> 's result" where
  "winuser_CxPlatRwLockReleaseShared SRW t Lock = ReleaseSRWLockShared SRW t Lock"

definition winuser_CxPlatRwLockReleaseExclusive :: "'s srw_lock_api \<Rightarrow> nat \<Rightarrow> 's \<Rightarrow> 's result" where
  "winuser_CxPlatRwLockReleaseExclusive SRW t Lock = ReleaseSRWLockExclusive SRW t Lock"

definition winuser_CxPlatDispatchRwLockInitialize :: "'s srw_lock_api \<Rightarrow> 's" where
  "winuser_CxPlatDispatchRwLockInitialize SRW = InitializeSRWLock SRW"

definition winuser_CxPlatDispatchRwLockUninitialize :: "'s \<Rightarrow> 's" where
  "winuser_CxPlatDispatchRwLockUninitialize Lock = Lock"

definition winuser_CxPlatDispatchRwLockAcquireShared :: "'s srw_lock_api \<Rightarrow> nat \<Rightarrow> 's \<Rightarrow> 's option" where
  "winuser_CxPlatDispatchRwLockAcquireShared SRW t Lock = AcquireSRWLockShared SRW t Lock"

definition winuser_CxPlatDispatchRwLockAcquireExclusive :: "'s srw_lock_api \<Rightarrow> nat \<Rightarrow> 's \<Rightarrow> 's option" where
  "winuser_CxPlatDispatchRwLockAcquireExclusive SRW t Lock = AcquireSRWLockExclusive SRW t Lock"

definition winuser_CxPlatDispatchRwLockReleaseShared :: "'s srw_lock_api \<Rightarrow> nat \<Rightarrow> 's \<Rightarrow> 's result" where
  "winuser_CxPlatDispatchRwLockReleaseShared SRW t Lock = ReleaseSRWLockShared SRW t Lock"

definition winuser_CxPlatDispatchRwLockReleaseExclusive :: "'s srw_lock_api \<Rightarrow> nat \<Rightarrow> 's \<Rightarrow> 's result" where
  "winuser_CxPlatDispatchRwLockReleaseExclusive SRW t Lock = ReleaseSRWLockExclusive SRW t Lock"

text \<open>The wrapper classes over these macros.\<close>

fun winuser_CxPlatLock :: "'s critical_section_api \<Rightarrow> lock_method \<Rightarrow> nat \<Rightarrow> 's \<Rightarrow> 's result option" where
  "winuser_CxPlatLock CS Acquire t Handle = map_option Inr (winuser_CxPlatLockAcquire CS t Handle)"
| "winuser_CxPlatLock CS Release t Handle = Some (winuser_CxPlatLockRelease CS t Handle)"

fun winuser_CxPlatLockDispatch :: "'s critical_section_api \<Rightarrow> lock_method \<Rightarrow> nat \<Rightarrow> 's \<Rightarrow> 's result option" where
  "winuser_CxPlatLockDispatch CS Acquire t Handle = map_option Inr (winuser_CxPlatDispatchLockAcquire CS t Handle)"
| "winuser_CxPlatLockDispatch CS Release t Handle = Some (winuser_CxPlatDispatchLockRelease CS t Handle)"

fun winuser_CxPlatRwLock :: "'s srw_lock_api \<Rightarrow> rw_method \<Rightarrow> nat \<Rightarrow> 's \<Rightarrow> 's result option" where
  "winuser_CxPlatRwLock SRW AcquireShared t Handle = map_option Inr (winuser_CxPlatRwLockAcquireShared SRW t Handle)"
| "winuser_CxPlatRwLock SRW AcquireExclusive t Handle = map_option Inr (winuser_CxPlatRwLockAcquireExclusive SRW t Handle)"
| "winuser_CxPlatRwLock SRW ReleaseShared t Handle = Some (winuser_CxPlatRwLockReleaseShared SRW t Handle)"
| "winuser_CxPlatRwLock SRW ReleaseExclusive t Handle = Some (winuser_CxPlatRwLockReleaseExclusive SRW t Handle)"

fun winuser_CxPlatRwLockDispatch :: "'s srw_lock_api \<Rightarrow> rw_method \<Rightarrow> nat \<Rightarrow> 's \<Rightarrow> 's result option" where
  "winuser_CxPlatRwLockDispatch SRW AcquireShared t Handle = map_option Inr (winuser_CxPlatDispatchRwLockAcquireShared SRW t Handle)"
| "winuser_CxPlatRwLockDispatch SRW AcquireExclusive t Handle = map_option Inr (winuser_CxPlatDispatchRwLockAcquireExclusive SRW t Handle)"
| "winuser_CxPlatRwLockDispatch SRW ReleaseShared t Handle = Some (winuser_CxPlatDispatchRwLockReleaseShared SRW t Handle)"
| "winuser_CxPlatRwLockDispatch SRW ReleaseExclusive t Handle = Some (winuser_CxPlatDispatchRwLockReleaseExclusive SRW t Handle)"

lemmas winuser_lock_defs = winuser_CxPlatLockInitialize_def winuser_CxPlatLockAcquire_def winuser_CxPlatLockRelease_def
  winuser_CxPlatDispatchLockAcquire_def winuser_CxPlatDispatchLockRelease_def winuser_CxPlatRwLockInitialize_def
  winuser_CxPlatRwLockAcquireShared_def winuser_CxPlatRwLockAcquireExclusive_def winuser_CxPlatRwLockReleaseShared_def
  winuser_CxPlatRwLockReleaseExclusive_def winuser_CxPlatDispatchRwLockAcquireShared_def
  winuser_CxPlatDispatchRwLockAcquireExclusive_def winuser_CxPlatDispatchRwLockReleaseShared_def
  winuser_CxPlatDispatchRwLockReleaseExclusive_def

lemma winuser_dispatch_eq:
  "winuser_CxPlatLockDispatch = winuser_CxPlatLock"
  "winuser_CxPlatRwLockDispatch = winuser_CxPlatRwLock"
proof (intro ext)
  fix CS m t s show "winuser_CxPlatLockDispatch CS m t s = winuser_CxPlatLock CS m t s"
    by (cases m) (simp_all add: winuser_lock_defs)
next
  show "winuser_CxPlatRwLockDispatch = winuser_CxPlatRwLock"
  proof (intro ext)
    fix CS m t s show "winuser_CxPlatRwLockDispatch CS m t s = winuser_CxPlatRwLock CS m t s"
      by (cases m) (simp_all add: winuser_lock_defs)
  qed
qed

text \<open>
  The documentation: a critical section counts the holds of its owner and makes others wait; what
  leaving does to one who is not the owner is not said. A slim lock has one writer or several readers; acquiring it
  again in shared mode is not allowed, and in exclusive mode waits for ever.
\<close>

definition documented_critical_section :: "'s critical_section_api \<Rightarrow> ('s \<Rightarrow> nat \<Rightarrow> nat) \<Rightarrow> bool" where
  "documented_critical_section CS held \<longleftrightarrow> held (InitializeCriticalSection CS) = (\<lambda>_. 0) \<and>
     (\<forall>s t. if \<exists>u. u \<noteq> t \<and> held s u \<noteq> 0 then EnterCriticalSection CS t s = None
        else \<exists>s'. EnterCriticalSection CS t s = Some s' \<and> held s' = (held s)(t := Suc (held s t))) \<and>
     (\<forall>s t. held s t \<noteq> 0 \<longrightarrow> (\<exists>s'. LeaveCriticalSection CS t s = Inr s' \<and> held s' = (held s)(t := held s t - 1)))"

definition documented_srw_lock :: "'s srw_lock_api \<Rightarrow> ('s \<Rightarrow> nat option \<times> nat multiset) \<Rightarrow> bool" where
  "documented_srw_lock SRW view \<longleftrightarrow> view (InitializeSRWLock SRW) = (None, {#}) \<and>
     (\<forall>s t. if view s \<noteq> (None, {#}) then AcquireSRWLockExclusive SRW t s = None
        else \<exists>s'. AcquireSRWLockExclusive SRW t s = Some s' \<and> view s' = (Some t, {#})) \<and>
     (\<forall>s t. t \<notin># snd (view s) \<longrightarrow> (if fst (view s) \<noteq> None then AcquireSRWLockShared SRW t s = None
        else \<exists>s'. AcquireSRWLockShared SRW t s = Some s' \<and> view s' = (None, add_mset t (snd (view s))))) \<and>
     (\<forall>s t. fst (view s) = Some t \<longrightarrow> (\<exists>s'. ReleaseSRWLockExclusive SRW t s = Inr s' \<and> view s' = (None, snd (view s)))) \<and>
     (\<forall>s t. t \<in># snd (view s) \<longrightarrow>
        (\<exists>s'. ReleaseSRWLockShared SRW t s = Inr s' \<and> view s' = (fst (view s), snd (view s) - {#t#})))"

section \<open>Kernel locks as classes\<close>

text \<open>
  A macro run to its end by one processor. Only one of its statements touches the lock, so calls in the order of those
  statements are the calls of an interleaved run.
\<close>

fun kcall :: "'s lock_api \<Rightarrow> kstatement list \<Rightarrow> 's CXPLAT_DISPATCH_RW_LOCK \<Rightarrow> processor \<Rightarrow> ('s CXPLAT_DISPATCH_RW_LOCK \<times> processor) option" where
  "kcall K [] L p = Some (L, p)"
| "kcall K (st # rest) L p = (case kexec K st L p of None \<Rightarrow> None | Some (L', p') \<Rightarrow> kcall K rest L' p')"

definition winkernel_class :: "lock_family \<Rightarrow> 's lock_api \<Rightarrow> rw_method \<Rightarrow> nat \<Rightarrow> 's kmachine \<Rightarrow> 's kmachine result option" where
  "winkernel_class f K m c = (\<lambda>(L, ps). case macro f m of
      None \<Rightarrow> Some (Inl Undefined)
    | Some body \<Rightarrow> map_option (\<lambda>(L', p). Inr (L', ps(c := p))) (kcall K body L (ps c)))"

fun winkernel_CxPlatLock :: "'s lock_api \<Rightarrow> lock_method \<Rightarrow> nat \<Rightarrow> 's kmachine \<Rightarrow> 's kmachine result option" where
  "winkernel_CxPlatLock K Acquire c M = winkernel_class PushLock K AcquireExclusive c M"
| "winkernel_CxPlatLock K Release c M = winkernel_class PushLock K ReleaseExclusive c M"

definition winkernel_CxPlatRwLock :: "'s lock_api \<Rightarrow> rw_method \<Rightarrow> nat \<Rightarrow> 's kmachine \<Rightarrow> 's kmachine result option" where
  "winkernel_CxPlatRwLock K m c M = winkernel_class PushRwLock K m c M"

text \<open>Acquisitions that need not wait are granted.\<close>

definition prompt_lock :: "'s lock_api \<Rightarrow> ('s \<Rightarrow> lock_mode) \<Rightarrow> bool" where
  "prompt_lock K mode \<longleftrightarrow> (\<forall>s i. mode s = Free \<longrightarrow> TryExclusive K s i \<noteq> None) \<and>
     (\<forall>s i. mode s \<noteq> Exclusive \<longrightarrow> TryShared K s i \<noteq> None)"

section \<open>What a portable client can rely on\<close>

text \<open>
  The locks as such a client sees them: who holds the lock. Acquiring what one holds and releasing what one does
  not, and more readers than the platform has room for, are misuse.
\<close>

fun client_lock :: "lock_method \<Rightarrow> nat \<Rightarrow> nat option \<Rightarrow> nat option result option" where
  "client_lock Acquire t W = (if W = Some t then Some (Inl Undefined) else if W \<noteq> None then None else Some (Inr (Some t)))"
| "client_lock Release t W = (if W = Some t then Some (Inr None) else Some (Inl Undefined))"

fun client_rw :: "nat \<Rightarrow> rw_method \<Rightarrow> nat \<Rightarrow> nat option \<times> nat multiset \<Rightarrow> (nat option \<times> nat multiset) result option" where
  "client_rw Limit AcquireShared t (W, R) =
     (if W = Some t \<or> t \<in># R \<or> Limit \<le> size R then Some (Inl Undefined)
      else if W \<noteq> None then None else Some (Inr (None, add_mset t R)))"
| "client_rw Limit AcquireExclusive t (W, R) =
     (if W = Some t \<or> t \<in># R then Some (Inl Undefined)
      else if W \<noteq> None \<or> R \<noteq> {#} then None else Some (Inr (Some t, {#})))"
| "client_rw Limit ReleaseShared t (W, R) =
     (if t \<in># R then Some (Inr (W, R - {#t#})) else Some (Inl Undefined))"
| "client_rw Limit ReleaseExclusive t (W, R) =
     (if W = Some t then Some (Inr (None, R)) else Some (Inl Undefined))"

text \<open>A lock that does what the specification says, wherever the client did not misuse it.\<close>

locale client_class =
  fixes call :: "'m \<Rightarrow> nat \<Rightarrow> 's \<Rightarrow> 's result option" and rel :: "'s \<Rightarrow> 'v \<Rightarrow> bool"
    and spec :: "'m \<Rightarrow> nat \<Rightarrow> 'v \<Rightarrow> 'v result option"
  assumes call_blocks: "rel s v \<Longrightarrow> spec m t v = None \<Longrightarrow> call m t s = None"
    and call_returns: "rel s v \<Longrightarrow> spec m t v = Some (Inr v') \<Longrightarrow> \<exists>s'. call m t s = Some (Inr s') \<and> rel s' v'"
begin

lemma client_run:
  "rel s v \<Longrightarrow> case lock_run spec ops v of
      None \<Rightarrow> lock_run call ops s = None
    | Some (Inl f) \<Rightarrow> True
    | Some (Inr v') \<Rightarrow> \<exists>s'. lock_run call ops s = Some (Inr s') \<and> rel s' v'"
proof (induction ops arbitrary: s v)
  case (Cons x ops)
  obtain t m where x: "x = (t, m)" by (cases x)
  show ?case
  proof (cases "spec m t v")
    case None
    then show ?thesis using call_blocks [OF Cons.prems None] x by simp
  next
    case (Some r)
    show ?thesis
    proof (cases r)
      case (Inr v1)
      then obtain s1 where s1: "call m t s = Some (Inr s1)" "rel s1 v1" using call_returns [OF Cons.prems] Some by blast
      have "lock_run call (x # ops) s = lock_run call ops s1" "lock_run spec (x # ops) v = lock_run spec ops v1"
        using s1 x Some Inr by simp_all
      then show ?thesis using Cons.IH [OF s1(2)] by (simp only:)
    qed (use Some x in simp)
  qed
qed simp

end

text \<open>The six locks.\<close>

definition posix_lock_rel :: "pthread_mutex \<Rightarrow> nat option \<Rightarrow> bool" where
  "posix_lock_rel m W \<longleftrightarrow> recursive m \<and> owner m = W \<and> depth m = (if W = None then 0 else 1)"

interpretation posix_client: client_class "CxPlatLock (Suc L)" posix_lock_rel client_lock for L
proof
  fix s v m t v' assume r: "posix_lock_rel s v"
  show "CxPlatLock (Suc L) m t s = None" if "client_lock m t v = None"
    using r that by (cases m; cases v) (auto simp: lock_defs posix_lock_rel_def split: if_splits)
  show "\<exists>s'. CxPlatLock (Suc L) m t s = Some (Inr s') \<and> posix_lock_rel s' v'" if "client_lock m t v = Some (Inr v')"
    using r that by (cases m; cases v) (auto simp: lock_defs posix_lock_rel_def split: if_splits)
qed

definition posix_rw_rel :: "pthread_rwlock \<Rightarrow> nat option \<times> nat multiset \<Rightarrow> bool" where
  "posix_rw_rel l v \<longleftrightarrow> rw_ok l \<and> rw_view l = v"

interpretation posix_rw_client: client_class "CxPlatRwLock L" posix_rw_rel "client_rw L" for L
proof
  fix s v m t v' assume r: "posix_rw_rel s v"
  show "CxPlatRwLock L m t s = None" if "client_rw L m t v = None"
    using r that by (cases m) (auto simp: rw_defs posix_rw_rel_def rw_view_def split: option.splits if_splits)
  show "\<exists>s'. CxPlatRwLock L m t s = Some (Inr s') \<and> posix_rw_rel s' v'" if "client_rw L m t v = Some (Inr v')"
    using r that by (cases m) (auto simp: rw_defs posix_rw_rel_def rw_view_def rw_ok_def split: option.splits if_splits)
qed

definition winuser_lock_rel :: "('s \<Rightarrow> nat \<Rightarrow> nat) \<Rightarrow> 's \<Rightarrow> nat option \<Rightarrow> bool" where
  "winuser_lock_rel held s W \<longleftrightarrow> held s = (\<lambda>t. if W = Some t then 1 else 0)"

lemma winuser_client:
  assumes "documented_critical_section CS held"
  shows "client_class (winuser_CxPlatLock CS) (winuser_lock_rel held) client_lock"
proof
  fix s v m t v' assume r: "winuser_lock_rel held s v"
  note d = assms [unfolded documented_critical_section_def, THEN conjunct2]
  note enter = d [THEN conjunct1, rule_format, of t s] and leave = d [THEN conjunct2, rule_format, of s t]
  show "winuser_CxPlatLock CS m t s = None" if "client_lock m t v = None"
    using r that enter by (cases m) (auto simp: winuser_lock_defs winuser_lock_rel_def split: if_splits)
  show "\<exists>s'. winuser_CxPlatLock CS m t s = Some (Inr s') \<and> winuser_lock_rel held s' v'" if "client_lock m t v = Some (Inr v')"
    using r that enter leave by (cases m) (auto simp: winuser_lock_defs winuser_lock_rel_def fun_eq_iff split: if_splits)
qed

lemma winuser_rw_client:
  assumes "documented_srw_lock SRW view"
  shows "client_class (winuser_CxPlatRwLock SRW) (\<lambda>s v. view s = v) (client_rw L)"
proof
  fix s v m t v' assume r: "view s = v"
  note d = assms [unfolded documented_srw_lock_def, THEN conjunct2]
  note excl = d [THEN conjunct1, rule_format, of s t] and shar = d [THEN conjunct2, THEN conjunct1, rule_format, of t s]
    and rex = d [THEN conjunct2, THEN conjunct2, THEN conjunct1, rule_format, of s t]
    and rsh = d [THEN conjunct2, THEN conjunct2, THEN conjunct2, rule_format, of t s]
  show "winuser_CxPlatRwLock SRW m t s = None" if "client_rw L m t v = None"
    using r that excl shar by (cases m; cases v) (auto simp: winuser_lock_defs split: if_splits)
  show "\<exists>s'. winuser_CxPlatRwLock SRW m t s = Some (Inr s') \<and> view s' = v'" if "client_rw L m t v = Some (Inr v')"
    using r that excl shar rex rsh by (cases m; cases v) (auto simp: winuser_lock_defs split: if_splits)
qed

definition winkernel_rel :: "('s \<Rightarrow> lock_mode) \<Rightarrow> 's kmachine \<Rightarrow> nat option \<times> nat multiset \<Rightarrow> bool" where
  "winkernel_rel mode = (\<lambda>(L, ps) (W, R). (W = None \<or> R = {#}) \<and> (\<forall>c. count R c \<le> 1) \<and>
     mode (SpinLock L) = (if W \<noteq> None then Exclusive else if R = {#} then Free else Shared (size R)) \<and>
     (\<forall>c. inside (ps c) = (if W = Some c then Excl else if c \<in># R then Shar else Out)) \<and>
     (\<forall>c. regions (ps c) = (if inside (ps c) = Out then 0 else 1)))"

lemma kcall_exclusive:
  assumes "documented_lock K mode" and "prompt_lock K mode"
  shows "mode (SpinLock L) = Free \<Longrightarrow> \<exists>s p'. kcall K [enter_region, acquire_exclusive] L p = Some (L\<lparr>SpinLock := s\<rparr>, p') \<and>
      mode s = Exclusive \<and> inside p' = Excl \<and> regions p' = Suc (regions p)"
    and "mode (SpinLock L) \<noteq> Free \<Longrightarrow> kcall K [enter_region, acquire_exclusive] L p = None"
proof -
  show "\<exists>s p'. kcall K [enter_region, acquire_exclusive] L p = Some (L\<lparr>SpinLock := s\<rparr>, p') \<and>
      mode s = Exclusive \<and> inside p' = Excl \<and> regions p' = Suc (regions p)" if "mode (SpinLock L) = Free"
  proof -
    have "TryExclusive K (SpinLock L) (irql p) \<noteq> None" using assms(2) that unfolding prompt_lock_def by blast
    then obtain s i old where r: "TryExclusive K (SpinLock L) (irql p) = Some (s, i, old)" by auto
    then have "mode s = Exclusive" using assms(1) unfolding documented_lock_def by blast
    then show ?thesis using r by (intro exI [of _ s]) simp
  qed
  show "kcall K [enter_region, acquire_exclusive] L p = None" if "mode (SpinLock L) \<noteq> Free"
  proof (cases "TryExclusive K (SpinLock L) (irql p)")
    case (Some r)
    then have "mode (SpinLock L) = Free" using assms(1) unfolding documented_lock_def by (cases r) blast
    then show ?thesis using that by simp
  qed simp
qed

lemma kcall_shared:
  assumes "documented_lock K mode" and "prompt_lock K mode"
  shows "mode (SpinLock L) \<noteq> Exclusive \<Longrightarrow> \<exists>s p'. kcall K [enter_region, acquire_shared] L p = Some (L\<lparr>SpinLock := s\<rparr>, p') \<and>
      mode s = (case mode (SpinLock L) of Shared n \<Rightarrow> Shared (Suc n) | _ \<Rightarrow> Shared 1) \<and> inside p' = Shar \<and> regions p' = Suc (regions p)"
    and "mode (SpinLock L) = Exclusive \<Longrightarrow> kcall K [enter_region, acquire_shared] L p = None"
proof -
  show "\<exists>s p'. kcall K [enter_region, acquire_shared] L p = Some (L\<lparr>SpinLock := s\<rparr>, p') \<and>
      mode s = (case mode (SpinLock L) of Shared n \<Rightarrow> Shared (Suc n) | _ \<Rightarrow> Shared 1) \<and> inside p' = Shar \<and> regions p' = Suc (regions p)"
    if "mode (SpinLock L) \<noteq> Exclusive"
  proof -
    have "TryShared K (SpinLock L) (irql p) \<noteq> None" using assms(2) that unfolding prompt_lock_def by blast
    then obtain s i old where r: "TryShared K (SpinLock L) (irql p) = Some (s, i, old)" by auto
    then have "mode (SpinLock L) = Free \<and> mode s = Shared 1 \<or> (\<exists>n. mode (SpinLock L) = Shared n \<and> mode s = Shared (Suc n))"
      using assms(1) unfolding documented_lock_def by blast
    then show ?thesis using r by auto
  qed
  show "kcall K [enter_region, acquire_shared] L p = None" if "mode (SpinLock L) = Exclusive"
    using assms(1) that by (cases "TryShared K (SpinLock L) (irql p)") (fastforce simp: documented_lock_def)+
qed

lemma kcall_release:
  assumes "documented_lock K mode"
  shows "mode (SpinLock L) = Exclusive \<Longrightarrow> \<exists>s p'. kcall K [release_exclusive, leave_region] L p = Some (L\<lparr>SpinLock := s\<rparr>, p') \<and>
      mode s = Free \<and> inside p' = Out \<and> regions p' = regions p - 1"
    and "mode (SpinLock L) = Shared (Suc n) \<Longrightarrow> \<exists>s p'. kcall K [release_shared, leave_region] L p = Some (L\<lparr>SpinLock := s\<rparr>, p') \<and>
      mode s = (if n = 0 then Free else Shared n) \<and> inside p' = Out \<and> regions p' = regions p - 1"
proof -
  show "\<exists>s p'. kcall K [release_exclusive, leave_region] L p = Some (L\<lparr>SpinLock := s\<rparr>, p') \<and>
      mode s = Free \<and> inside p' = Out \<and> regions p' = regions p - 1" if "mode (SpinLock L) = Exclusive"
  proof -
    obtain s i where r: "DropExclusive K (SpinLock L) (Temp p) (irql p) = (s, i)" by fastforce
    moreover have "mode (fst (DropExclusive K (SpinLock L) (Temp p) (irql p))) = Free"
      using assms that by (simp add: documented_lock_def)
    ultimately show ?thesis by (intro exI [of _ s]) simp
  qed
  show "\<exists>s p'. kcall K [release_shared, leave_region] L p = Some (L\<lparr>SpinLock := s\<rparr>, p') \<and>
      mode s = (if n = 0 then Free else Shared n) \<and> inside p' = Out \<and> regions p' = regions p - 1" if "mode (SpinLock L) = Shared (Suc n)"
  proof -
    obtain s i where r: "DropShared K (SpinLock L) (Temp p) (irql p) = (s, i)" by fastforce
    moreover have "mode (fst (DropShared K (SpinLock L) (Temp p) (irql p))) = (if n = 0 then Free else Shared n)"
      using assms that by (simp add: documented_lock_def)
    ultimately show ?thesis by (intro exI [of _ s]) simp
  qed
qed

lemma winkernel_class_step:
  assumes "documented_lock K mode" "prompt_lock K mode" and f: "f = PushLock \<and> m \<noteq> AcquireShared \<and> m \<noteq> ReleaseShared \<or> f = PushRwLock"
    and r: "winkernel_rel mode M v"
  shows "client_rw Limit m t v = None \<Longrightarrow> winkernel_class f K m t M = None"
    and "client_rw Limit m t v = Some (Inr v') \<Longrightarrow> \<exists>M'. winkernel_class f K m t M = Some (Inr M') \<and> winkernel_rel mode M' v'"
proof -
  obtain L ps W R where M: "M = (L, ps)" and v: "v = (W, R)" by (cases M; cases v)
  have wr: "W = None \<or> R = {#}" and c1: "\<And>c. count R c \<le> 1"
    and md: "mode (SpinLock L) = (if W \<noteq> None then Exclusive else if R = {#} then Free else Shared (size R))"
    and ins: "\<And>c. inside (ps c) = (if W = Some c then Excl else if c \<in># R then Shar else Out)"
    and reg: "\<And>c. regions (ps c) = (if inside (ps c) = Out then 0 else 1)"
    using r by (simp_all add: winkernel_rel_def M v)
  note mac = macro_defs winkernel_class_def M
  show "winkernel_class f K m t M = None" if "client_rw Limit m t v = None"
    using that f kcall_exclusive(2) [OF assms(1,2), of L "ps t"] kcall_shared(2) [OF assms(1,2), of L "ps t"] md
    by (cases m) (auto simp: mac v split: if_splits)
  show "\<exists>M'. winkernel_class f K m t M = Some (Inr M') \<and> winkernel_rel mode M' v'" if v': "client_rw Limit m t v = Some (Inr v')"
  proof (cases m)
    case AcquireExclusive
    then have e: "W = None" "R = {#}" "v' = (Some t, {#})" using v' v by (auto split: if_splits)
    obtain s p' where k: "kcall K [enter_region, acquire_exclusive] L (ps t) = Some (L\<lparr>SpinLock := s\<rparr>, p')"
        "mode s = Exclusive" "inside p' = Excl" "regions p' = Suc (regions (ps t))"
      using kcall_exclusive(1) [OF assms(1,2), of L "ps t"] md e by auto
    have "winkernel_class f K m t M = Some (Inr (L\<lparr>SpinLock := s\<rparr>, ps(t := p')))"
      using f AcquireExclusive k(1) by (auto simp: mac simp del: kcall.simps)
    then show ?thesis using k(2-) e ins reg by (auto simp: winkernel_rel_def)
  next
    case AcquireShared
    then have e: "W = None" "t \<notin># R" "v' = (None, add_mset t R)" using v' v by (auto split: if_splits)
    obtain s p' where k: "kcall K [enter_region, acquire_shared] L (ps t) = Some (L\<lparr>SpinLock := s\<rparr>, p')"
        "mode s = Shared (Suc (size R))" "inside p' = Shar" "regions p' = Suc (regions (ps t))"
      using kcall_shared(1) [OF assms(1,2), of L "ps t"] md e by (auto split: if_splits)
    have "winkernel_class f K m t M = Some (Inr (L\<lparr>SpinLock := s\<rparr>, ps(t := p')))"
      using f AcquireShared k(1) by (auto simp: mac simp del: kcall.simps)
    then show ?thesis using k(2-) e ins reg c1 by (auto simp: winkernel_rel_def not_in_iff)
  next
    case ReleaseExclusive
    then have e: "W = Some t" "R = {#}" "v' = (None, {#})" using v' v wr by (auto split: if_splits)
    obtain s p' where k: "kcall K [release_exclusive, leave_region] L (ps t) = Some (L\<lparr>SpinLock := s\<rparr>, p')"
        "mode s = Free" "inside p' = Out" "regions p' = regions (ps t) - 1"
      using kcall_release(1) [OF assms(1), of L "ps t"] md e by auto
    have "winkernel_class f K m t M = Some (Inr (L\<lparr>SpinLock := s\<rparr>, ps(t := p')))"
      using f ReleaseExclusive k(1) by (auto simp: mac simp del: kcall.simps)
    then show ?thesis using k(2-) e ins reg by (auto simp: winkernel_rel_def)
  next
    case ReleaseShared
    then have e: "t \<in># R" "W = None" "v' = (None, R - {#t#})" using v' v wr by (auto split: if_splits)
    then obtain R' where R': "R = add_mset t R'" by (metis insert_DiffM)
    then have t: "t \<notin># R'" using c1 [of t] by (simp add: not_in_iff)
    obtain s p' where k: "kcall K [release_shared, leave_region] L (ps t) = Some (L\<lparr>SpinLock := s\<rparr>, p')"
        "mode s = (if size R' = 0 then Free else Shared (size R'))" "inside p' = Out" "regions p' = regions (ps t) - 1"
      using kcall_release(2) [OF assms(1), of L "size R'" "ps t"] md e R' by auto
    have "winkernel_class f K m t M = Some (Inr (L\<lparr>SpinLock := s\<rparr>, ps(t := p')))"
      using f ReleaseShared k(1) by (auto simp: mac simp del: kcall.simps)
    moreover have "count R' c \<le> 1" for c using c1 [of c] R' by (simp split: if_splits)
    ultimately show ?thesis using k(2-) e ins reg t R' by (auto simp: winkernel_rel_def)
  qed
qed

lemma winkernel_rw_client:
  assumes "documented_lock K mode" "prompt_lock K mode"
  shows "client_class (winkernel_CxPlatRwLock K) (winkernel_rel mode) (client_rw L)"
proof
  fix s v m t v' assume r: "winkernel_rel mode s v"
  note x = winkernel_class_step [OF assms _ r, of PushRwLock m]
  show "winkernel_CxPlatRwLock K m t s = None" if "client_rw L m t v = None"
    using x(1) that by (simp add: winkernel_CxPlatRwLock_def)
  show "\<exists>s'. winkernel_CxPlatRwLock K m t s = Some (Inr s') \<and> winkernel_rel mode s' v'" if "client_rw L m t v = Some (Inr v')"
    using x(2) that unfolding winkernel_CxPlatRwLock_def by blast
qed

lemma winkernel_client:
  assumes "documented_lock K mode" "prompt_lock K mode"
  shows "client_class (winkernel_CxPlatLock K) (\<lambda>M W. winkernel_rel mode M (W, {#})) client_lock"
proof
  fix s v m t v' assume r: "winkernel_rel mode s (v, {#})"
  note x = winkernel_class_step [OF assms _ r, of PushLock AcquireExclusive 0 t]
    and y = winkernel_class_step [OF assms _ r, of PushLock ReleaseExclusive 0 t]
  show "winkernel_CxPlatLock K m t s = None" if "client_lock m t v = None"
    using x(1) that by (cases m) (auto split: if_splits)
  show "\<exists>s'. winkernel_CxPlatLock K m t s = Some (Inr s') \<and> winkernel_rel mode s' (v', {#})" if "client_lock m t v = Some (Inr v')"
    using x(2) [of "(v', {#})"] y(2) [of "(v', {#})"] that by (cases m) (auto split: if_splits)
qed

section \<open>Properties\<close>

lemma plain_lock_prompt: "prompt_lock plain_lock (\<lambda>s. s)"
  by (auto simp: prompt_lock_def plain_lock_def split: lock_mode.splits)

lemma kstart_rel: "documented_lock K mode \<Longrightarrow> kstart f K M \<Longrightarrow> winkernel_rel mode M (None, {#})"
  by (cases M) (simp add: kstart_iff winkernel_rel_def documented_lock_def)

text \<open>Locks with the documented behaviour, for concrete runs: the holds themselves, and the view itself.\<close>

definition counting_section :: "(nat \<Rightarrow> nat) critical_section_api" where
  "counting_section = \<lparr>InitializeCriticalSection = (\<lambda>_. 0), DeleteCriticalSection = (\<lambda>s. Inr ()),
     EnterCriticalSection = (\<lambda>t s. if \<exists>u. u \<noteq> t \<and> s u \<noteq> 0 then None else Some (s(t := Suc (s t)))),
     LeaveCriticalSection = (\<lambda>t s. if s t = 0 then Inl Undefined else Inr (s(t := s t - 1)))\<rparr>"

lemma counting_section_documented: "documented_critical_section counting_section (\<lambda>s. s)"
  by (auto simp: documented_critical_section_def counting_section_def)

definition view_lock :: "(nat option \<times> nat multiset) srw_lock_api" where
  "view_lock = \<lparr>InitializeSRWLock = (None, {#}),
     AcquireSRWLockShared = (\<lambda>t (W, R). if W \<noteq> None then None else Some (None, add_mset t R)),
     AcquireSRWLockExclusive = (\<lambda>t v. if v \<noteq> (None, {#}) then None else Some (Some t, {#})),
     ReleaseSRWLockShared = (\<lambda>t (W, R). if t \<in># R then Inr (W, R - {#t#}) else Inl Undefined),
     ReleaseSRWLockExclusive = (\<lambda>t (W, R). if W = Some t then Inr (None, R) else Inl Undefined)\<rparr>"

lemma view_lock_documented: "documented_srw_lock view_lock (\<lambda>s. s)"
  by (auto simp: documented_srw_lock_def view_lock_def)

text \<open>
  C7. \<open>CxPlatLock\<close> is portable for clients that do not acquire a lock they hold nor release one they do
  not: over any sequence of calls by any threads, the POSIX mutex, the critical section and the kernel's push lock
  block at the same call or all return, and then have the same holder. A client that acquires twice is not portable:
  POSIX and user mode grant it, in the kernel the thread waits for itself.
\<close>

theorem CxPlatLock_portable:
  assumes "posix_CxPlatLockInitialize Result = Inr m0" and "documented_critical_section CS held"
    and "documented_lock K mode" "prompt_lock K mode" "kstart PushLock K M0"
  shows "(case lock_run client_lock ops None of
      None \<Rightarrow> lock_run (CxPlatLock (Suc L)) ops m0 = None \<and>
        lock_run (winuser_CxPlatLock CS) ops (winuser_CxPlatLockInitialize CS) = None \<and>
        lock_run (winkernel_CxPlatLock K) ops M0 = None
    | Some (Inl misuse) \<Rightarrow> True
    | Some (Inr W) \<Rightarrow> (\<exists>m. lock_run (CxPlatLock (Suc L)) ops m0 = Some (Inr m) \<and> owner m = W) \<and>
        (\<exists>s. lock_run (winuser_CxPlatLock CS) ops (winuser_CxPlatLockInitialize CS) = Some (Inr s) \<and>
          (\<forall>t. 0 < held s t \<longleftrightarrow> W = Some t)) \<and>
        (\<exists>L ps. lock_run (winkernel_CxPlatLock K) ops M0 = Some (Inr (L, ps)) \<and> (\<forall>t. inside (ps t) = Excl \<longleftrightarrow> W = Some t))) \<and>
    lock_run (CxPlatLock (Suc (Suc L))) [(t, Acquire), (t, Acquire)] m0 \<noteq> None \<and>
    lock_run (winuser_CxPlatLock CS) [(t, Acquire), (t, Acquire)] (winuser_CxPlatLockInitialize CS) \<noteq> None \<and>
    lock_run (winkernel_CxPlatLock K) [(t, Acquire), (t, Acquire)] M0 = None"
proof (intro conjI)
  have p: "posix_lock_rel m0 None"
    using assms(1) by (auto simp: posix_CxPlatLockInitialize_def posix_lock_rel_def split: prod.splits)
  have u: "winuser_lock_rel held (winuser_CxPlatLockInitialize CS) None"
    using assms(2) by (simp add: winuser_lock_rel_def documented_critical_section_def winuser_lock_defs)
  have k: "winkernel_rel mode M0 (None, {#})" by (rule kstart_rel [OF assms(3,5)])
  note runs = posix_client.client_run [OF p, where ops = ops and L = L] client_class.client_run [OF winuser_client [OF assms(2)] u, of ops]
    client_class.client_run [OF winkernel_client [OF assms(3,4)] k, of ops]
  show "case lock_run client_lock ops None of
      None \<Rightarrow> lock_run (CxPlatLock (Suc L)) ops m0 = None \<and>
        lock_run (winuser_CxPlatLock CS) ops (winuser_CxPlatLockInitialize CS) = None \<and>
        lock_run (winkernel_CxPlatLock K) ops M0 = None
    | Some (Inl misuse) \<Rightarrow> True
    | Some (Inr W) \<Rightarrow> (\<exists>m. lock_run (CxPlatLock (Suc L)) ops m0 = Some (Inr m) \<and> owner m = W) \<and>
        (\<exists>s. lock_run (winuser_CxPlatLock CS) ops (winuser_CxPlatLockInitialize CS) = Some (Inr s) \<and>
          (\<forall>t. 0 < held s t \<longleftrightarrow> W = Some t)) \<and>
        (\<exists>L ps. lock_run (winkernel_CxPlatLock K) ops M0 = Some (Inr (L, ps)) \<and> (\<forall>t. inside (ps t) = Excl \<longleftrightarrow> W = Some t))"
    using runs by (auto simp: posix_lock_rel_def winuser_lock_rel_def winkernel_rel_def split: option.splits sum.splits)
  show "lock_run (CxPlatLock (Suc (Suc L))) [(t, Acquire), (t, Acquire)] m0 \<noteq> None"
    using p by (simp add: lock_defs posix_lock_rel_def)
  note enter = assms(2) [unfolded documented_critical_section_def, THEN conjunct2, THEN conjunct1, rule_format, of t]
  obtain s1 where s1: "EnterCriticalSection CS t (winuser_CxPlatLockInitialize CS) = Some s1" "held s1 = (\<lambda>_. 0)(t := 1)"
    using enter [of "winuser_CxPlatLockInitialize CS"] u by (auto simp: winuser_lock_rel_def)
  have "\<not> (\<exists>u. u \<noteq> t \<and> held s1 u \<noteq> 0)" using s1(2) by simp
  then obtain s2 where "EnterCriticalSection CS t s1 = Some s2" using enter [of s1] by (simp only: if_False) blast
  then show "lock_run (winuser_CxPlatLock CS) [(t, Acquire), (t, Acquire)] (winuser_CxPlatLockInitialize CS) \<noteq> None"
    using s1(1) by (simp add: winuser_CxPlatLockAcquire_def)
  obtain M1 where "winkernel_CxPlatLock K Acquire t M0 = Some (Inr M1)" "winkernel_rel mode M1 (Some t, {#})"
    using client_class.call_returns [OF winkernel_client [OF assms(3,4)] k, of Acquire t "Some t"] by auto
  moreover obtain L1 ps1 where "M1 = (L1, ps1)" by (cases M1)
  ultimately show "lock_run (winkernel_CxPlatLock K) [(t, Acquire), (t, Acquire)] M0 = None"
    using kcall_exclusive(2) [OF assms(3,4), of L1 "ps1 t"]
    by (simp add: winkernel_class_def macro_defs winkernel_rel_def del: kcall.simps)
qed

theorem CxPlatLock_portable_witness:
  "\<exists>s. lock_run (winuser_CxPlatLock counting_section) [(1, Acquire), (1, Release), (2, Acquire)] (\<lambda>_. 0) = Some (Inr s) \<and>
     (\<forall>t. 0 < s t \<longleftrightarrow> t = 2)"
proof -
  have i: "posix_CxPlatLockInitialize (0, 0, 0, 0) = Inr \<lparr>owner = None, depth = 0, recursive = True\<rparr>"
    by (simp add: posix_CxPlatLockInitialize_def)
  have k: "kstart PushLock plain_lock kidle" by (simp add: kstart_iff kidle_def plain_lock_def idle_def)
  have "lock_run client_lock [(1, Acquire), (1, Release), (2, Acquire)] None = Some (Inr (Some 2))" by simp
  with conjunct1 [OF CxPlatLock_portable [OF i counting_section_documented plain_lock_documented(1) plain_lock_prompt k,
        where ops = "[(1, Acquire), (1, Release), (2, Acquire)]"]]
  show ?thesis by (auto simp: winuser_CxPlatLockInitialize_def counting_section_def)
qed

text \<open>
  C19. \<open>CxPlatRwLock\<close> is portable for the same clients: over any sequence of calls the POSIX read-write lock, the slim lock of
  user mode, also under its dispatch names, and the kernel's push lock block at the same call or all return, and then have
  the same writer and the same readers.
\<close>

theorem CxPlatRwLock_portable:
  assumes "posix_CxPlatRwLockInitialize Result = Inr l0" and "documented_srw_lock SRW view"
    and "documented_lock K mode" "prompt_lock K mode" "kstart PushRwLock K M0"
  shows "(case lock_run (client_rw Limit) ops (None, {#}) of
      None \<Rightarrow> lock_run (CxPlatRwLock Limit) ops l0 = None \<and>
        lock_run (winuser_CxPlatRwLock SRW) ops (winuser_CxPlatRwLockInitialize SRW) = None \<and>
        lock_run (winkernel_CxPlatRwLock K) ops M0 = None
    | Some (Inl misuse) \<Rightarrow> True
    | Some (Inr (W, R)) \<Rightarrow> (\<exists>l. lock_run (CxPlatRwLock Limit) ops l0 = Some (Inr l) \<and> writer l = W \<and> mset (readers l) = R) \<and>
        (\<exists>s. lock_run (winuser_CxPlatRwLock SRW) ops (winuser_CxPlatRwLockInitialize SRW) = Some (Inr s) \<and> view s = (W, R)) \<and>
        (\<exists>L ps. lock_run (winkernel_CxPlatRwLock K) ops M0 = Some (Inr (L, ps)) \<and>
          (\<forall>t. inside (ps t) = (if W = Some t then Excl else if t \<in># R then Shar else Out)))) \<and>
    winuser_CxPlatRwLockDispatch SRW = winuser_CxPlatRwLock SRW"
proof (intro conjI)
  have p: "posix_rw_rel l0 (None, {#})"
    using assms(1) by (auto simp: posix_CxPlatRwLockInitialize_def posix_rw_rel_def rw_ok_def rw_view_def)
  have u: "view (winuser_CxPlatRwLockInitialize SRW) = (None, {#})"
    using assms(2) by (simp add: documented_srw_lock_def winuser_lock_defs)
  have k: "winkernel_rel mode M0 (None, {#})" by (rule kstart_rel [OF assms(3,5)])
  note runs = posix_rw_client.client_run [OF p, where ops = ops and L = Limit]
    client_class.client_run [OF winuser_rw_client [OF assms(2), where L = Limit] u, where ops = ops]
    client_class.client_run [OF winkernel_rw_client [OF assms(3,4), where L = Limit] k, where ops = ops]
  show "case lock_run (client_rw Limit) ops (None, {#}) of
      None \<Rightarrow> lock_run (CxPlatRwLock Limit) ops l0 = None \<and>
        lock_run (winuser_CxPlatRwLock SRW) ops (winuser_CxPlatRwLockInitialize SRW) = None \<and>
        lock_run (winkernel_CxPlatRwLock K) ops M0 = None
    | Some (Inl misuse) \<Rightarrow> True
    | Some (Inr (W, R)) \<Rightarrow> (\<exists>l. lock_run (CxPlatRwLock Limit) ops l0 = Some (Inr l) \<and> writer l = W \<and> mset (readers l) = R) \<and>
        (\<exists>s. lock_run (winuser_CxPlatRwLock SRW) ops (winuser_CxPlatRwLockInitialize SRW) = Some (Inr s) \<and> view s = (W, R)) \<and>
        (\<exists>L ps. lock_run (winkernel_CxPlatRwLock K) ops M0 = Some (Inr (L, ps)) \<and>
          (\<forall>t. inside (ps t) = (if W = Some t then Excl else if t \<in># R then Shar else Out)))"
    using runs by (auto simp: posix_rw_rel_def rw_view_def winkernel_rel_def split: option.splits sum.splits)
qed (simp add: winuser_dispatch_eq)

theorem CxPlatRwLock_portable_witness:
  "lock_run (winuser_CxPlatRwLock view_lock) [(1, AcquireShared), (2, AcquireShared), (3, AcquireExclusive)] (None, {#}) = None"
proof -
  have i: "posix_CxPlatRwLockInitialize 0 = Inr \<lparr>writer = None, readers = []\<rparr>" by (simp add: posix_CxPlatRwLockInitialize_def)
  have k: "kstart PushRwLock plain_lock kidle" by (simp add: kstart_iff kidle_def plain_lock_def idle_def)
  have "lock_run (client_rw 9) [(1, AcquireShared), (2, AcquireShared), (3, AcquireExclusive)] (None, {#}) = None" by simp
  with conjunct1 [OF CxPlatRwLock_portable [OF i view_lock_documented plain_lock_documented(1) plain_lock_prompt k,
        where Limit = 9 and ops = "[(1, AcquireShared), (2, AcquireShared), (3, AcquireExclusive)]"]]
  show ?thesis by (simp add: winuser_CxPlatRwLockInitialize_def view_lock_def)
qed

end
