(* ===== verification/CxInterlocked.thy ===== *)
theory CxInterlocked
  imports CxPrelude
begin

text \<open>
  The interlocked operations of \<open>inc/cxplat_posix_shim.h\<close>. Each is one atomic read-modify-write: a
  function from the cell to the returned value and the new cell, built on the compiler's \<open>__sync\<close>
  primitives. Threads using a cell concurrently perform a sequence of such steps, in some order; the
  lemmas are about every sequence. \<open>long\<close> has 64 bits on the platforms that use the shim.
\<close>

type_synonym 'c atomic = "'c \<Rightarrow> 'c \<times> 'c"

section \<open>Compiler primitives\<close>

definition sync_add_and_fetch :: "'w::len word \<Rightarrow> 'w word \<Rightarrow> 'w word \<times> 'w word" where
  "sync_add_and_fetch v p = (p + v, p + v)"

definition sync_sub_and_fetch :: "'w::len word \<Rightarrow> 'w word \<Rightarrow> 'w word \<times> 'w word" where
  "sync_sub_and_fetch v p = (p - v, p - v)"

definition sync_and_and_fetch :: "'w::len word \<Rightarrow> 'w word \<Rightarrow> 'w word \<times> 'w word" where
  "sync_and_and_fetch v p = (p AND v, p AND v)"

definition sync_or_and_fetch :: "'w::len word \<Rightarrow> 'w word \<Rightarrow> 'w word \<times> 'w word" where
  "sync_or_and_fetch v p = (p OR v, p OR v)"

definition sync_val_compare_and_swap :: "'w::len word \<Rightarrow> 'w word \<Rightarrow> 'w word \<Rightarrow> 'w word \<times> 'w word" where
  "sync_val_compare_and_swap old new p = (p, if p = old then new else p)"

definition sync_fetch_and_add :: "'w::len word \<Rightarrow> 'w word \<Rightarrow> 'w word \<times> 'w word" where
  "sync_fetch_and_add v p = (p, p + v)"

definition sync_lock_test_and_set :: "'w::len word \<Rightarrow> 'w word \<Rightarrow> 'w word \<times> 'w word" where
  "sync_lock_test_and_set v p = (p, v)"

definition sync_fetch_and_and :: "'w::len word \<Rightarrow> 'w word \<Rightarrow> 'w word \<times> 'w word" where
  "sync_fetch_and_and v p = (p, p AND v)"

definition sync_fetch_and_or :: "'w::len word \<Rightarrow> 'w word \<Rightarrow> 'w word \<times> 'w word" where
  "sync_fetch_and_or v p = (p, p OR v)"

section \<open>The operations\<close>

definition InterlockedIncrement16 :: "i16 \<Rightarrow> i16 \<times> i16" where
  "InterlockedIncrement16 Addend = sync_add_and_fetch 1 Addend"

definition InterlockedDecrement16 :: "i16 \<Rightarrow> i16 \<times> i16" where
  "InterlockedDecrement16 Addend = sync_sub_and_fetch 1 Addend"

definition InterlockedIncrement :: "i64 \<Rightarrow> i64 \<times> i64" where
  "InterlockedIncrement Addend = sync_add_and_fetch 1 Addend"

definition InterlockedDecrement :: "i64 \<Rightarrow> i64 \<times> i64" where
  "InterlockedDecrement Addend = sync_sub_and_fetch 1 Addend"

definition InterlockedIncrement64 :: "i64 \<Rightarrow> i64 \<times> i64" where
  "InterlockedIncrement64 Addend = sync_add_and_fetch 1 Addend"

definition InterlockedDecrement64 :: "i64 \<Rightarrow> i64 \<times> i64" where
  "InterlockedDecrement64 Addend = sync_sub_and_fetch 1 Addend"

definition InterlockedAnd :: "i64 \<Rightarrow> i64 \<Rightarrow> i64 \<times> i64" where
  "InterlockedAnd Value Destination = sync_and_and_fetch Value Destination"

definition InterlockedOr :: "i64 \<Rightarrow> i64 \<Rightarrow> i64 \<times> i64" where
  "InterlockedOr Value Destination = sync_or_and_fetch Value Destination"

definition InterlockedCompareExchange16 :: "i16 \<Rightarrow> i16 \<Rightarrow> i16 \<Rightarrow> i16 \<times> i16" where
  "InterlockedCompareExchange16 ExChange Comperand Destination =
     sync_val_compare_and_swap Comperand ExChange Destination"

text \<open>The operand is a \<open>long\<close>, the returned type \<open>short\<close>.\<close>

definition InterlockedCompareExchange :: "i64 \<Rightarrow> i64 \<Rightarrow> i64 \<Rightarrow> i16 \<times> i64" where
  "InterlockedCompareExchange ExChange Comperand Destination =
     (case sync_val_compare_and_swap Comperand ExChange Destination of (r, p) \<Rightarrow> (ucast r, p))"

definition InterlockedCompareExchange64 :: "i64 \<Rightarrow> i64 \<Rightarrow> i64 \<Rightarrow> i64 \<times> i64" where
  "InterlockedCompareExchange64 ExChange Comperand Destination =
     sync_val_compare_and_swap Comperand ExChange Destination"

definition InterlockedExchangeAdd64 :: "i64 \<Rightarrow> i64 \<Rightarrow> i64 \<times> i64" where
  "InterlockedExchangeAdd64 Value Addend = sync_fetch_and_add Value Addend"

definition InterlockedExchangePointer :: "u64 \<Rightarrow> u64 \<Rightarrow> u64 \<times> u64" where
  "InterlockedExchangePointer Value Target = sync_lock_test_and_set Value Target"

definition InterlockedFetchAndClearPointer :: "u64 \<Rightarrow> u64 \<times> u64" where
  "InterlockedFetchAndClearPointer Target = sync_fetch_and_and 0 Target"

definition InterlockedFetchAndClearBoolean :: "u8 \<Rightarrow> u8 \<times> u8" where
  "InterlockedFetchAndClearBoolean Target = sync_fetch_and_and 0 Target"

definition InterlockedFetchAndSetBoolean :: "u8 \<Rightarrow> u8 \<times> u8" where
  "InterlockedFetchAndSetBoolean Target = sync_fetch_and_or 1 Target"

lemmas interlocked_defs =
  InterlockedIncrement16_def InterlockedDecrement16_def InterlockedIncrement_def InterlockedDecrement_def
  InterlockedIncrement64_def InterlockedDecrement64_def sync_add_and_fetch_def sync_sub_and_fetch_def

section \<open>Sequences of atomic steps\<close>

text \<open>The values returned by a sequence of steps on one cell, and the final cell.\<close>

fun atomic_run :: "('c \<Rightarrow> 'r \<times> 'c) list \<Rightarrow> 'c \<Rightarrow> 'r list \<times> 'c" where
  "atomic_run [] c = ([], c)"
| "atomic_run (f # fs) c = (case f c of (r, c') \<Rightarrow> case atomic_run fs c' of (rs, c'') \<Rightarrow> (r # rs, c''))"

text \<open>
  The contract of a counter: the increment and the decrement return the value they leave. Every width
  of the shim provides it.
\<close>

locale atomic_counter =
  fixes inc dec :: "'w::len word \<Rightarrow> 'w word \<times> 'w word"
  assumes inc_law: "inc x = (x + 1, x + 1)"
    and dec_law: "dec x = (x - 1, x - 1)"
begin

lemma inc_run: "atomic_run (replicate n inc) x = (map (\<lambda>k. x + of_nat (Suc k)) [0..<n], x + of_nat n)"
proof (induction n arbitrary: x)
  case (Suc n)
  have "map (\<lambda>k. x + of_nat (Suc k)) [0..<Suc n] = (x + 1) # map (\<lambda>k. (x + 1) + of_nat (Suc k)) [0..<n]"
    by (simp add: upt_conv_Cons map_Suc_upt [symmetric] add.assoc comp_def del: upt_Suc)
  then show ?case unfolding replicate_Suc atomic_run.simps inc_law [of x] prod.case Suc.IH by (simp add: add.assoc)
qed simp

lemma tickets_distinct:
  assumes "n \<le> 2 ^ LENGTH('w)"
  shows "distinct (fst (atomic_run (replicate n inc) x))"
proof -
  have "inj_on (\<lambda>k. x + of_nat (Suc k)) {0..<n}"
  proof (rule inj_onI)
    fix i j assume ij: "i \<in> {0..<n}" "j \<in> {0..<n}" "x + of_nat (Suc i) = x + of_nat (Suc j)"
    then have "unat (of_nat i :: 'w word) = unat (of_nat j :: 'w word)" by simp
    then show "i = j" using ij(1,2) assms by (simp add: unat_of_nat)
  qed
  then show ?thesis by (simp add: inc_run distinct_map del: upt_Suc)
qed

lemma release_run:
  assumes "n < 2 ^ LENGTH('w)" and "i < n"
  shows "fst (atomic_run (replicate n dec) (of_nat n)) ! i = 0 \<longleftrightarrow> Suc i = n"
  using assms
proof (induction n arbitrary: i)
  case (Suc n)
  have d: "dec (of_nat (Suc n)) = (of_nat n, of_nat n)" by (simp add: dec_law)
  show ?case
  proof (cases i)
    case 0
    have "(of_nat n :: 'w word) = 0 \<longleftrightarrow> unat (of_nat n :: 'w word) = 0" by (simp add: unat_eq_zero)
    then have "(of_nat n :: 'w word) = 0 \<longleftrightarrow> n = 0" using Suc.prems(1) by (simp add: unat_of_nat)
    then show ?thesis using d 0 by (auto split: prod.splits)
  next
    case (Suc j)
    then show ?thesis using Suc.IH [of j] Suc.prems d by (auto split: prod.splits)
  qed
qed simp

end

interpretation counter16: atomic_counter InterlockedIncrement16 InterlockedDecrement16
  by unfold_locales (simp_all add: interlocked_defs)

interpretation counter_long: atomic_counter InterlockedIncrement InterlockedDecrement
  by unfold_locales (simp_all add: interlocked_defs)

interpretation counter64: atomic_counter InterlockedIncrement64 InterlockedDecrement64
  by unfold_locales (simp_all add: interlocked_defs)

section \<open>Properties\<close>

lemma short_of_long: "(scast (ucast r :: i16) :: i64) = r \<longleftrightarrow> - (2 ^ 15) \<le> sint r \<and> sint r < 2 ^ 15" for r :: i64
proof -
  have "sint (scast (ucast r :: i16) :: i64) = sint (ucast r :: i16)"
    by (rule sint_up_scast) (simp add: is_up)
  also have "\<dots> = signed_take_bit 15 (uint r)" by (subst signed_ucast_eq) simp
  also have "\<dots> = signed_take_bit 15 (sint r)" by (simp add: sint_uint min_def)
  finally have "sint (scast (ucast r :: i16) :: i64) = signed_take_bit 15 (sint r)" .
  moreover have "signed_take_bit 15 k = k \<longleftrightarrow> - (2 ^ 15) \<le> k \<and> k < 2 ^ 15" for k :: int
    by (rule signed_take_bit_int_eq_self_iff)
  ultimately show ?thesis by (metis signed_word_eqI)
qed



text \<open>
  Reference counting: of the \<open>n\<close> releases of an object with \<open>n\<close> references, exactly the last one,
  in whatever order the threads run, sees the count reach zero.
\<close>

theorem InterlockedDecrement_last_release:
  assumes "n < 2 ^ 16" and "i < n"
  shows "(fst (atomic_run (replicate n InterlockedDecrement16) (of_nat n)) ! i = 0 \<longleftrightarrow> Suc i = n) \<and>
    (fst (atomic_run (replicate n InterlockedDecrement) (of_nat n)) ! i = 0 \<longleftrightarrow> Suc i = n) \<and>
    (fst (atomic_run (replicate n InterlockedDecrement64) (of_nat n)) ! i = 0 \<longleftrightarrow> Suc i = n)"
proof -
  have "n < 2 ^ LENGTH(16)" "n < 2 ^ LENGTH(64)" using assms by simp_all
  then show ?thesis using assms(2)
    by (intro conjI counter16.release_run counter_long.release_run counter64.release_run)
qed

theorem InterlockedDecrement_last_release_witness:
  "fst (atomic_run (replicate 3 InterlockedDecrement) 3) ! 2 = 0 \<and> fst (atomic_run (replicate 3 InterlockedDecrement) 3) ! 1 \<noteq> 0"
  using InterlockedDecrement_last_release [of 3 2] InterlockedDecrement_last_release [of 3 1] by simp

text \<open>
  Compare-and-exchange stores the new value exactly when the cell equals the comperand. The 16-
  and 64-bit versions return the old cell, so a caller detects success by comparing the result with
  the comperand. \<open>InterlockedCompareExchange\<close> returns the old \<open>long\<close> as a \<open>short\<close>: after a successful
  exchange the comparison holds only if the comperand fits into 16 bits, and for every larger
  comperand a successful exchange looks like a failure.
\<close>

theorem InterlockedCompareExchange_detects:
  "InterlockedCompareExchange16 e16 c16 d16 = (d16, if d16 = c16 then e16 else d16) \<and>
   InterlockedCompareExchange64 e c d = (d, if d = c then e else d) \<and>
   snd (InterlockedCompareExchange e c d) = (if d = c then e else d) \<and>
   (scast (fst (InterlockedCompareExchange e c c)) = c \<longleftrightarrow> - (2 ^ 15) \<le> sint c \<and> sint c < 2 ^ 15)"
  using short_of_long [of c]
  by (simp add: InterlockedCompareExchange16_def InterlockedCompareExchange64_def InterlockedCompareExchange_def
      sync_val_compare_and_swap_def)

end
