(* ===== verification/CxAlloc.thy ===== *)
theory CxAlloc
  imports CxInterlocked "HOL-Library.Signed_Division"
begin

text \<open>
  Allocation: \<open>CxPlatAlloc\<close> and \<open>CxPlatFree\<close> of \<open>src/lib/cxplat_posix.c\<close> and
  \<open>src/lib/cxplat_winuser.c\<close>, with the failure injection of debug builds and, in user mode Windows,
  the tag that debug builds keep in front of every allocation. The system allocator is an argument.
\<close>

section \<open>Failure injection\<close>

text \<open>The two fields of \<open>CX_PLATFORM\<close>; \<open>long\<close> has 64 bits on POSIX and 32 on Windows.\<close>

record posix_CX_PLATFORM =
  posix_AllocFailDenominator :: i32
  posix_AllocCounter :: i64

record winuser_CX_PLATFORM =
  Heap :: "nat option"
  winuser_AllocFailDenominator :: i32
  winuser_AllocCounter :: i32

definition posix_CxPlatSetAllocFailDenominator :: "i32 \<Rightarrow> posix_CX_PLATFORM \<Rightarrow> posix_CX_PLATFORM" where
  "posix_CxPlatSetAllocFailDenominator Value P =
     P\<lparr>posix_AllocFailDenominator := Value, posix_AllocCounter := 0\<rparr>"

definition posix_CxPlatGetAllocFailDenominator :: "posix_CX_PLATFORM \<Rightarrow> i32" where
  "posix_CxPlatGetAllocFailDenominator P = posix_AllocFailDenominator P"

definition winuser_CxPlatSetAllocFailDenominator :: "i32 \<Rightarrow> winuser_CX_PLATFORM \<Rightarrow> winuser_CX_PLATFORM" where
  "winuser_CxPlatSetAllocFailDenominator Value P =
     P\<lparr>winuser_AllocFailDenominator := Value, winuser_AllocCounter := 0\<rparr>"

definition winuser_CxPlatGetAllocFailDenominator :: "winuser_CX_PLATFORM \<Rightarrow> i32" where
  "winuser_CxPlatGetAllocFailDenominator P = winuser_AllocFailDenominator P"

text \<open>
  The condition under which a debug build fails an allocation. \<open>Rand\<close> is the random number the code
  draws when the denominator is positive; it is compared as an unsigned number. The counter is
  advanced only for a negative denominator, and its remainder is C's.
\<close>

definition posix_fails :: "u32 \<Rightarrow> posix_CX_PLATFORM \<Rightarrow> bool \<times> posix_CX_PLATFORM" where
  "posix_fails Rand P = (let d = posix_AllocFailDenominator P in
     if sint d > 0 \<and> Rand mod d = 1 then (True, P)
     else if sint d < 0 then
       (case InterlockedIncrement (posix_AllocCounter P) of (n, c) \<Rightarrow>
          (sint n smod sint d = 0, P\<lparr>posix_AllocCounter := c\<rparr>))
     else (False, P))"

text \<open>On Windows the interlocked increment is the system's, on the 32-bit counter.\<close>

definition winuser_fails :: "u32 \<Rightarrow> winuser_CX_PLATFORM \<Rightarrow> bool \<times> winuser_CX_PLATFORM" where
  "winuser_fails Rand P = (let d = winuser_AllocFailDenominator P in
     if sint d > 0 \<and> Rand mod d = 1 then (True, P)
     else if sint d < 0 then
       (case sync_add_and_fetch 1 (winuser_AllocCounter P) of (n, c) \<Rightarrow>
          (sint n smod sint d = 0, P\<lparr>winuser_AllocCounter := c\<rparr>))
     else (False, P))"

section \<open>POSIX allocation\<close>

definition posix_CxPlatAlloc ::
  "bool \<Rightarrow> u32 \<Rightarrow> (nat \<Rightarrow> nat option) \<Rightarrow> nat \<Rightarrow> posix_CX_PLATFORM \<Rightarrow> (nat option \<times> posix_CX_PLATFORM) result" where
  "posix_CxPlatAlloc dbg Rand Malloc ByteCount P =
     (if dbg then
        guardR (ByteCount \<noteq> 0) AssertFailed
          (case posix_fails Rand P of (fails, P) \<Rightarrow>
             if fails then Inr (None, P) else Inr (Malloc ByteCount, P))
      else Inr (Malloc ByteCount, P))"

section \<open>User mode Windows allocation\<close>

text \<open>The heap: the size of the live block at each base address, and 32-bit words in memory.\<close>

record heap =
  live :: "nat \<rightharpoonup> nat"
  words :: "nat \<Rightarrow> u32"

definition AllocOffset :: nat where
  "AllocOffset = 16"

definition HeapFree :: "nat option \<Rightarrow> heap \<Rightarrow> heap result" where
  "HeapFree p H = (case p of None \<Rightarrow> Inr H
     | Some a \<Rightarrow> (case live H a of None \<Rightarrow> Inl DoubleFree | Some n \<Rightarrow> Inr (H\<lparr>live := (live H)(a := None)\<rparr>)))"

text \<open>\<open>HeapAlloc\<close> chooses the address for a size, given what is live.\<close>

definition winuser_CxPlatAlloc ::
  "bool \<Rightarrow> u32 \<Rightarrow> (nat \<Rightarrow> (nat \<rightharpoonup> nat) \<Rightarrow> nat option) \<Rightarrow> nat \<Rightarrow> u32 \<Rightarrow> winuser_CX_PLATFORM \<times> heap \<Rightarrow>
   (nat option \<times> winuser_CX_PLATFORM \<times> heap) result" where
  "winuser_CxPlatAlloc dbg Rand HeapAlloc ByteCount Tag = (\<lambda>(P, H).
     if dbg then
       guardR (Heap P \<noteq> None) AssertFailed (guardR (ByteCount \<noteq> 0) AssertFailed
         (case winuser_fails Rand P of (fails, P) \<Rightarrow>
            if fails then Inr (None, P, H)
            else let n = (ByteCount + AllocOffset) mod 2 ^ 64 in
              case HeapAlloc n (live H) of
                None \<Rightarrow> Inr (None, P, H)
              | Some Alloc \<Rightarrow> Inr (Some (Alloc + AllocOffset), P,
                  H\<lparr>live := (live H)(Alloc \<mapsto> n), words := (words H)(Alloc := Tag)\<rparr>)))
     else case HeapAlloc ByteCount (live H) of
         None \<Rightarrow> Inr (None, P, H)
       | Some Alloc \<Rightarrow> Inr (Some Alloc, P, H\<lparr>live := (live H)(Alloc \<mapsto> ByteCount)\<rparr>))"

definition winuser_CxPlatFree :: "bool \<Rightarrow> nat option \<Rightarrow> u32 \<Rightarrow> heap \<Rightarrow> heap result" where
  "winuser_CxPlatFree dbg Mem Tag H =
     (if dbg then
        (case Mem of
           Some m \<Rightarrow> (let ActualAlloc = m - AllocOffset in
             guardR (live H ActualAlloc \<noteq> None) UseAfterFree
             (guardR (words H ActualAlloc = Tag) AssertFailed (HeapFree (Some ActualAlloc) H)))
         | None \<Rightarrow> HeapFree None H)
      else HeapFree Mem H)"

section \<open>The injection contract\<close>

lemma smod_zero_iff: "(a::int) smod b = 0 \<longleftrightarrow> b dvd a"
  by (cases "a = 0") (simp_all add: signed_modulo_int_def mod_eq_0_iff_dvd sgn_0_0)

lemma sint_small: "k < 2 ^ 31 \<Longrightarrow> sint (of_nat k :: i32) = int k" "k < 2 ^ 31 \<Longrightarrow> sint (of_nat k :: i64) = int k"
  by (simp_all add: signed_of_nat signed_take_bit_int_eq_self)

text \<open>
  What the tests of a debug build rely on, for any platform: a negative denominator \<open>-N\<close> fails every
  \<open>N\<close>th check after it was set, a positive one fails by the random number, zero never fails.
\<close>

locale fail_injection =
  fixes set_den :: "i32 \<Rightarrow> 'p \<Rightarrow> 'p" and den :: "'p \<Rightarrow> i32" and count_of :: "'p \<Rightarrow> nat \<Rightarrow> bool"
    and fails :: "u32 \<Rightarrow> 'p \<Rightarrow> bool \<times> 'p"
  assumes set_law: "den (set_den v p) = v \<and> count_of (set_den v p) 0"
    and negative_law: "sint (den p) < 0 \<Longrightarrow> count_of p k \<Longrightarrow> Suc k < 2 ^ 31 \<Longrightarrow>
      \<exists>p'. fails r p = (nat (- sint (den p)) dvd Suc k, p') \<and> den p' = den p \<and> count_of p' (Suc k)"
    and positive_law: "0 < sint (den p) \<Longrightarrow> fails r p = (r mod den p = 1, p)"
    and zero_law: "den p = 0 \<Longrightarrow> fails r p = (False, p)"
begin

lemma every_Nth:
  assumes "sint (den p) < 0" and "count_of p k" and "k + length rs < 2 ^ 31" and "i < length rs"
  shows "fst (atomic_run (map fails rs) p) ! i \<longleftrightarrow> nat (- sint (den p)) dvd Suc (k + i)"
  using assms
proof (induction rs arbitrary: p k i)
  case (Cons r rs)
  obtain p' where p': "fails r p = (nat (- sint (den p)) dvd Suc k, p')" "den p' = den p" "count_of p' (Suc k)"
    using negative_law [OF Cons.prems(1,2), of r] Cons.prems(3) by auto
  obtain bs q where run: "atomic_run (map fails rs) p' = (bs, q)" by (cases "atomic_run (map fails rs) p'")
  show ?case
  proof (cases i)
    case 0
    then show ?thesis using p' run by simp
  next
    case (Suc j)
    then show ?thesis using Cons.IH [of p' "Suc k" j] Cons.prems p' run by simp
  qed
qed simp

lemma after_set:
  assumes "sint v < 0" and "length rs < 2 ^ 31" and "i < length rs"
  shows "fst (atomic_run (map fails rs) (set_den v p)) ! i \<longleftrightarrow> nat (- sint v) dvd Suc i"
  using every_Nth [of "set_den v p" 0 rs i] set_law [of v p] assms by simp

lemma one_never_fails: "fails r (set_den 1 p) = (False, set_den 1 p)"
  using positive_law [of "set_den 1 p" r] set_law [of 1 p] by simp

end

lemma dvd_neg_nat: "d < 0 \<Longrightarrow> (d::int) dvd int k \<longleftrightarrow> nat (- d) dvd k"
  by (metis int_dvd_int_iff int_nat_eq minus_dvd_iff neg_0_le_iff_le order_less_imp_le)

interpretation posix_inject: fail_injection posix_CxPlatSetAllocFailDenominator posix_CxPlatGetAllocFailDenominator
  "\<lambda>P k. posix_AllocCounter P = of_nat k" posix_fails
proof
  fix p :: posix_CX_PLATFORM and k r
  assume "sint (posix_CxPlatGetAllocFailDenominator p) < 0" "posix_AllocCounter p = of_nat k" "Suc k < 2 ^ 31"
  then show "\<exists>p'. posix_fails r p = (nat (- sint (posix_CxPlatGetAllocFailDenominator p)) dvd Suc k, p') \<and>
      posix_CxPlatGetAllocFailDenominator p' = posix_CxPlatGetAllocFailDenominator p \<and>
      posix_AllocCounter p' = of_nat (Suc k)"
    using sint_small(2) [of "Suc k"] dvd_neg_nat [of _ "Suc k"]
    by (simp add: posix_fails_def Let_def posix_CxPlatGetAllocFailDenominator_def InterlockedIncrement_def
        sync_add_and_fetch_def smod_zero_iff add.commute)
qed (simp_all add: posix_CxPlatSetAllocFailDenominator_def posix_CxPlatGetAllocFailDenominator_def posix_fails_def Let_def)

interpretation winuser_inject: fail_injection winuser_CxPlatSetAllocFailDenominator winuser_CxPlatGetAllocFailDenominator
  "\<lambda>P k. winuser_AllocCounter P = of_nat k" winuser_fails
proof
  fix p :: winuser_CX_PLATFORM and k r
  assume "sint (winuser_CxPlatGetAllocFailDenominator p) < 0" "winuser_AllocCounter p = of_nat k" "Suc k < 2 ^ 31"
  then show "\<exists>p'. winuser_fails r p = (nat (- sint (winuser_CxPlatGetAllocFailDenominator p)) dvd Suc k, p') \<and>
      winuser_CxPlatGetAllocFailDenominator p' = winuser_CxPlatGetAllocFailDenominator p \<and>
      winuser_AllocCounter p' = of_nat (Suc k)"
    using sint_small(1) [of "Suc k"] dvd_neg_nat [of _ "Suc k"]
    by (simp add: winuser_fails_def Let_def winuser_CxPlatGetAllocFailDenominator_def
        sync_add_and_fetch_def smod_zero_iff add.commute)
qed (simp_all add: winuser_CxPlatSetAllocFailDenominator_def winuser_CxPlatGetAllocFailDenominator_def winuser_fails_def Let_def)

section \<open>Properties\<close>



text \<open>
  A positive denominator \<open>D\<close> fails an allocation exactly when the random number leaves remainder
  one. For \<open>D\<close> above one that is one of the \<open>D\<close> remainders; for \<open>D = 1\<close>, which asks for every
  allocation to fail, no allocation ever does.
\<close>

theorem alloc_fails_randomly:
  assumes "0 < sint v"
  shows "posix_fails r (posix_CxPlatSetAllocFailDenominator v P) = (r mod v = 1, posix_CxPlatSetAllocFailDenominator v P) \<and>
    winuser_fails r (winuser_CxPlatSetAllocFailDenominator v W) = (r mod v = 1, winuser_CxPlatSetAllocFailDenominator v W) \<and>
    \<not> fst (posix_fails r (posix_CxPlatSetAllocFailDenominator 1 P)) \<and>
    \<not> fst (winuser_fails r (winuser_CxPlatSetAllocFailDenominator 1 W))"
  using posix_inject.positive_law [of "posix_CxPlatSetAllocFailDenominator v P" r]
    winuser_inject.positive_law [of "winuser_CxPlatSetAllocFailDenominator v W" r]
    posix_inject.set_law [of v P] winuser_inject.set_law [of v W] assms
    posix_inject.one_never_fails [of r P] winuser_inject.one_never_fails [of r W] by simp

theorem alloc_fails_randomly_witness:
  "fst (posix_fails 11 (posix_CxPlatSetAllocFailDenominator 5 \<lparr>posix_AllocFailDenominator = 0, posix_AllocCounter = 0\<rparr>))"
  using alloc_fails_randomly [of 5 11 "\<lparr>posix_AllocFailDenominator = 0, posix_AllocCounter = 0\<rparr>"] by simp

text \<open>
  C30. User mode Windows, debug and release: what \<open>CxPlatAlloc\<close> returns, \<open>CxPlatFree\<close> with the same tag
  takes back, leaving the live blocks as they were; in a debug build a different tag fails the
  assertion instead. The block holds \<open>ByteCount\<close> bytes behind the returned address as long as adding
  the header does not wrap. Freeing NULL does nothing.
\<close>

theorem winuser_alloc_free_roundtrip:
  assumes fresh: "\<forall>n L a. HeapAlloc n L = Some a \<longrightarrow> L a = None"
    and alloc: "winuser_CxPlatAlloc dbg Rand HeapAlloc ByteCount Tag (P, H) = Inr (Some m, P', H')"
    and size: "ByteCount + AllocOffset < 2 ^ 64"
  shows "(\<exists>H''. winuser_CxPlatFree dbg (Some m) Tag H' = Inr H'' \<and> live H'' = live H) \<and>
    (dbg \<and> Tag' \<noteq> Tag \<longrightarrow> winuser_CxPlatFree dbg (Some m) Tag' H' = Inl AssertFailed) \<and>
    (\<exists>b n. live H' b = Some n \<and> b \<le> m \<and> m + ByteCount \<le> b + n) \<and>
    winuser_CxPlatFree dbg None Tag H' = Inr H'"
proof (cases dbg)
  case True
  then obtain a where a: "HeapAlloc (ByteCount + 16) (live H) = Some a" and m: "m = a + 16"
    and H': "H' = H\<lparr>live := (live H)(a \<mapsto> ByteCount + 16), words := (words H)(a := Tag)\<rparr>"
    using alloc size
    by (auto simp: winuser_CxPlatAlloc_def Let_def AllocOffset_def bindR_def guardR_def split: prod.splits if_splits option.splits)
  have "live H a = None" using fresh a by blast
  then show ?thesis using True m H'
    by (auto simp: winuser_CxPlatFree_def Let_def AllocOffset_def HeapFree_def fun_upd_idem)
next
  case False
  then have "HeapAlloc ByteCount (live H) = Some m" and H': "H' = H\<lparr>live := (live H)(m \<mapsto> ByteCount)\<rparr>"
    using alloc by (auto simp: winuser_CxPlatAlloc_def split: option.splits)
  moreover from this have "live H m = None" using fresh by blast
  ultimately show ?thesis using False
    by (auto simp: winuser_CxPlatFree_def HeapFree_def fun_upd_idem)
qed

definition bump :: "nat \<Rightarrow> (nat \<rightharpoonup> nat) \<Rightarrow> nat option" where
  "bump n L = (if L 64 = None then Some 64 else None)"

theorem winuser_alloc_free_roundtrip_witness:
  "\<exists>m P' H' H''. winuser_CxPlatAlloc True 0 bump 10 5 (\<lparr>Heap = Some 1, winuser_AllocFailDenominator = 0, winuser_AllocCounter = 0\<rparr>,
      \<lparr>live = Map.empty, words = \<lambda>_. 0\<rparr>) = Inr (Some m, P', H') \<and>
    winuser_CxPlatFree True (Some m) 5 H' = Inr H'' \<and> live H'' = Map.empty \<and>
    winuser_CxPlatFree True (Some m) 6 H' = Inl AssertFailed"
proof -
  let ?P = "\<lparr>Heap = Some 1, winuser_AllocFailDenominator = 0, winuser_AllocCounter = 0\<rparr>"
  let ?H = "\<lparr>live = Map.empty, words = \<lambda>_. 0\<rparr>"
  let ?H' = "\<lparr>live = [64 \<mapsto> 26], words = (\<lambda>_. 0)(64 := 5)\<rparr>"
  have alloc: "winuser_CxPlatAlloc True 0 bump 10 5 (?P, ?H) = Inr (Some 80, ?P, ?H')"
    by (simp add: winuser_CxPlatAlloc_def winuser_fails_def AllocOffset_def bump_def Let_def)
  have fresh: "\<forall>n L a. bump n L = Some a \<longrightarrow> L a = None" by (simp add: bump_def split: if_splits)
  have size: "10 + AllocOffset < 2 ^ 64" by (simp add: AllocOffset_def)
  show ?thesis
    using winuser_alloc_free_roundtrip [of bump True 0 10 5 ?P ?H 80 ?P ?H' 6, OF fresh alloc size] alloc by auto
qed

end
