(* ===== verification/CxStartup.thy ===== *)
theory CxStartup
  imports CxAlloc CxTime
begin

text \<open>
  Start and stop of the library on POSIX (\<open>src/lib/cxplat_posix.c\<close>) and in the Windows kernel
  (\<open>src/lib/cxplat_winkernel.c\<close>), random numbers, the number of the current processor, and the timed waits of the Windows platforms.
  System calls are arguments.
\<close>

section \<open>POSIX\<close>

record posix_globals =
  px_platform :: posix_CX_PLATFORM
  RandomFd :: int
  px_ProcessorCount :: u32
  CxPlatNumaNodeCount :: u32
  CxPlatNumaNodeMasks :: "nat option"
  mask_table :: "nat list list"
  open_fds :: "int set"
  malloc_blocks :: "nat set"

text \<open>Answers of the system; \<open>node_cpus\<close> is \<open>None\<close> where the query of a node fails.\<close>

record posix_system =
  online_processors :: i64
  numa_available :: bool
  configured_nodes :: i32
  malloc :: "nat \<Rightarrow> nat option"
  node_cpus :: "nat \<Rightarrow> nat list option"
  urandom :: int
  open_errno :: u32
  random_word :: u32

definition posix_CxPlatFree :: "nat option \<Rightarrow> nat set \<Rightarrow> nat set result" where
  "posix_CxPlatFree Mem B = (case Mem of None \<Rightarrow> Inr B | Some a \<Rightarrow> guardR (a \<in> B) DoubleFree (Inr (B - {a})))"

text \<open>The loop over the nodes: each mask is cleared and filled by the query, which must not fail.\<close>

fun fill_node_masks :: "(nat \<Rightarrow> nat list option) \<Rightarrow> nat list \<Rightarrow> nat list list result" where
  "fill_node_masks q [] = Inr []"
| "fill_node_masks q (n # ns) = (case q n of None \<Rightarrow> Inl AssertFailed
     | Some cpus \<Rightarrow> bindR (fill_node_masks q ns) (\<lambda>ms. Inr (cpus # ms)))"

text \<open>The part under \<open>CXPLAT_NUMA_AWARE\<close>; a \<open>cpu_set_t\<close> has 128 bytes.\<close>

definition posix_init_numa :: "bool \<Rightarrow> posix_system \<Rightarrow> posix_globals \<Rightarrow> posix_globals result" where
  "posix_init_numa dbg S g =
     (if numa_available S then
        let n = (ucast (configured_nodes S) :: u32) in
        bindR (posix_CxPlatAlloc dbg (random_word S) (malloc S) (128 * unat n) (px_platform g)) (\<lambda>(p, P).
        case p of
          None \<Rightarrow> Inl AssertFailed
        | Some a \<Rightarrow> bindR (fill_node_masks (node_cpus S) [0..<unat n]) (\<lambda>ms.
            Inr (g\<lparr>px_platform := P, CxPlatNumaNodeCount := n, CxPlatNumaNodeMasks := Some a, mask_table := ms,
                   malloc_blocks := insert a (malloc_blocks g)\<rparr>)))
      else Inr (g\<lparr>CxPlatNumaNodeCount := 0\<rparr>))"

definition posix_CxPlatInitialize :: "bool \<Rightarrow> bool \<Rightarrow> bool \<Rightarrow> posix_system \<Rightarrow> posix_globals \<Rightarrow> (u32 \<times> posix_globals) result" where
  "posix_CxPlatInitialize dbg linux numa S g =
     (let g = (if dbg then g\<lparr>px_platform := posix_CxPlatSetAllocFailDenominator 0 (px_platform g)\<rparr> else g);
          g = g\<lparr>px_ProcessorCount := (if linux then ucast (online_processors S) else 1)\<rparr> in
      bindR (if numa then posix_init_numa dbg S g else Inr g) (\<lambda>g.
      let g = g\<lparr>RandomFd := urandom S\<rparr> in
      if urandom S = -1 then Inr (open_errno S, g)
      else Inr (0, g\<lparr>open_fds := insert (urandom S) (open_fds g)\<rparr>)))"

definition posix_CxPlatUninitialize :: "bool \<Rightarrow> posix_globals \<Rightarrow> posix_globals result" where
  "posix_CxPlatUninitialize numa g =
     (let g = g\<lparr>open_fds := open_fds g - {RandomFd g}\<rparr> in
      if numa then bindR (posix_CxPlatFree (CxPlatNumaNodeMasks g) (malloc_blocks g)) (\<lambda>B. Inr (g\<lparr>malloc_blocks := B\<rparr>))
      else Inr g)"

text \<open>The current processor, from what \<open>sched_getcpu\<close> reports.\<close>

definition posix_CxPlatProcCurrentNumber :: "bool \<Rightarrow> i32 \<Rightarrow> posix_globals \<Rightarrow> u32 result" where
  "posix_CxPlatProcCurrentNumber linux cpu g =
     (if linux then guardR (px_ProcessorCount g \<noteq> 0) DivByZero (Inr (ucast cpu mod px_ProcessorCount g)) else Inr 0)"

text \<open>The thread id: the system's on FreeBSD and Linux, cut to 32 bits on the other systems.\<close>

definition freebsd_CxPlatCurThreadID :: "i32 \<Rightarrow> u32" where
  "freebsd_CxPlatCurThreadID tid = tid"

definition linux_CxPlatCurThreadID :: "i64 \<Rightarrow> u32" where
  "linux_CxPlatCurThreadID tid = ucast tid"

definition darwin_CxPlatCurThreadID :: "bool \<Rightarrow> int \<times> u64 \<Rightarrow> u32 result" where
  "darwin_CxPlatCurThreadID dbg = (\<lambda>(Res, Tid).
     guardR (dbg \<longrightarrow> Res = 0) AssertFailed (guardR (dbg \<longrightarrow> Tid \<le> 0xFFFFFFFF) AssertFailed (Inr (ucast Tid))))"

text \<open>What \<open>read\<close> delivers, or \<open>None\<close> with an error number; the status, and the buffer afterwards.\<close>

definition posix_CxPlatRandom :: "(int \<Rightarrow> nat \<Rightarrow> u8 list option) \<Rightarrow> u32 \<Rightarrow> posix_globals \<Rightarrow> u8 list \<Rightarrow> u32 \<times> u8 list" where
  "posix_CxPlatRandom read_fd err g Buffer = (case read_fd (RandomFd g) (length Buffer) of
      None \<Rightarrow> (err, Buffer)
    | Some bytes \<Rightarrow> (0, bytes @ drop (length bytes) Buffer))"

section \<open>Windows kernel\<close>

record winkernel_CX_PLATFORM =
  RngAlgorithm :: "nat option"
  winkernel_AllocFailDenominator :: i32
  winkernel_AllocCounter :: i32

record winkernel_globals =
  wk_PerfFreq :: u64
  wk_ProcessorCount :: u32
  wk_platform :: winkernel_CX_PLATFORM
  providers :: "nat set"

text \<open>Opening the algorithm gives a status and what is then in the handle variable; success gives an open provider.\<close>

record kernel_system =
  active_processors :: u32
  kernel_frequency :: u64
  open_provider :: "u32 \<times> nat option"

definition status_ok :: "u32 \<Rightarrow> bool" where
  "status_ok s \<longleftrightarrow> 0 \<le> sint s"

definition close_provider :: "nat option \<Rightarrow> nat set \<Rightarrow> nat set" where
  "close_provider h B = (case h of None \<Rightarrow> B | Some a \<Rightarrow> B - {a})"

definition winkernel_CxPlatInitialize :: "bool \<Rightarrow> kernel_system \<Rightarrow> winkernel_globals \<Rightarrow> (u32 \<times> winkernel_globals) result" where
  "winkernel_CxPlatInitialize dbg S g = (case open_provider S of (Status, h) \<Rightarrow>
     let g = g\<lparr>wk_ProcessorCount := active_processors S, wk_PerfFreq := kernel_frequency S,
               wk_platform := (wk_platform g)\<lparr>RngAlgorithm := h\<rparr>,
               providers := (if status_ok Status then providers g \<union> set_option h else providers g)\<rparr> in
     if \<not> status_ok Status then
       Inr (Status, if h \<noteq> None then g\<lparr>providers := close_provider h (providers g), wk_platform := (wk_platform g)\<lparr>RngAlgorithm := None\<rparr>\<rparr> else g)
     else guardR (dbg \<longrightarrow> h \<noteq> None) AssertFailed (Inr (Status, g)))"

definition winkernel_CxPlatUninitialize :: "winkernel_globals \<Rightarrow> winkernel_globals" where
  "winkernel_CxPlatUninitialize g =
     g\<lparr>providers := close_provider (RngAlgorithm (wk_platform g)) (providers g), wk_platform := (wk_platform g)\<lparr>RngAlgorithm := None\<rparr>\<rparr>"

definition winkernel_CxPlatSetAllocFailDenominator :: "i32 \<Rightarrow> winkernel_CX_PLATFORM \<Rightarrow> winkernel_CX_PLATFORM" where
  "winkernel_CxPlatSetAllocFailDenominator Value P = P\<lparr>winkernel_AllocFailDenominator := Value, winkernel_AllocCounter := 0\<rparr>"

definition winkernel_CxPlatGetAllocFailDenominator :: "winkernel_CX_PLATFORM \<Rightarrow> i32" where
  "winkernel_CxPlatGetAllocFailDenominator P = winkernel_AllocFailDenominator P"

text \<open>The generator is an argument: algorithm, length and flags give the status and the bytes.\<close>

definition winkernel_CxPlatRandom :: "bool \<Rightarrow> (nat option \<Rightarrow> nat \<Rightarrow> u32 \<Rightarrow> u32 \<times> u8 list) \<Rightarrow> nat \<Rightarrow> winkernel_globals \<Rightarrow> (u32 \<times> u8 list) result" where
  "winkernel_CxPlatRandom dbg GenRandom BufferLen g =
     guardR (dbg \<longrightarrow> RngAlgorithm (wk_platform g) \<noteq> None) AssertFailed (Inr (GenRandom (RngAlgorithm (wk_platform g)) BufferLen 0))"

definition winuser_CxPlatRandom :: "(nat option \<Rightarrow> nat \<Rightarrow> u32 \<Rightarrow> u32 \<times> u8 list) \<Rightarrow> nat \<Rightarrow> u32 \<times> u8 list" where
  "winuser_CxPlatRandom GenRandom BufferLen = GenRandom None BufferLen 2"

definition winkernel_CxPlatProcCurrentNumber :: "u32 \<Rightarrow> winkernel_globals \<Rightarrow> u32 result" where
  "winkernel_CxPlatProcCurrentNumber index g =
     guardR (wk_ProcessorCount g \<noteq> 0) DivByZero (Inr (index mod wk_ProcessorCount g))"

text \<open>Closing a handle; \<open>HRESULT_FROM_WIN32\<close> and the outcome of the system call are arguments.\<close>

definition winuser_CxPlatGetLastErrorAsStatus :: "(u32 \<Rightarrow> u32) \<Rightarrow> u32 \<Rightarrow> u32" where
  "winuser_CxPlatGetLastErrorAsStatus HresultFromWin32 LastError = HresultFromWin32 LastError"

definition winuser_CxPlatCloseHandle :: "(u32 \<Rightarrow> u32) \<Rightarrow> u32 \<Rightarrow> bool \<Rightarrow> u32" where
  "winuser_CxPlatCloseHandle HresultFromWin32 LastError CloseHandle =
     (if CloseHandle then 0 else winuser_CxPlatGetLastErrorAsStatus HresultFromWin32 LastError)"

section \<open>Timed waits\<close>

text \<open>
  The kernel waits are given the due time in 100 nanoseconds, negative for a relative time. A wait ends with a
  status and the state it leaves, or does not return.
\<close>

type_synonym 's wait = "(u32 \<times> 's) option"

definition wait_succeeded :: "'s wait \<Rightarrow> (bool \<times> 's) option" where
  "wait_succeeded = map_option (\<lambda>(s, st). (s = 0, st))"

definition winkernel_CxPlatInternalEventWaitWithTimeout :: "bool \<Rightarrow> (u32 \<Rightarrow> u32 \<Rightarrow> u64) \<Rightarrow> (i64 \<Rightarrow> 's wait) \<Rightarrow> u32 \<Rightarrow> 's wait result" where
  "winkernel_CxPlatInternalEventWaitWithTimeout dbg UMul KeWait TimeoutMs =
     bindR (winkernel_Timeout100Ns dbg UMul TimeoutMs) (\<lambda>Timeout100Ns. Inr (KeWait Timeout100Ns))"

definition winkernel_CxPlatInternalThreadWaitWithTimeout :: "bool \<Rightarrow> (u32 \<Rightarrow> u32 \<Rightarrow> u64) \<Rightarrow> (i64 \<Rightarrow> 's wait) \<Rightarrow> u32 \<Rightarrow> 's wait result" where
  "winkernel_CxPlatInternalThreadWaitWithTimeout dbg UMul KeWait TimeoutMs =
     bindR (winkernel_Timeout100Ns dbg UMul TimeoutMs) (\<lambda>Timeout100Ns. Inr (KeWait Timeout100Ns))"

definition winkernel_CxPlatEventWaitWithTimeout ::
  "bool \<Rightarrow> (u32 \<Rightarrow> u32 \<Rightarrow> u64) \<Rightarrow> (i64 \<Rightarrow> 's wait) \<Rightarrow> u32 \<Rightarrow> (bool \<times> 's) option result" where
  "winkernel_CxPlatEventWaitWithTimeout dbg UMul KeWait TimeoutMs =
     bindR (winkernel_CxPlatInternalEventWaitWithTimeout dbg UMul KeWait TimeoutMs) (\<lambda>r. Inr (wait_succeeded r))"

definition winkernel_CxPlatThreadWaitWithTimeout ::
  "bool \<Rightarrow> (u32 \<Rightarrow> u32 \<Rightarrow> u64) \<Rightarrow> (i64 \<Rightarrow> 's wait) \<Rightarrow> u32 \<Rightarrow> (bool \<times> 's) option result" where
  "winkernel_CxPlatThreadWaitWithTimeout dbg UMul KeWait TimeoutMs =
     bindR (winkernel_CxPlatInternalThreadWaitWithTimeout dbg UMul KeWait TimeoutMs) (\<lambda>r. Inr (wait_succeeded r))"

definition winuser_CxPlatEventWaitWithTimeout :: "bool \<Rightarrow> (u32 \<Rightarrow> 's wait) \<Rightarrow> u32 \<Rightarrow> (bool \<times> 's) option result" where
  "winuser_CxPlatEventWaitWithTimeout dbg WaitForSingleObject TimeoutMs =
     guardR (dbg \<longrightarrow> TimeoutMs \<noteq> 0xFFFFFFFF) AssertFailed (Inr (wait_succeeded (WaitForSingleObject TimeoutMs)))"

section \<open>Properties\<close>

text \<open>The NUMA part takes one block, or fails an assertion.\<close>

lemma init_numa_cases:
  assumes "\<forall>n a. malloc S n = Some a \<longrightarrow> a \<notin> malloc_blocks g" and "posix_init_numa dbg S g = Inr g'"
  shows "open_fds g' = open_fds g \<and>
    (if numa_available S then \<exists>a. a \<notin> malloc_blocks g \<and> CxPlatNumaNodeMasks g' = Some a \<and> malloc_blocks g' = insert a (malloc_blocks g)
     else CxPlatNumaNodeMasks g' = CxPlatNumaNodeMasks g \<and> malloc_blocks g' = malloc_blocks g)"
  using assms
  by (auto simp: posix_init_numa_def posix_CxPlatAlloc_def bindR_eq_Inr_iff Let_def split: if_splits option.splits prod.splits)

lemma fill_node_masks_fault: "fill_node_masks q ns = Inl e \<Longrightarrow> e = AssertFailed"
proof (induction ns)
  case (Cons n ns)
  then show ?case by (cases "fill_node_masks q ns") (auto split: option.splits)
qed simp

lemma init_numa_fault: "posix_init_numa dbg S g = Inl e \<Longrightarrow> e = AssertFailed"
  by (cases "fill_node_masks (node_cpus S) [0..<unat (ucast (configured_nodes S) :: u32)]")
    (auto simp: posix_init_numa_def posix_CxPlatAlloc_def guardR_def Let_def dest: fill_node_masks_fault split: if_splits option.splits prod.splits)

text \<open>
  Start and stop on POSIX, with and without NUMA awareness: the only faults of \<open>CxPlatInitialize\<close> are its assertions. After success
  \<open>CxPlatUninitialize\<close> runs without a fault and gives back exactly the descriptor and the block that were taken. When the random device
  cannot be opened the status is the error and no descriptor is left, but the block of the node masks is.
\<close>

theorem posix_lifecycle:
  assumes "\<forall>n a. malloc S n = Some a \<longrightarrow> a \<notin> malloc_blocks g" and "CxPlatNumaNodeMasks g = None" and "urandom S \<notin> open_fds g"
  shows "case posix_CxPlatInitialize dbg linux numa S g of
      Inl e \<Rightarrow> e = AssertFailed \<and> numa \<and> numa_available S
    | Inr (Status, g') \<Rightarrow>
        if urandom S \<noteq> -1
        then Status = 0 \<and> (\<exists>g''. posix_CxPlatUninitialize numa g' = Inr g'' \<and> open_fds g'' = open_fds g \<and> malloc_blocks g'' = malloc_blocks g)
        else Status = open_errno S \<and> open_fds g' = open_fds g \<and> (malloc_blocks g' = malloc_blocks g \<longleftrightarrow> \<not> (numa \<and> numa_available S))"
proof -
  let ?g0 = "(if dbg then g\<lparr>px_platform := posix_CxPlatSetAllocFailDenominator 0 (px_platform g)\<rparr> else g)
    \<lparr>px_ProcessorCount := (if linux then ucast (online_processors S) else 1)\<rparr>"
  have g0: "malloc_blocks ?g0 = malloc_blocks g" "open_fds ?g0 = open_fds g" "CxPlatNumaNodeMasks ?g0 = None"
    using assms(2) by simp_all
  show ?thesis
  proof (cases "if numa then posix_init_numa dbg S ?g0 else Inr ?g0")
    case (Inl e)
    then have "numa" and e: "posix_init_numa dbg S ?g0 = Inl e" by (auto split: if_splits)
    moreover have "numa_available S" using e by (auto simp: posix_init_numa_def split: if_splits)
    ultimately show ?thesis using Inl init_numa_fault [OF e] by (simp add: posix_CxPlatInitialize_def Let_def)
  next
    case (Inr g1)
    have "posix_CxPlatInitialize dbg linux numa S g = (if urandom S = -1 then Inr (open_errno S, g1\<lparr>RandomFd := urandom S\<rparr>)
        else Inr (0, g1\<lparr>RandomFd := urandom S, open_fds := insert (urandom S) (open_fds g1)\<rparr>))"
      using Inr by (simp add: posix_CxPlatInitialize_def Let_def)
    moreover have "open_fds g1 = open_fds g \<and>
      (if numa \<and> numa_available S then \<exists>a. a \<notin> malloc_blocks g \<and> CxPlatNumaNodeMasks g1 = Some a \<and> malloc_blocks g1 = insert a (malloc_blocks g)
       else CxPlatNumaNodeMasks g1 = None \<and> malloc_blocks g1 = malloc_blocks g)"
      using Inr g0 assms(1) init_numa_cases [of S ?g0 dbg g1] by (cases numa) (auto split: if_splits)
    ultimately show ?thesis using assms(3)
      by (auto simp: posix_CxPlatUninitialize_def posix_CxPlatFree_def Let_def split: if_splits)
  qed
qed

definition demo_posix_system :: posix_system where
  "demo_posix_system = \<lparr>online_processors = 8, numa_available = True, configured_nodes = 2, malloc = (\<lambda>n. Some 4096),
     node_cpus = (\<lambda>n. if n = 0 then Some [0, 1, 2, 3] else Some [4, 5, 6, 7]), urandom = -1, open_errno = 24, random_word = 0\<rparr>"

definition demo_posix_globals :: posix_globals where
  "demo_posix_globals = \<lparr>px_platform = \<lparr>posix_AllocFailDenominator = 0, posix_AllocCounter = 0\<rparr>, RandomFd = -1, px_ProcessorCount = 0,
     CxPlatNumaNodeCount = 0, CxPlatNumaNodeMasks = None, mask_table = [], open_fds = {0, 1, 2}, malloc_blocks = {}\<rparr>"

theorem posix_lifecycle_witness:
  "\<exists>Status g'. posix_CxPlatInitialize False True True demo_posix_system demo_posix_globals = Inr (Status, g') \<and> Status = 24 \<and>
     open_fds g' = {0, 1, 2} \<and> malloc_blocks g' \<noteq> {}"
proof -
  obtain g' where g': "posix_CxPlatInitialize False True True demo_posix_system demo_posix_globals = Inr (24, g')"
    by (simp add: posix_CxPlatInitialize_def posix_init_numa_def posix_CxPlatAlloc_def demo_posix_system_def demo_posix_globals_def Let_def upt_rec)
  have "\<forall>n a. malloc demo_posix_system n = Some a \<longrightarrow> a \<notin> malloc_blocks demo_posix_globals" "CxPlatNumaNodeMasks demo_posix_globals = None"
    "urandom demo_posix_system \<notin> open_fds demo_posix_globals"
    by (simp_all add: demo_posix_system_def demo_posix_globals_def)
  from posix_lifecycle [OF this, where dbg = False and linux = True and numa = True] show ?thesis
    unfolding g' by (simp add: demo_posix_system_def demo_posix_globals_def)
qed

text \<open>
  \<open>CxPlatRandom\<close> on POSIX reports success for a short read, and the rest of the buffer keeps what it held.
\<close>

lemma posix_random_short_read:
  assumes "read_fd (RandomFd g) (length Buffer) = Some bytes" and "length bytes \<le> length Buffer"
  shows "\<exists>B. posix_CxPlatRandom read_fd err g Buffer = (0, B) \<and> length B = length Buffer \<and>
    take (length bytes) B = bytes \<and> drop (length bytes) B = drop (length bytes) Buffer"
  using assms by (simp add: posix_CxPlatRandom_def)

text \<open>
  Start and stop in the Windows kernel: a failure leaves no algorithm and no provider, a success is undone by the stop.
\<close>

lemma winkernel_lifecycle:
  assumes "\<forall>h. snd (open_provider S) = Some h \<longrightarrow> h \<notin> providers g" and "winkernel_CxPlatInitialize dbg S g = Inr (Status, g')"
  shows "if status_ok Status then providers (winkernel_CxPlatUninitialize g') = providers g \<and> RngAlgorithm (wk_platform (winkernel_CxPlatUninitialize g')) = None
    else providers g' = providers g \<and> RngAlgorithm (wk_platform g') = None"
  using assms
  by (auto simp: winkernel_CxPlatInitialize_def winkernel_CxPlatUninitialize_def close_provider_def Let_def split: prod.splits if_splits option.splits)

text \<open>The processor number is below the count wherever the count is known.\<close>

lemma proc_current_number_bound:
  "px_ProcessorCount g \<noteq> 0 \<Longrightarrow> \<exists>r. posix_CxPlatProcCurrentNumber linux cpu g = Inr r \<and> r < px_ProcessorCount g"
  "wk_ProcessorCount k \<noteq> 0 \<Longrightarrow> \<exists>r. winkernel_CxPlatProcCurrentNumber index k = Inr r \<and> r < wk_ProcessorCount k"
  by (auto simp: posix_CxPlatProcCurrentNumber_def winkernel_CxPlatProcCurrentNumber_def word_less_nat_alt unat_mod unat_gt_0)

text \<open>
  The kernel's timed waits on events and threads hand the system a relative due time of exactly the timeout, for every timeout:
  the product is taken in 64 bits, so that it is negative for all of them but zero, also above \<open>2^31\<close> milliseconds
  where \<open>CxPlatSleep\<close> goes wrong.
\<close>

theorem winkernel_wait_due_time:
  assumes "\<forall>a b. UMul a b = of_nat (unat a * unat b)" and "TimeoutMs \<noteq> 0xFFFFFFFF"
  shows "\<exists>due. winkernel_Timeout100Ns dbg UMul TimeoutMs = Inr due \<and> sint due = - (int (unat TimeoutMs) * 10000) \<and>
    winkernel_CxPlatEventWaitWithTimeout dbg UMul KeWait TimeoutMs = Inr (wait_succeeded (KeWait due)) \<and>
    winkernel_CxPlatThreadWaitWithTimeout dbg UMul KeWait TimeoutMs = Inr (wait_succeeded (KeWait due))"
proof -
  have small: "sint (- (of_nat (k * 10000)) :: i64) = - (int k * 10000)" if "k < 2 ^ 32" for k
  proof -
    have "- (of_nat (k * 10000)) = (word_of_int (- (int k * 10000)) :: i64)" by simp
    moreover have "int k * 10000 < 2 ^ 62" using that by simp
    ultimately show ?thesis by (simp add: signed_of_int signed_take_bit_int_eq_self del: of_int_minus)
  qed
  have "unat TimeoutMs < 2 ^ LENGTH(32)" by (rule unsigned_less)
  then have "sint (- (of_nat (unat TimeoutMs * 10000)) :: i64) = - (int (unat TimeoutMs) * 10000)" by (intro small) simp
  then show ?thesis using assms
    by (simp add: winkernel_Timeout100Ns_def winkernel_CxPlatEventWaitWithTimeout_def winkernel_CxPlatInternalEventWaitWithTimeout_def
        winkernel_CxPlatThreadWaitWithTimeout_def winkernel_CxPlatInternalThreadWaitWithTimeout_def)
qed

theorem winkernel_wait_due_time_witness:
  "\<exists>due. winkernel_Timeout100Ns True (\<lambda>a b. of_nat (unat a * unat b)) 0x80000000 = Inr due \<and> sint due = - 21474836480000"
  using winkernel_wait_due_time [of "\<lambda>a b. of_nat (unat a * unat b)" "0x80000000" True "\<lambda>_. Some (0, ())"] by auto

end
