(* ===== verification/CxWinEvent.thy ===== *)
theory CxWinEvent
  imports CxEvent CxLock CxStartup
begin

text \<open>
  The events of user mode Windows (\<open>inc/cxplat_winuser.h\<close>) and of the Windows kernel
  (\<open>inc/cxplat_winkernel.h\<close>). The event objects belong to the system: its functions are the fields of a
  record that the operations take as an argument, and \<open>documented_events\<close> and \<open>documented_kevents\<close> state
  what their documentation promises. Every operation of the library is one call of the system, so
  calls of several threads are a sequence in the order in which they take effect. The operations
  are compared with the atomic event that the POSIX implementation is proved against in \<open>CxEvent\<close>.
\<close>

section \<open>User mode\<close>

text \<open>A handle is a number, NULL is \<open>None\<close>; a wait that does not return yields \<open>None\<close>.\<close>

type_synonym handle = "nat option"

record 's event_system =
  CreateEvent :: "bool \<Rightarrow> bool \<Rightarrow> 's \<Rightarrow> handle \<times> 's"
  SetEvent :: "handle \<Rightarrow> 's \<Rightarrow> bool \<times> 's"
  ResetEvent :: "handle \<Rightarrow> 's \<Rightarrow> bool \<times> 's"
  WaitForSingleObject :: "handle \<Rightarrow> u32 \<Rightarrow> 's \<Rightarrow> 's wait"
  CloseHandle :: "handle \<Rightarrow> 's \<Rightarrow> bool \<times> 's"
  GetLastError :: "'s \<Rightarrow> u32"

definition winuser_CxPlatEventInitialize :: "bool \<Rightarrow> 's event_system \<Rightarrow> bool \<Rightarrow> bool \<Rightarrow> 's \<Rightarrow> (handle \<times> 's) result" where
  "winuser_CxPlatEventInitialize dbg Sys ManualReset InitialState s =
     (case CreateEvent Sys ManualReset InitialState s of (Event, s) \<Rightarrow>
        guardR (dbg \<longrightarrow> Event \<noteq> None) AssertFailed (Inr (Event, s)))"

definition winuser_CxPlatEventUninitialize :: "(u32 \<Rightarrow> u32) \<Rightarrow> 's event_system \<Rightarrow> handle \<Rightarrow> 's \<Rightarrow> u32 \<times> 's" where
  "winuser_CxPlatEventUninitialize HresultFromWin32 Sys Event s =
     (case CloseHandle Sys Event s of (ok, s) \<Rightarrow> (winuser_CxPlatCloseHandle HresultFromWin32 (GetLastError Sys s) ok, s))"

definition winuser_CxPlatEventSet :: "'s event_system \<Rightarrow> handle \<Rightarrow> 's \<Rightarrow> bool \<times> 's" where
  "winuser_CxPlatEventSet Sys Event s = SetEvent Sys Event s"

definition winuser_CxPlatEventReset :: "'s event_system \<Rightarrow> handle \<Rightarrow> 's \<Rightarrow> bool \<times> 's" where
  "winuser_CxPlatEventReset Sys Event s = ResetEvent Sys Event s"

definition winuser_CxPlatEventWaitForever :: "'s event_system \<Rightarrow> handle \<Rightarrow> 's \<Rightarrow> 's wait" where
  "winuser_CxPlatEventWaitForever Sys Event s = WaitForSingleObject Sys Event 0xFFFFFFFF s"

text \<open>
  The calls of a client, with the effect its code can infer from the answer. The result of the
  unlimited wait is not looked at, neither by the macro nor by \<open>CxPlatEvent::WaitForever\<close>.
\<close>

fun winuser_event :: "bool \<Rightarrow> 's event_system \<Rightarrow> handle \<Rightarrow> event_call \<Rightarrow> nat \<Rightarrow> 's \<times> effect list \<Rightarrow> ('s \<times> effect list) result option" where
  "winuser_event dbg Sys h EventSet t (s, es) = Some (Inr (snd (winuser_CxPlatEventSet Sys h s), es @ [DidSet]))"
| "winuser_event dbg Sys h EventReset t (s, es) = Some (Inr (snd (winuser_CxPlatEventReset Sys h s), es @ [DidReset]))"
| "winuser_event dbg Sys h EventWaitForever t (s, es) =
     map_option (\<lambda>(r, s). Inr (s, es @ [DidWait])) (winuser_CxPlatEventWaitForever Sys h s)"
| "winuser_event dbg Sys h (EventWaitWithTimeout ms) t (s, es) =
     (case winuser_CxPlatEventWaitWithTimeout dbg (\<lambda>ms. WaitForSingleObject Sys h ms s) ms of
        Inl f \<Rightarrow> Some (Inl f)
      | Inr r \<Rightarrow> map_option (\<lambda>(b, s). Inr (s, es @ [if b then DidWait else DidTimeOut])) r)"

text \<open>
  The documentation, in terms of the event objects \<open>ev s h = Some (manual, signaled)\<close> that exist: creation
  gives NULL or a new handle; setting and resetting an existing object succeed; a wait on a signaled
  object returns \<open>WAIT_OBJECT_0\<close> and resets it unless it is a manual reset event; on an object that is
  not signaled an \<open>INFINITE\<close> wait does not return and any other ends with \<open>WAIT_TIMEOUT\<close>; a wait on NULL
  fails at once.
\<close>

definition documented_events :: "'s event_system \<Rightarrow> ('s \<Rightarrow> nat \<rightharpoonup> bool \<times> bool) \<Rightarrow> bool" where
  "documented_events Sys ev \<longleftrightarrow>
     (\<forall>mr init s h s'. CreateEvent Sys mr init s = (Some h, s') \<longrightarrow> ev s h = None \<and> ev s' = (ev s)(h \<mapsto> (mr, init))) \<and>
     (\<forall>h s mr sig. ev s h = Some (mr, sig) \<longrightarrow>
        (\<exists>s'. SetEvent Sys (Some h) s = (True, s') \<and> ev s' = (ev s)(h \<mapsto> (mr, True))) \<and>
        (\<exists>s'. ResetEvent Sys (Some h) s = (True, s') \<and> ev s' = (ev s)(h \<mapsto> (mr, False)))) \<and>
     (\<forall>h s mr ms. ev s h = Some (mr, True) \<longrightarrow>
        (\<exists>s'. WaitForSingleObject Sys (Some h) ms s = Some (0, s') \<and> ev s' = (ev s)(h \<mapsto> (mr, mr)))) \<and>
     (\<forall>h s mr ms. ev s h = Some (mr, False) \<longrightarrow>
        (if ms = 0xFFFFFFFF then WaitForSingleObject Sys (Some h) ms s = None
         else \<exists>s'. WaitForSingleObject Sys (Some h) ms s = Some (258, s') \<and> ev s' = ev s)) \<and>
     (\<forall>ms s. WaitForSingleObject Sys None ms s = Some (0xFFFFFFFF, s))"

lemma documented_eventsD:
  assumes "documented_events Sys ev" and "ev s h = Some (mr, sig)"
  shows "\<exists>s'. SetEvent Sys (Some h) s = (True, s') \<and> ev s' = (ev s)(h \<mapsto> (mr, True))"
    and "\<exists>s'. ResetEvent Sys (Some h) s = (True, s') \<and> ev s' = (ev s)(h \<mapsto> (mr, False))"
    and "sig \<Longrightarrow> \<exists>s'. WaitForSingleObject Sys (Some h) ms s = Some (0, s') \<and> ev s' = (ev s)(h \<mapsto> (mr, mr))"
    and "\<not> sig \<Longrightarrow> WaitForSingleObject Sys (Some h) 0xFFFFFFFF s = None"
    and "\<not> sig \<Longrightarrow> ms \<noteq> 0xFFFFFFFF \<Longrightarrow> \<exists>s'. WaitForSingleObject Sys (Some h) ms s = Some (258, s') \<and> ev s' = ev s"
proof -
  note d = assms(1) [unfolded documented_events_def, THEN conjunct2]
  show "\<exists>s'. SetEvent Sys (Some h) s = (True, s') \<and> ev s' = (ev s)(h \<mapsto> (mr, True))"
    and "\<exists>s'. ResetEvent Sys (Some h) s = (True, s') \<and> ev s' = (ev s)(h \<mapsto> (mr, False))"
    using d [THEN conjunct1] assms(2) by blast+
  show "\<exists>s'. WaitForSingleObject Sys (Some h) ms s = Some (0, s') \<and> ev s' = (ev s)(h \<mapsto> (mr, mr))" if "sig"
    using d [THEN conjunct2, THEN conjunct1, rule_format, of s h mr ms] assms(2) that by simp
  note w = d [THEN conjunct2, THEN conjunct2, THEN conjunct1, rule_format, of s h mr]
  show "WaitForSingleObject Sys (Some h) 0xFFFFFFFF s = None" if "\<not> sig"
    using w [of "0xFFFFFFFF"] assms(2) that by simp
  show "\<exists>s'. WaitForSingleObject Sys (Some h) ms s = Some (258, s') \<and> ev s' = ev s" if "\<not> sig" "ms \<noteq> 0xFFFFFFFF"
    using w [of ms] assms(2) that by simp
qed

section \<open>Windows kernel\<close>

text \<open>The event is an object in memory that the caller owns.\<close>

datatype EVENT_TYPE = NotificationEvent | SynchronizationEvent

record 'e kevent_system =
  KeInitializeEvent :: "EVENT_TYPE \<Rightarrow> bool \<Rightarrow> 'e"
  KeSetEvent :: "'e \<Rightarrow> 'e"
  KeResetEvent :: "'e \<Rightarrow> 'e"
  KeWaitForSingleObject :: "i64 option \<Rightarrow> 'e \<Rightarrow> 'e wait"

definition winkernel_CxPlatEventInitialize :: "'e kevent_system \<Rightarrow> bool \<Rightarrow> bool \<Rightarrow> 'e" where
  "winkernel_CxPlatEventInitialize Sys ManualReset InitialState =
     KeInitializeEvent Sys (if ManualReset then NotificationEvent else SynchronizationEvent) InitialState"

definition winkernel_CxPlatEventUninitialize :: "'e \<Rightarrow> 'e" where
  "winkernel_CxPlatEventUninitialize Event = Event"

definition winkernel_CxPlatEventSet :: "'e kevent_system \<Rightarrow> 'e \<Rightarrow> 'e" where
  "winkernel_CxPlatEventSet Sys Event = KeSetEvent Sys Event"

definition winkernel_CxPlatEventReset :: "'e kevent_system \<Rightarrow> 'e \<Rightarrow> 'e" where
  "winkernel_CxPlatEventReset Sys Event = KeResetEvent Sys Event"

definition winkernel_CxPlatEventWaitForever :: "'e kevent_system \<Rightarrow> 'e \<Rightarrow> 'e wait" where
  "winkernel_CxPlatEventWaitForever Sys Event = KeWaitForSingleObject Sys None Event"

fun winkernel_event ::
  "bool \<Rightarrow> (u32 \<Rightarrow> u32 \<Rightarrow> u64) \<Rightarrow> 'e kevent_system \<Rightarrow> event_call \<Rightarrow> nat \<Rightarrow> 'e \<times> effect list \<Rightarrow> ('e \<times> effect list) result option" where
  "winkernel_event dbg UMul Sys EventSet t (e, es) = Some (Inr (winkernel_CxPlatEventSet Sys e, es @ [DidSet]))"
| "winkernel_event dbg UMul Sys EventReset t (e, es) = Some (Inr (winkernel_CxPlatEventReset Sys e, es @ [DidReset]))"
| "winkernel_event dbg UMul Sys EventWaitForever t (e, es) =
     map_option (\<lambda>(r, e). Inr (e, es @ [DidWait])) (winkernel_CxPlatEventWaitForever Sys e)"
| "winkernel_event dbg UMul Sys (EventWaitWithTimeout ms) t (e, es) =
     (case winkernel_CxPlatEventWaitWithTimeout dbg UMul (\<lambda>due. KeWaitForSingleObject Sys (Some due) e) ms of
        Inl f \<Rightarrow> Some (Inl f)
      | Inr r \<Rightarrow> map_option (\<lambda>(b, e). Inr (e, es @ [if b then DidWait else DidTimeOut])) r)"

text \<open>The documentation: \<open>kev e = (notification, signaled)\<close>; a wait with a due time ends with \<open>STATUS_TIMEOUT\<close>.\<close>

definition documented_kevents :: "'e kevent_system \<Rightarrow> ('e \<Rightarrow> bool \<times> bool) \<Rightarrow> bool" where
  "documented_kevents Sys kev \<longleftrightarrow>
     (\<forall>ty init. kev (KeInitializeEvent Sys ty init) = (ty = NotificationEvent, init)) \<and>
     (\<forall>e. kev (KeSetEvent Sys e) = (fst (kev e), True) \<and> kev (KeResetEvent Sys e) = (fst (kev e), False)) \<and>
     (\<forall>e due. if snd (kev e)
        then \<exists>e'. KeWaitForSingleObject Sys due e = Some (0, e') \<and> kev e' = (fst (kev e), fst (kev e))
        else if due = None then KeWaitForSingleObject Sys due e = None
        else \<exists>e'. KeWaitForSingleObject Sys due e = Some (0x102, e') \<and> kev e' = kev e)"

section \<open>The atomic event\<close>

text \<open>
  Calls on an atomic event. \<open>forever\<close> says what a release build makes of the timeout that is not one: user
  mode hands the system \<open>INFINITE\<close>, the kernel a due time.
\<close>

fun atomic_event :: "bool \<Rightarrow> bool \<Rightarrow> bool \<Rightarrow> event_call \<Rightarrow> nat \<Rightarrow> bool \<times> effect list \<Rightarrow> (bool \<times> effect list) result option" where
  "atomic_event forever dbg manual EventSet t (f, es) = Some (Inr (True, es @ [DidSet]))"
| "atomic_event forever dbg manual EventReset t (f, es) = Some (Inr (False, es @ [DidReset]))"
| "atomic_event forever dbg manual EventWaitForever t (f, es) = (if f then Some (Inr (manual, es @ [DidWait])) else None)"
| "atomic_event forever dbg manual (EventWaitWithTimeout ms) t (f, es) =
     (if dbg \<and> ms = 0xFFFFFFFF then Some (Inl AssertFailed)
      else if f then Some (Inr (manual, es @ [DidWait]))
      else if forever \<and> ms = 0xFFFFFFFF then None
      else Some (Inr (f, es @ [DidTimeOut])))"

lemma atomic_event_replays:
  "lock_run (atomic_event forever dbg manual) ops (f, es) = Some (Inr (f', es')) \<Longrightarrow>
    \<exists>new. es' = es @ new \<and> replay (\<not> manual) f new = Some f'"
proof (induction ops arbitrary: f es)
  case (Cons x ops)
  obtain t c where x: "x = (t, c)" by (cases x)
  obtain f1 e where step: "atomic_event forever dbg manual c t (f, es) = Some (Inr (f1, es @ [e]))"
      and one: "replay (\<not> manual) f [e] = Some f1"
      and rest: "lock_run (atomic_event forever dbg manual) ops (f1, es @ [e]) = Some (Inr (f', es'))"
    using Cons.prems x by (cases c) (auto split: if_splits)
  from Cons.IH [OF rest] obtain new where "es' = es @ e # new" "replay (\<not> manual) f1 new = Some f'" by auto
  then show ?case using one replay_append [of "\<not> manual" f "[e]" new] by auto
qed simp

lemma atomic_event_same:
  "\<forall>(t, c) \<in> set ops. valid_call c \<Longrightarrow>
    lock_run (atomic_event True dbg manual) ops st = lock_run (atomic_event False dbg manual) ops st"
proof (induction ops arbitrary: st)
  case (Cons x ops)
  obtain t c where x: "x = (t, c)" by (cases x)
  have "atomic_event True dbg manual c t st = atomic_event False dbg manual c t st"
    using Cons.prems x by (cases st; cases c) (auto simp: valid_call_def)
  then show ?case using Cons x by (auto split: option.splits sum.splits)
qed simp

section \<open>Both platforms implement it\<close>

text \<open>One call, against the atomic event with the same flag.\<close>

lemma winuser_event_step:
  assumes "documented_events Sys ev" and sig: "ev s h = Some (manual, sig)"
  shows "case atomic_event True dbg manual c t (sig, es) of
      None \<Rightarrow> winuser_event dbg Sys (Some h) c t (s, es) = None
    | Some (Inl f) \<Rightarrow> winuser_event dbg Sys (Some h) c t (s, es) = Some (Inl f)
    | Some (Inr (sig', es')) \<Rightarrow> \<exists>s'. winuser_event dbg Sys (Some h) c t (s, es) = Some (Inr (s', es')) \<and>
        ev s' = (ev s)(h \<mapsto> (manual, sig'))"
proof (cases c)
  case EventWaitForever
  then show ?thesis using documented_eventsD(3) [OF assms, of "0xFFFFFFFF"] documented_eventsD(4) [OF assms]
    by (cases sig) (auto simp: winuser_CxPlatEventWaitForever_def)
next
  case (EventWaitWithTimeout ms)
  have "ev s = (ev s)(h \<mapsto> (manual, sig))" using sig by (simp add: fun_upd_idem)
  then show ?thesis using EventWaitWithTimeout documented_eventsD(3,5) [OF assms, of ms] documented_eventsD(4) [OF assms]
    by (cases sig; cases "ms = 0xFFFFFFFF")
      (auto simp: winuser_CxPlatEventWaitWithTimeout_def wait_succeeded_def guardR_def, blast+)
qed (use documented_eventsD(1,2) [OF assms] in \<open>auto simp: winuser_CxPlatEventSet_def winuser_CxPlatEventReset_def\<close>)

lemma winkernel_event_step:
  assumes "documented_kevents Sys kev" and sig: "kev e = (manual, sig)"
  shows "case atomic_event False dbg manual c t (sig, es) of
      None \<Rightarrow> winkernel_event dbg UMul Sys c t (e, es) = None
    | Some (Inl f) \<Rightarrow> winkernel_event dbg UMul Sys c t (e, es) = Some (Inl f)
    | Some (Inr (sig', es')) \<Rightarrow> \<exists>e'. winkernel_event dbg UMul Sys c t (e, es) = Some (Inr (e', es')) \<and> kev e' = (manual, sig')"
proof -
  note d = assms(1) [unfolded documented_kevents_def, THEN conjunct2]
  have set_reset: "kev (KeSetEvent Sys e) = (manual, True)" "kev (KeResetEvent Sys e) = (manual, False)"
    using d [THEN conjunct1] sig by simp_all
  note w = d [THEN conjunct2, rule_format, of e]
  show ?thesis
  proof (cases c)
    case EventWaitForever
    then show ?thesis using w [of None] sig by (cases sig) (auto simp: winkernel_CxPlatEventWaitForever_def)
  next
    case (EventWaitWithTimeout ms)
    then show ?thesis using w [of "Some (- UMul ms 10000)"] sig
      by (cases sig; cases "ms = 0xFFFFFFFF") (auto simp: winkernel_CxPlatEventWaitWithTimeout_def
          winkernel_CxPlatInternalEventWaitWithTimeout_def winkernel_Timeout100Ns_def wait_succeeded_def guardR_def, blast+)
  qed (use set_reset in \<open>auto simp: winkernel_CxPlatEventSet_def winkernel_CxPlatEventReset_def\<close>)
qed

text \<open>Both are lock classes in the sense of \<open>CxLock\<close>: objects whose calls refine a specification.\<close>

lemma winuser_event_class:
  assumes "documented_events Sys ev"
  shows "lock_class (winuser_event dbg Sys (Some h)) (\<lambda>(s, es). \<exists>sig. ev s h = Some (manual, sig) \<and> ev s |` (- {h}) = E)
    (\<lambda>(s, es). (snd (the (ev s h)), es)) (atomic_event True dbg manual)"
proof
  fix st :: "'a \<times> effect list" and c t st'
  obtain s es where st: "st = (s, es)" by (cases st)
  assume "case st of (s, es) \<Rightarrow> \<exists>sig. ev s h = Some (manual, sig) \<and> ev s |` (- {h}) = E"
  then obtain sig where sig: "ev s h = Some (manual, sig)" "ev s |` (- {h}) = E" using st by auto
  note r = winuser_event_step [OF assms sig(1), of dbg c t es]
  show "map_option (map_sum id (\<lambda>(s, es). (snd (the (ev s h)), es))) (winuser_event dbg Sys (Some h) c t st) =
      atomic_event True dbg manual c t (case st of (s, es) \<Rightarrow> (snd (the (ev s h)), es))"
    using r sig by (auto simp: st split: option.splits sum.splits prod.splits)
  show "case st' of (s, es) \<Rightarrow> \<exists>sig. ev s h = Some (manual, sig) \<and> ev s |` (- {h}) = E"
    if "winuser_event dbg Sys (Some h) c t st = Some (Inr st')"
    using r sig that by (auto simp: st split: option.splits sum.splits prod.splits)
qed

lemma winkernel_event_class:
  assumes "documented_kevents Sys kev"
  shows "lock_class (winkernel_event dbg UMul Sys) (\<lambda>(e, es). fst (kev e) = manual)
    (\<lambda>(e, es). (snd (kev e), es)) (atomic_event False dbg manual)"
proof
  fix st :: "'a \<times> effect list" and c t st'
  obtain e es where st: "st = (e, es)" by (cases st)
  assume "case st of (e, es) \<Rightarrow> fst (kev e) = manual"
  then have sig: "kev e = (manual, snd (kev e))" using st by (simp add: prod_eq_iff)
  note r = winkernel_event_step [OF assms sig, where dbg = dbg and c = c and t = t and es = es and UMul = UMul]
  show "map_option (map_sum id (\<lambda>(e, es). (snd (kev e), es))) (winkernel_event dbg UMul Sys c t st) =
      atomic_event False dbg manual c t (case st of (e, es) \<Rightarrow> (snd (kev e), es))"
    using r by (auto simp: st split: option.splits sum.splits prod.splits)
  show "case st' of (e, es) \<Rightarrow> fst (kev e) = manual" if "winkernel_event dbg UMul Sys c t st = Some (Inr st')"
    using r that by (auto simp: st split: option.splits sum.splits prod.splits)
qed

section \<open>Properties\<close>

text \<open>A system with one event object, for concrete runs.\<close>

definition one_event :: "(nat \<rightharpoonup> bool \<times> bool) event_system" where
  "one_event = \<lparr>
     CreateEvent = (\<lambda>mr init s. if s 0 = None then (Some 0, s(0 \<mapsto> (mr, init))) else (None, s)),
     SetEvent = (\<lambda>h s. case h of None \<Rightarrow> (False, s) | Some a \<Rightarrow>
       (case s a of None \<Rightarrow> (False, s) | Some (mr, sig) \<Rightarrow> (True, s(a \<mapsto> (mr, True))))),
     ResetEvent = (\<lambda>h s. case h of None \<Rightarrow> (False, s) | Some a \<Rightarrow>
       (case s a of None \<Rightarrow> (False, s) | Some (mr, sig) \<Rightarrow> (True, s(a \<mapsto> (mr, False))))),
     WaitForSingleObject = (\<lambda>h ms s. case h of None \<Rightarrow> Some (0xFFFFFFFF, s) | Some a \<Rightarrow>
       (case s a of None \<Rightarrow> Some (0xFFFFFFFF, s) | Some (mr, sig) \<Rightarrow>
          if sig then Some (0, s(a \<mapsto> (mr, mr))) else if ms = 0xFFFFFFFF then None else Some (258, s))),
     CloseHandle = (\<lambda>h s. case h of None \<Rightarrow> (False, s) | Some a \<Rightarrow> (s a \<noteq> None, s(a := None))),
     GetLastError = (\<lambda>s. 6)\<rparr>"

lemma one_event_documented: "documented_events one_event id"
  by (auto simp: documented_events_def one_event_def split: if_splits)

definition pair_event :: "(bool \<times> bool) kevent_system" where
  "pair_event = \<lparr>
     KeInitializeEvent = (\<lambda>ty init. (ty = NotificationEvent, init)),
     KeSetEvent = (\<lambda>(mr, sig). (mr, True)),
     KeResetEvent = (\<lambda>(mr, sig). (mr, False)),
     KeWaitForSingleObject = (\<lambda>due (mr, sig). if sig then Some (0, (mr, mr)) else if due = None then None else Some (0x102, (mr, sig)))\<rparr>"

lemma pair_event_documented: "documented_kevents pair_event id"
  by (auto simp: documented_kevents_def pair_event_def)



text \<open>
  A failed creation in user mode is seen by a debug build only. A release build goes on with a NULL
  handle, on which the unlimited wait returns at once: the caller passes an event that nobody has set.
\<close>

theorem winuser_event_null_handle_passes:
  assumes "documented_events Sys ev" and "CreateEvent Sys ManualReset False s = (None, s0)"
  shows "winuser_CxPlatEventInitialize True Sys ManualReset False s = Inl AssertFailed \<and>
    winuser_CxPlatEventInitialize False Sys ManualReset False s = Inr (None, s0) \<and>
    winuser_event False Sys None EventWaitForever t (s0, []) = Some (Inr (s0, [DidWait])) \<and>
    replay (\<not> ManualReset) False [DidWait] = None"
  using assms by (simp add: winuser_CxPlatEventInitialize_def winuser_CxPlatEventWaitForever_def documented_events_def)

theorem winuser_event_null_handle_passes_witness:
  "winuser_event False one_event None EventWaitForever 7 ([0 \<mapsto> (True, True)], []) = Some (Inr ([0 \<mapsto> (True, True)], [DidWait]))"
  using winuser_event_null_handle_passes [OF one_event_documented, of True "[0 \<mapsto> (True, True)]" "[0 \<mapsto> (True, True)]" 7]
  by (simp add: one_event_def)

end
