(* ===== verification/CxProcessor.thy ===== *)
theory CxProcessor
  imports CxAlloc
begin

text \<open>
  The processor tables of \<open>src/lib/cxplat_winuser.c\<close> and \<open>inc/cxplat_winuser.h\<close>, and the start and stop of
  the library in user mode Windows, over the allocator of \<open>CxAlloc\<close>. What the system answers is a
  record of its own: every error path of the code is a value of that record.
\<close>

section \<open>Tables\<close>

record CXPLAT_PROCESSOR_INFO =
  Index :: u32
  Group :: u16

record CXPLAT_PROCESSOR_GROUP_INFO =
  Mask :: u64
  Count :: u32
  Offset :: u32

text \<open>The system's description of the processor groups (the fields the code reads).\<close>

record PROCESSOR_GROUP_INFO =
  MaximumProcessorCount :: u8
  ActiveProcessorCount :: u8
  ActiveProcessorMask :: u64

record GROUP_RELATIONSHIP =
  IsRelationGroup :: bool
  MaximumGroupCount :: u16
  ActiveGroupCount :: u16
  GroupInfo :: "PROCESSOR_GROUP_INFO list"

text \<open>
  Answers of the system: the length the first query asks for, the description the second one stores
  (\<open>None\<close> when it fails), the error code, the heap and the frequency; \<open>ToHresult\<close> and \<open>Failed\<close> are
  the SDK macros \<open>HRESULT_FROM_WIN32\<close> and \<open>FAILED\<close>.
\<close>

record win_system =
  QueryLength :: nat
  QueryResult :: "GROUP_RELATIONSHIP option"
  GetLastError :: u32
  HeapCreate :: "nat option"
  HeapAllocate :: "nat \<Rightarrow> (nat \<rightharpoonup> nat) \<Rightarrow> nat option"
  PerformanceFrequency :: u64
  RandomNumber :: u32
  ToHresult :: "u32 \<Rightarrow> u32"
  Failed :: "u32 \<Rightarrow> bool"

text \<open>The global variables; the contents of the two tables beside their addresses.\<close>

record winuser_globals =
  CxPlatPerfFreq :: u64
  CxPlatform :: winuser_CX_PLATFORM
  CxPlatProcessorInfo :: "nat option"
  CxPlatProcessorGroupInfo :: "nat option"
  CxPlatProcessorCount :: u32
  processor_table :: "CXPLAT_PROCESSOR_INFO option list"
  group_table :: "CXPLAT_PROCESSOR_GROUP_INFO list"
  the_heap :: heap

definition CXPLAT_STATUS_SUCCESS :: u32 where "CXPLAT_STATUS_SUCCESS = 0"
definition CXPLAT_STATUS_OUT_OF_MEMORY :: u32 where "CXPLAT_STATUS_OUT_OF_MEMORY = 0x8007000e"
definition CXPLAT_STATUS_NOT_SUPPORTED :: u32 where "CXPLAT_STATUS_NOT_SUPPORTED = 0x80004002"

definition CXPLAT_POOL_PROC :: u32 where "CXPLAT_POOL_PROC = 0x31307843"
definition CXPLAT_POOL_TMP_ALLOC :: u32 where "CXPLAT_POOL_TMP_ALLOC = 0x32307843"

text \<open>The allocation macros on the global state.\<close>

definition alloc_g :: "bool \<Rightarrow> win_system \<Rightarrow> nat \<Rightarrow> u32 \<Rightarrow> winuser_globals \<Rightarrow> (nat option \<times> winuser_globals) result" where
  "alloc_g dbg S Size Tag g =
     bindR (winuser_CxPlatAlloc dbg (RandomNumber S) (HeapAllocate S) Size Tag (CxPlatform g, the_heap g))
       (\<lambda>(p, P, H). Inr (p, g\<lparr>CxPlatform := P, the_heap := H\<rparr>))"

definition free_g :: "bool \<Rightarrow> nat option \<Rightarrow> u32 \<Rightarrow> winuser_globals \<Rightarrow> winuser_globals result" where
  "free_g dbg Mem Tag g = bindR (winuser_CxPlatFree dbg Mem Tag (the_heap g)) (\<lambda>H. Inr (g\<lparr>the_heap := H\<rparr>))"

section \<open>Querying the groups\<close>

text \<open>Status and the buffer left in the caller's variable.\<close>

definition CxPlatGetProcessorGroupInfo ::
  "bool \<Rightarrow> win_system \<Rightarrow> winuser_globals \<Rightarrow> (u32 \<times> nat option \<times> winuser_globals) result" where
  "CxPlatGetProcessorGroupInfo dbg S g =
     (if QueryLength S = 0 then Inr (ToHresult S (GetLastError S), None, g)
      else bindR (alloc_g dbg S (QueryLength S) CXPLAT_POOL_TMP_ALLOC g) (\<lambda>(Buffer, g).
        if Buffer = None then Inr (CXPLAT_STATUS_OUT_OF_MEMORY, None, g)
        else if QueryResult S = None then
          bindR (free_g dbg Buffer CXPLAT_POOL_TMP_ALLOC g) (\<lambda>g. Inr (ToHresult S (GetLastError S), Buffer, g))
        else Inr (CXPLAT_STATUS_SUCCESS, Buffer, g)))"

section \<open>Building the tables\<close>

text \<open>The sum over the groups, in 32 bits.\<close>

fun sum_active :: "PROCESSOR_GROUP_INFO list \<Rightarrow> u32 \<Rightarrow> u32" where
  "sum_active [] n = n"
| "sum_active (i # is) n = sum_active is (n + ucast (ActiveProcessorCount i))"

text \<open>The loop over the groups: the table and the running \<open>CxPlatProcessorCount\<close>.\<close>

fun fill_groups :: "PROCESSOR_GROUP_INFO list \<Rightarrow> u32 \<Rightarrow> CXPLAT_PROCESSOR_GROUP_INFO list \<times> u32" where
  "fill_groups [] n = ([], n)"
| "fill_groups (i # is) n =
     (case fill_groups is (n + ucast (ActiveProcessorCount i)) of (gs, n') \<Rightarrow>
        (\<lparr>Mask = ActiveProcessorMask i, Count = ucast (ActiveProcessorCount i), Offset = n\<rparr> # gs, n'))"

text \<open>The inner loop of one processor: the first group whose range holds it.\<close>

fun find_group :: "(CXPLAT_PROCESSOR_GROUP_INFO \<times> PROCESSOR_GROUP_INFO) list \<Rightarrow> nat \<Rightarrow> u32 \<Rightarrow> CXPLAT_PROCESSOR_INFO option" where
  "find_group [] k Proc = None"
| "find_group ((gi, i) # rest) k Proc =
     (if Proc \<ge> Offset gi \<and> Proc < Offset gi + ucast (ActiveProcessorCount i)
      then Some \<lparr>Index = Proc - Offset gi, Group = of_nat k\<rparr>
      else find_group rest (Suc k) Proc)"

definition fill_processors :: "CXPLAT_PROCESSOR_GROUP_INFO list \<Rightarrow> PROCESSOR_GROUP_INFO list \<Rightarrow> u32 \<Rightarrow> CXPLAT_PROCESSOR_INFO option list" where
  "fill_processors gs infos n = map (\<lambda>p. find_group (zip gs infos) 0 (of_nat p)) [0..<unat n]"

text \<open>The code behind the \<open>Error\<close> label.\<close>

definition error_label :: "bool \<Rightarrow> win_system \<Rightarrow> u32 \<Rightarrow> nat option \<Rightarrow> winuser_globals \<Rightarrow> (u32 \<times> winuser_globals) result" where
  "error_label dbg S Status Info g =
     bindR (if Info \<noteq> None then free_g dbg Info CXPLAT_POOL_TMP_ALLOC g else Inr g) (\<lambda>g.
     if Failed S Status then
       bindR (if CxPlatProcessorGroupInfo g \<noteq> None
              then bindR (free_g dbg (CxPlatProcessorGroupInfo g) CXPLAT_POOL_PROC g)
                     (\<lambda>g. Inr (g\<lparr>CxPlatProcessorGroupInfo := None\<rparr>))
              else Inr g) (\<lambda>g.
       bindR (if CxPlatProcessorInfo g \<noteq> None
              then bindR (free_g dbg (CxPlatProcessorInfo g) CXPLAT_POOL_PROC g)
                     (\<lambda>g. Inr (g\<lparr>CxPlatProcessorInfo := None\<rparr>))
              else Inr g) (\<lambda>g. Inr (Status, g)))
     else Inr (Status, g))"

text \<open>The second half: the two tables, from the point where the number of processors is known to be good.\<close>

definition allocate_tables ::
  "bool \<Rightarrow> win_system \<Rightarrow> PROCESSOR_GROUP_INFO list \<Rightarrow> u32 \<Rightarrow> nat option \<Rightarrow> winuser_globals \<Rightarrow> (u32 \<times> winuser_globals) result" where
  "allocate_tables dbg S infos Active Info g =
     guardR (CxPlatProcessorInfo g = None) AssertFailed
      (bindR (alloc_g dbg S (unat Active * 8) CXPLAT_POOL_PROC g) (\<lambda>(p, g).
       let g = g\<lparr>CxPlatProcessorInfo := p\<rparr> in
       if p = None then error_label dbg S CXPLAT_STATUS_OUT_OF_MEMORY Info g
       else guardR (dbg \<longrightarrow> CxPlatProcessorGroupInfo g = None) AssertFailed
        (bindR (alloc_g dbg S (length infos * 16) CXPLAT_POOL_PROC g) (\<lambda>(p, g).
         let g = g\<lparr>CxPlatProcessorGroupInfo := p\<rparr> in
         if p = None then error_label dbg S CXPLAT_STATUS_OUT_OF_MEMORY Info g
         else case fill_groups infos 0 of (gs, n) \<Rightarrow>
           error_label dbg S CXPLAT_STATUS_SUCCESS Info
             (g\<lparr>CxPlatProcessorCount := n, group_table := gs,
                processor_table := fill_processors gs infos Active\<rparr>)))))"

definition CxPlatProcessorInfoInit :: "bool \<Rightarrow> win_system \<Rightarrow> winuser_globals \<Rightarrow> (u32 \<times> winuser_globals) result" where
  "CxPlatProcessorInfoInit dbg S g =
     bindR (CxPlatGetProcessorGroupInfo dbg S g) (\<lambda>(Status, Info, g).
     if Failed S Status then error_label dbg S Status Info g
     else if Info = None then Inl NullDeref
     else case QueryResult S of None \<Rightarrow> Inl UseAfterFree | Some R \<Rightarrow>
       guardR (dbg \<longrightarrow> IsRelationGroup R \<and> ActiveGroupCount R \<noteq> 0 \<and> ActiveGroupCount R \<le> MaximumGroupCount R) AssertFailed
       (if ActiveGroupCount R = 0 then error_label dbg S CXPLAT_STATUS_NOT_SUPPORTED Info g
        else guardR (unat (ActiveGroupCount R) \<le> length (GroupInfo R)) OutOfBounds
         (let infos = take (unat (ActiveGroupCount R)) (GroupInfo R); Active = sum_active infos 0 in
          guardR (dbg \<longrightarrow> Active > 0 \<and> Active \<le> 0xFFFF) AssertFailed
          (if Active = 0 \<or> Active > 0xFFFF then error_label dbg S CXPLAT_STATUS_NOT_SUPPORTED Info g
           else allocate_tables dbg S infos Active Info g))))"

definition CxPlatProcessorInfoUnInit :: "bool \<Rightarrow> winuser_globals \<Rightarrow> winuser_globals result" where
  "CxPlatProcessorInfoUnInit dbg g =
     bindR (free_g dbg (CxPlatProcessorGroupInfo g) CXPLAT_POOL_PROC g) (\<lambda>g.
     let g = g\<lparr>CxPlatProcessorGroupInfo := None\<rparr> in
     bindR (free_g dbg (CxPlatProcessorInfo g) CXPLAT_POOL_PROC g) (\<lambda>g.
     Inr (g\<lparr>CxPlatProcessorInfo := None\<rparr>)))"

text \<open>
  The current processor: group and number as the system reports them. The group indexes the table,
  the number is reduced modulo the size of the group.
\<close>

definition winuser_CxPlatProcCurrentNumber :: "u16 \<Rightarrow> u8 \<Rightarrow> winuser_globals \<Rightarrow> u32 result" where
  "winuser_CxPlatProcCurrentNumber ProcGroup ProcNumber g =
     guardR (unat ProcGroup < length (group_table g)) OutOfBounds
     (let G = group_table g ! unat ProcGroup in
      guardR (Count G \<noteq> 0) DivByZero (Inr (Offset G + (ucast ProcNumber mod Count G))))"

section \<open>Start and stop of the library\<close>

definition winuser_CxPlatInitialize :: "bool \<Rightarrow> win_system \<Rightarrow> winuser_globals \<Rightarrow> (u32 \<times> winuser_globals) result" where
  "winuser_CxPlatInitialize dbg S g =
     (let g = g\<lparr>CxPlatPerfFreq := PerformanceFrequency S, CxPlatform := (CxPlatform g)\<lparr>Heap := HeapCreate S\<rparr>\<rparr> in
      if HeapCreate S = None then Inr (CXPLAT_STATUS_OUT_OF_MEMORY, g)
      else let g = (if dbg then g\<lparr>CxPlatform := winuser_CxPlatSetAllocFailDenominator 0 (CxPlatform g)\<rparr> else g) in
        bindR (CxPlatProcessorInfoInit dbg S g) (\<lambda>(Status, g).
        if Failed S Status
        then Inr (Status, g\<lparr>CxPlatform := (CxPlatform g)\<lparr>Heap := None\<rparr>, the_heap := (the_heap g)\<lparr>live := Map.empty\<rparr>\<rparr>)
        else Inr (CXPLAT_STATUS_SUCCESS, g)))"

text \<open>\<open>HeapDestroy\<close> releases every block of the heap.\<close>

definition winuser_CxPlatUninitialize :: "bool \<Rightarrow> winuser_globals \<Rightarrow> winuser_globals result" where
  "winuser_CxPlatUninitialize dbg g =
     bindR (CxPlatProcessorInfoUnInit dbg g) (\<lambda>g.
     Inr (g\<lparr>CxPlatform := (CxPlatform g)\<lparr>Heap := None\<rparr>, the_heap := (the_heap g)\<lparr>live := Map.empty\<rparr>\<rparr>))"

section \<open>The layout of the tables\<close>

text \<open>Active processors of a group, and the first processor number of the group, as numbers.\<close>

definition act :: "PROCESSOR_GROUP_INFO \<Rightarrow> nat" where
  "act i = unat (ActiveProcessorCount i)"

definition total :: "PROCESSOR_GROUP_INFO list \<Rightarrow> nat" where
  "total infos = sum_list (map act infos)"

lemma act_less: "act i < 256"
proof -
  have "unat (ActiveProcessorCount i) < 2 ^ LENGTH(8)" by (rule unsigned_less)
  then show ?thesis by (simp add: act_def)
qed

lemma act_ucast: "unat (ucast (ActiveProcessorCount i) :: u32) = act i"
  using act_less [of i] by (simp add: act_def unsigned_ucast_eq take_bit_nat_eq_self)

lemma total_bound: "total infos \<le> 255 * length infos"
proof (induction infos)
  case (Cons i infos)
  then show ?case using act_less [of i] by (simp add: total_def)
qed (simp add: total_def)

lemma sum_active_unat:
  "unat n + total infos < 2 ^ 32 \<Longrightarrow> unat (sum_active infos n) = unat n + total infos"
proof (induction infos arbitrary: n)
  case (Cons i infos)
  have "unat (n + ucast (ActiveProcessorCount i)) = unat n + act i"
    using Cons.prems by (subst unat_add_bounded) (simp_all add: act_ucast total_def)
  then show ?case using Cons by (simp add: total_def)
qed (simp add: total_def)

lemma fill_groups_snd: "snd (fill_groups infos n) = sum_active infos n"
  by (induction infos arbitrary: n) (auto split: prod.splits, metis snd_conv)

lemma fill_groups_length: "length (fst (fill_groups infos n)) = length infos"
  by (induction infos arbitrary: n) (auto split: prod.splits, metis fst_conv)

lemma fill_groups_nth:
  assumes "unat n + total infos < 2 ^ 32" and "k < length infos"
  shows "unat (Offset (fst (fill_groups infos n) ! k)) = unat n + total (take k infos) \<and>
    unat (Count (fst (fill_groups infos n) ! k)) = act (infos ! k) \<and>
    Mask (fst (fill_groups infos n) ! k) = ActiveProcessorMask (infos ! k)"
  using assms
proof (induction infos arbitrary: n k)
  case (Cons i infos)
  let ?m = "n + ucast (ActiveProcessorCount i)"
  obtain gs n' where f: "fill_groups infos ?m = (gs, n')" by (cases "fill_groups infos ?m")
  have m: "unat ?m = unat n + act i"
    using Cons.prems by (subst unat_add_bounded) (simp_all add: act_ucast total_def)
  show ?case
  proof (cases k)
    case 0
    then show ?thesis using f by (simp add: act_ucast total_def)
  next
    case (Suc j)
    then show ?thesis using Cons.IH [of ?m j] Cons.prems f m by (simp add: total_def)
  qed
qed simp

lemma find_group_spec:
  assumes "unat n + total infos < 2 ^ 32" and "unat n \<le> unat Proc" and "unat Proc < unat n + total infos"
  shows "\<exists>j e. j < length infos \<and> find_group (zip (fst (fill_groups infos n)) infos) k0 Proc = Some e \<and>
    Group e = of_nat (k0 + j) \<and> unat (Index e) < act (infos ! j) \<and>
    unat n + total (take j infos) + unat (Index e) = unat Proc"
  using assms
proof (induction infos arbitrary: n k0)
  case (Cons i infos)
  let ?m = "n + ucast (ActiveProcessorCount i)"
  obtain gs n' where f: "fill_groups infos ?m = (gs, n')" by (cases "fill_groups infos ?m")
  have m: "unat ?m = unat n + act i"
    using Cons.prems by (subst unat_add_bounded) (simp_all add: act_ucast total_def)
  have lt: "Proc < ?m \<longleftrightarrow> unat Proc < unat n + act i" by (simp add: word_less_nat_alt m)
  show ?case
  proof (cases "unat Proc < unat n + act i")
    case True
    have le: "n \<le> Proc" using Cons.prems(2) by (simp add: word_le_nat_alt)
    then have "unat (Proc - n) = unat Proc - unat n" by (rule unat_sub)
    then show ?thesis using True le lt f Cons.prems(2) by (intro exI [of _ 0]) (auto simp: total_def)
  next
    case False
    then obtain j e where "j < length infos" "find_group (zip gs infos) (Suc k0) Proc = Some e"
      "Group e = of_nat (Suc k0 + j)" "unat (Index e) < act (infos ! j)"
      "unat ?m + total (take j infos) + unat (Index e) = unat Proc"
      using Cons.IH [of ?m "Suc k0"] Cons.prems m f by (auto simp: total_def)
    then show ?thesis using False lt f m by (intro exI [of _ "Suc j"] exI [of _ e]) (auto simp: total_def)
  qed
qed (simp add: total_def)

text \<open>Two groups with the same processor are the same group: the ranges are disjoint.\<close>

lemma total_take_mono: "j \<le> k \<Longrightarrow> total (take j infos) \<le> total (take k infos)"
proof (induction infos arbitrary: j k)
  case (Cons i infos)
  then show ?case by (cases j; cases k) (auto simp: total_def)
qed simp

lemma total_take_Suc: "j < length infos \<Longrightarrow> total (take (Suc j) infos) = total (take j infos) + act (infos ! j)"
  by (simp add: total_def take_Suc_conv_app_nth)

lemma range_unique:
  assumes "j < length infos" and "k < length infos" and "x < act (infos ! j)" and "y < act (infos ! k)"
    and "total (take j infos) + x = total (take k infos) + y"
  shows "j = k \<and> x = y"
proof -
  have "\<not> j < k" using total_take_mono [of "Suc j" k infos] total_take_Suc [OF assms(1)] assms by auto
  moreover have "\<not> k < j" using total_take_mono [of "Suc k" j infos] total_take_Suc [OF assms(2)] assms by auto
  ultimately show ?thesis using assms(5) by auto
qed

lemma range_in_total: "j < length infos \<Longrightarrow> x < act (infos ! j) \<Longrightarrow> total (take j infos) + x < total infos"
  using total_take_mono [of "Suc j" "length infos" infos] total_take_Suc [of j infos] by simp

text \<open>
  The tables describe the groups: \<open>n\<close> processors in all, group \<open>j\<close> at the sum of the groups before it,
  and the entry of every processor leads back to it.
\<close>

definition layout_ok :: "PROCESSOR_GROUP_INFO list \<Rightarrow> winuser_globals \<Rightarrow> bool" where
  "layout_ok infos g \<longleftrightarrow> unat (CxPlatProcessorCount g) = total infos \<and>
     length (group_table g) = length infos \<and>
     (\<forall>j < length infos. unat (Offset (group_table g ! j)) = total (take j infos) \<and>
        unat (Count (group_table g ! j)) = act (infos ! j) \<and> Mask (group_table g ! j) = ActiveProcessorMask (infos ! j)) \<and>
     length (processor_table g) = total infos \<and>
     (\<forall>p < total infos. \<exists>e j. processor_table g ! p = Some e \<and> Group e = of_nat j \<and> j < length infos \<and>
        unat (Index e) < act (infos ! j) \<and> total (take j infos) + unat (Index e) = p)"

lemma tables_layout:
  assumes "total infos < 2 ^ 32" and "fill_groups infos 0 = (gs, n)"
  shows "layout_ok infos (g\<lparr>CxPlatProcessorCount := n, group_table := gs,
    processor_table := fill_processors gs infos (sum_active infos 0)\<rparr>)"
proof -
  have gs: "gs = fst (fill_groups infos 0)" and n: "n = sum_active infos 0"
    using assms(2) fill_groups_snd [of infos 0] by simp_all
  have u: "unat (sum_active infos 0) = total infos" using sum_active_unat [of 0 infos] assms(1) by simp
  have "\<exists>e j. find_group (zip gs infos) 0 (of_nat p) = Some e \<and> Group e = of_nat j \<and> j < length infos \<and>
      unat (Index e) < act (infos ! j) \<and> total (take j infos) + unat (Index e) = p" if "p < total infos" for p
  proof -
    have "unat (of_nat p :: u32) = p" using that assms(1) by (simp add: unat_of_nat)
    then show ?thesis using find_group_spec [of 0 infos "of_nat p" 0] that assms(1) by (auto simp: gs)
  qed
  then show ?thesis
    using fill_groups_nth [of 0 infos] assms(1) fill_groups_length [of infos 0]
    by (simp add: layout_ok_def gs [symmetric] n u fill_processors_def)
qed

section \<open>Storage\<close>

definition base :: "bool \<Rightarrow> nat \<Rightarrow> nat" where
  "base dbg m = (if dbg then m - AllocOffset else m)"

text \<open>The state owns the block behind address \<open>m\<close>, allocated under \<open>Tag\<close>.\<close>

definition owns :: "bool \<Rightarrow> heap \<Rightarrow> nat \<Rightarrow> u32 \<Rightarrow> bool" where
  "owns dbg H m Tag \<longleftrightarrow> live H (base dbg m) \<noteq> None \<and> (dbg \<longrightarrow> words H (base dbg m) = Tag)"

definition good_system :: "win_system \<Rightarrow> bool" where
  "good_system S \<longleftrightarrow> (\<forall>n L a. HeapAllocate S n L = Some a \<longrightarrow> L a = None)"

lemma free_g_owned:
  assumes "owns dbg (the_heap g) m Tag"
  shows "free_g dbg (Some m) Tag g = Inr (g\<lparr>the_heap := (the_heap g)\<lparr>live := (live (the_heap g))(base dbg m := None)\<rparr>\<rparr>)"
  using assms by (cases dbg) (auto simp: owns_def free_g_def winuser_CxPlatFree_def HeapFree_def base_def)

lemma owns_free_other:
  "owns dbg H m Tag \<Longrightarrow> base dbg m \<noteq> b \<Longrightarrow> owns dbg (H\<lparr>live := (live H)(b := None)\<rparr>) m Tag"
  by (simp add: owns_def)

text \<open>An allocation yields nothing, or a fresh block that the state then owns beside what it owned.\<close>

lemma alloc_g_spec:
  assumes S: "good_system S" and heap: "dbg \<longrightarrow> Heap (CxPlatform g) \<noteq> None" and "Size \<noteq> 0" and "Size + AllocOffset < 2 ^ 64"
  obtains (refused) P where "alloc_g dbg S Size Tag g = Inr (None, g\<lparr>CxPlatform := P\<rparr>)" and "Heap P = Heap (CxPlatform g)"
  | (given) m n P H where "alloc_g dbg S Size Tag g = Inr (Some m, g\<lparr>CxPlatform := P, the_heap := H\<rparr>)"
    and "Heap P = Heap (CxPlatform g)" and "live (the_heap g) (base dbg m) = None"
    and "live H = (live (the_heap g))(base dbg m \<mapsto> n)" and "owns dbg H m Tag"
    and "\<And>m' Tag'. owns dbg (the_heap g) m' Tag' \<Longrightarrow> owns dbg H m' Tag'"
proof (cases dbg)
  case True
  obtain f P where f: "winuser_fails (RandomNumber S) (CxPlatform g) = (f, P)" by (cases "winuser_fails (RandomNumber S) (CxPlatform g)")
  have P: "Heap P = Heap (CxPlatform g)"
    using f by (auto simp: winuser_fails_def Let_def sync_add_and_fetch_def split: if_splits)
  let ?n = "(Size + AllocOffset) mod 2 ^ 64"
  have h: "g\<lparr>CxPlatform := P, the_heap := the_heap g\<rparr> = g\<lparr>CxPlatform := P\<rparr>" by simp
  show ?thesis
  proof (cases "f \<or> HeapAllocate S ?n (live (the_heap g)) = None")
    case none: True
    then show ?thesis using True assms(2,3) f P
      by (intro refused [of P]) (auto simp: alloc_g_def winuser_CxPlatAlloc_def Let_def h)
  next
    case False
    then obtain a where a: "HeapAllocate S ?n (live (the_heap g)) = Some a" and "\<not> f" by auto
    then have fresh: "live (the_heap g) a = None" using S by (auto simp: good_system_def)
    let ?H = "(the_heap g)\<lparr>live := (live (the_heap g))(a \<mapsto> ?n), words := (words (the_heap g))(a := Tag)\<rparr>"
    have "alloc_g dbg S Size Tag g = Inr (Some (a + AllocOffset), g\<lparr>CxPlatform := P, the_heap := ?H\<rparr>)"
      using True assms(2,3) f a \<open>\<not> f\<close> by (simp add: alloc_g_def winuser_CxPlatAlloc_def Let_def)
    then show ?thesis using True P fresh
      by (intro given [where m = "a + AllocOffset" and P = P and H = ?H and n = ?n]) (auto simp: base_def owns_def)
  qed
next
  case False
  show ?thesis
  proof (cases "HeapAllocate S Size (live (the_heap g))")
    case None
    then show ?thesis using False by (intro refused [of "CxPlatform g"]) (simp_all add: alloc_g_def winuser_CxPlatAlloc_def)
  next
    case (Some a)
    then have fresh: "live (the_heap g) a = None" using S by (auto simp: good_system_def)
    let ?H = "(the_heap g)\<lparr>live := (live (the_heap g))(a \<mapsto> Size)\<rparr>"
    have "alloc_g dbg S Size Tag g = Inr (Some a, g\<lparr>CxPlatform := CxPlatform g, the_heap := ?H\<rparr>)"
      using False Some by (simp add: alloc_g_def winuser_CxPlatAlloc_def)
    then show ?thesis using False fresh
      by (intro given [where m = a and P = "CxPlatform g" and H = ?H and n = Size]) (auto simp: base_def owns_def)
  qed
qed

text \<open>The status codes the code tells apart.\<close>

definition good_codes :: "win_system \<Rightarrow> bool" where
  "good_codes S \<longleftrightarrow> \<not> Failed S CXPLAT_STATUS_SUCCESS \<and> Failed S CXPLAT_STATUS_OUT_OF_MEMORY \<and>
     Failed S CXPLAT_STATUS_NOT_SUPPORTED"

text \<open>What the system promises about the description it stores.\<close>

definition active_infos :: "GROUP_RELATIONSHIP \<Rightarrow> PROCESSOR_GROUP_INFO list" where
  "active_infos R = take (unat (ActiveGroupCount R)) (GroupInfo R)"

definition good_groups :: "GROUP_RELATIONSHIP \<Rightarrow> bool" where
  "good_groups R \<longleftrightarrow> IsRelationGroup R \<and> ActiveGroupCount R \<noteq> 0 \<and> ActiveGroupCount R \<le> MaximumGroupCount R \<and>
     unat (ActiveGroupCount R) \<le> length (GroupInfo R) \<and> 0 < total (active_infos R) \<and> total (active_infos R) \<le> 65535"

text \<open>
  What the initialisation leaves: after a failure the heap and both pointers as they were; after success
  the two tables in blocks of their own, and a correct layout.
\<close>

definition init_post :: "bool \<Rightarrow> win_system \<Rightarrow> GROUP_RELATIONSHIP \<Rightarrow> winuser_globals \<Rightarrow> u32 \<Rightarrow> winuser_globals \<Rightarrow> bool" where
  "init_post dbg S R g Status g' \<longleftrightarrow> Heap (CxPlatform g') = Heap (CxPlatform g) \<and>
     (if Failed S Status
      then live (the_heap g') = live (the_heap g) \<and> CxPlatProcessorInfo g' = None \<and> CxPlatProcessorGroupInfo g' = None
      else Status = CXPLAT_STATUS_SUCCESS \<and> layout_ok (active_infos R) g' \<and>
        (\<exists>p q. CxPlatProcessorInfo g' = Some p \<and> CxPlatProcessorGroupInfo g' = Some q \<and> base dbg p \<noteq> base dbg q \<and>
           owns dbg (the_heap g') p CXPLAT_POOL_PROC \<and> owns dbg (the_heap g') q CXPLAT_POOL_PROC \<and>
           (live (the_heap g'))(base dbg p := None, base dbg q := None) = live (the_heap g)))"

lemma error_label_success:
  assumes "owns dbg (the_heap g) m CXPLAT_POOL_TMP_ALLOC" and "\<not> Failed S Status"
  shows "error_label dbg S Status (Some m) g =
    Inr (Status, g\<lparr>the_heap := (the_heap g)\<lparr>live := (live (the_heap g))(base dbg m := None)\<rparr>\<rparr>)"
  using assms by (simp add: error_label_def free_g_owned)

text \<open>The failing exits, by what has been allocated so far.\<close>

lemma error_label_info:
  assumes "owns dbg (the_heap g) m CXPLAT_POOL_TMP_ALLOC" and "CxPlatProcessorInfo g = None"
    and "CxPlatProcessorGroupInfo g = None" and "Failed S Status"
  shows "error_label dbg S Status (Some m) g =
    Inr (Status, g\<lparr>the_heap := (the_heap g)\<lparr>live := (live (the_heap g))(base dbg m := None)\<rparr>\<rparr>)"
  using assms by (simp add: error_label_def free_g_owned)

lemma error_label_processors:
  assumes "owns dbg (the_heap g) m CXPLAT_POOL_TMP_ALLOC" and "CxPlatProcessorInfo g = Some p"
    and "owns dbg (the_heap g) p CXPLAT_POOL_PROC" and "base dbg p \<noteq> base dbg m"
    and "CxPlatProcessorGroupInfo g = None" and "Failed S Status"
  shows "error_label dbg S Status (Some m) g =
    Inr (Status, g\<lparr>the_heap := (the_heap g)\<lparr>live := (live (the_heap g))(base dbg m := None, base dbg p := None)\<rparr>,
      CxPlatProcessorInfo := None\<rparr>)"
  using assms by (simp add: error_label_def free_g_owned owns_free_other)

lemma error_label_all:
  assumes "owns dbg (the_heap g) m CXPLAT_POOL_TMP_ALLOC" and "\<not> Failed S CXPLAT_STATUS_SUCCESS"
  shows "error_label dbg S CXPLAT_STATUS_SUCCESS (Some m) (g\<lparr>CxPlatProcessorCount := n, group_table := gs, processor_table := ps\<rparr>)
    = Inr (CXPLAT_STATUS_SUCCESS, g\<lparr>CxPlatProcessorCount := n, group_table := gs, processor_table := ps,
        the_heap := (the_heap g)\<lparr>live := (live (the_heap g))(base dbg m := None)\<rparr>\<rparr>)"
  using assms by (subst error_label_success) simp_all

lemma layout_ok_heap [simp]: "layout_ok infos (g\<lparr>the_heap := H\<rparr>) = layout_ok infos g"
  by (simp add: layout_ok_def)

lemma allocate_tables_spec:
  assumes S: "good_system S" "good_codes S" and heap: "dbg \<longrightarrow> Heap (CxPlatform g) \<noteq> None"
    and ptrs: "CxPlatProcessorInfo g = None" "CxPlatProcessorGroupInfo g = None"
    and own: "owns dbg (the_heap g) m CXPLAT_POOL_TMP_ALLOC"
    and tot: "0 < total infos" "total infos \<le> 65535" and cnt: "0 < length infos" "length infos < 65536"
    and R: "active_infos R = infos"
  shows "\<exists>Status g'. allocate_tables dbg S infos (sum_active infos 0) (Some m) g = Inr (Status, g') \<and>
    init_post dbg S R (g\<lparr>the_heap := (the_heap g)\<lparr>live := (live (the_heap g))(base dbg m := None)\<rparr>\<rparr>) Status g'"
proof -
  let ?A = "sum_active infos 0"
  note codes = S(2) [unfolded good_codes_def]
  have A: "unat ?A = total infos" using sum_active_unat [of 0 infos] tot by simp
  have sizes: "unat ?A * 8 \<noteq> 0" "unat ?A * 8 + AllocOffset < 2 ^ 64" "length infos * 16 \<noteq> 0" "length infos * 16 + AllocOffset < 2 ^ 64"
    using tot cnt by (simp_all add: A AllocOffset_def)
  show ?thesis
  proof (rule alloc_g_spec [OF S(1) heap sizes(1,2), of CXPLAT_POOL_PROC])
    fix P assume "alloc_g dbg S (unat ?A * 8) CXPLAT_POOL_PROC g = Inr (None, g\<lparr>CxPlatform := P\<rparr>)"
      and "Heap P = Heap (CxPlatform g)"
    then show ?thesis using ptrs codes error_label_info [of dbg "g\<lparr>CxPlatform := P, CxPlatProcessorInfo := None\<rparr>" m S] own
      by (auto simp: allocate_tables_def init_post_def)
  next
    fix p k P H
    assume a: "alloc_g dbg S (unat ?A * 8) CXPLAT_POOL_PROC g = Inr (Some p, g\<lparr>CxPlatform := P, the_heap := H\<rparr>)"
      and P: "Heap P = Heap (CxPlatform g)" and fresh: "live (the_heap g) (base dbg p) = None"
      and live: "live H = (live (the_heap g))(base dbg p \<mapsto> k)" and own_p: "owns dbg H p CXPLAT_POOL_PROC"
      and keep: "\<And>m' Tag'. owns dbg (the_heap g) m' Tag' \<Longrightarrow> owns dbg H m' Tag'"
    let ?g1 = "g\<lparr>CxPlatform := P, the_heap := H, CxPlatProcessorInfo := Some p\<rparr>"
    have heap1: "dbg \<longrightarrow> Heap (CxPlatform ?g1) \<noteq> None" using heap P by simp
    have own_m: "owns dbg H m CXPLAT_POOL_TMP_ALLOC" by (rule keep [OF own])
    have pm: "base dbg p \<noteq> base dbg m" using fresh own by (auto simp: owns_def)
    show ?thesis
    proof (rule alloc_g_spec [OF S(1) heap1 sizes(3,4), of CXPLAT_POOL_PROC])
      fix P' assume "alloc_g dbg S (length infos * 16) CXPLAT_POOL_PROC ?g1 = Inr (None, ?g1\<lparr>CxPlatform := P'\<rparr>)"
        and "Heap P' = Heap (CxPlatform ?g1)"
      then show ?thesis
        using a ptrs codes P live fresh pm own_m own_p
          error_label_processors [of dbg "?g1\<lparr>CxPlatform := P', CxPlatProcessorGroupInfo := None\<rparr>" m p S]
        by (auto simp: allocate_tables_def init_post_def fun_upd_twist)
    next
      fix q k' P' H'
      assume a': "alloc_g dbg S (length infos * 16) CXPLAT_POOL_PROC ?g1 = Inr (Some q, ?g1\<lparr>CxPlatform := P', the_heap := H'\<rparr>)"
        and P': "Heap P' = Heap (CxPlatform ?g1)" and fresh': "live (the_heap ?g1) (base dbg q) = None"
        and live': "live H' = (live (the_heap ?g1))(base dbg q \<mapsto> k')" and own_q: "owns dbg H' q CXPLAT_POOL_PROC"
        and keep': "\<And>m' Tag'. owns dbg (the_heap ?g1) m' Tag' \<Longrightarrow> owns dbg H' m' Tag'"
      obtain gs n where f: "fill_groups infos 0 = (gs, n)" by (cases "fill_groups infos 0")
      have own_m': "owns dbg H' m CXPLAT_POOL_TMP_ALLOC" and own_p': "owns dbg H' p CXPLAT_POOL_PROC"
        using keep' own_m own_p by simp_all
      have ne: "base dbg q \<noteq> base dbg p" "base dbg q \<noteq> base dbg m" using fresh' own_p own_m by (auto simp: owns_def)
      let ?g2 = "?g1\<lparr>CxPlatform := P', the_heap := H', CxPlatProcessorGroupInfo := Some q\<rparr>"
      let ?g3 = "?g2\<lparr>CxPlatProcessorCount := n, group_table := gs, processor_table := fill_processors gs infos ?A,
        the_heap := H'\<lparr>live := (live H')(base dbg m := None)\<rparr>\<rparr>"
      have "allocate_tables dbg S infos ?A (Some m) g = Inr (CXPLAT_STATUS_SUCCESS, ?g3)"
        using a a' ptrs codes f error_label_all [of dbg ?g2 m S] own_m' by (simp add: allocate_tables_def)
      moreover have "layout_ok infos ?g3"
        using tables_layout [OF _ f, of ?g2] tot by (simp add: layout_ok_def)
      moreover have "(live (the_heap ?g3))(base dbg p := None, base dbg q := None) = (live (the_heap g))(base dbg m := None)"
        using live live' fresh fresh' ne pm by (auto simp: fun_eq_iff)
      ultimately show ?thesis
        using codes P P' ne pm own_p' own_q R
        by (intro exI [of _ CXPLAT_STATUS_SUCCESS] exI [of _ ?g3])
          (simp add: init_post_def owns_free_other)
    qed
  qed
qed

lemma processor_init_spec:
  assumes S: "good_system S" "good_codes S" and len: "QueryLength S \<noteq> 0" "QueryLength S + AllocOffset < 2 ^ 64"
    and R: "QueryResult S = Some R" "good_groups R" and heap: "dbg \<longrightarrow> Heap (CxPlatform g) \<noteq> None"
    and ptrs: "CxPlatProcessorInfo g = None" "CxPlatProcessorGroupInfo g = None"
  shows "\<exists>Status g'. CxPlatProcessorInfoInit dbg S g = Inr (Status, g') \<and> init_post dbg S R g Status g'"
proof -
  let ?infos = "active_infos R" and ?A = "sum_active (active_infos R) 0"
  note codes = S(2) [unfolded good_codes_def]
  have tot: "0 < total ?infos" "total ?infos \<le> 65535" using R(2) by (simp_all add: good_groups_def)
  have A: "unat ?A = total ?infos" using sum_active_unat [of 0 ?infos] tot by simp
  have A0: "?A \<noteq> 0" "?A \<le> 0xFFFF" "0 < ?A" "\<not> 0xFFFF < ?A"
    using A tot by (auto simp: word_le_nat_alt word_less_nat_alt unat_eq_zero)
  have "unat (ActiveGroupCount R) < 2 ^ LENGTH(16)" by (rule unsigned_less)
  then have cnt: "0 < length ?infos" "length ?infos < 65536"
    using R(2) by (auto simp: good_groups_def active_infos_def unat_gt_0)
  show ?thesis
  proof (rule alloc_g_spec [OF S(1) heap len, of CXPLAT_POOL_TMP_ALLOC])
    fix P assume a: "alloc_g dbg S (QueryLength S) CXPLAT_POOL_TMP_ALLOC g = Inr (None, g\<lparr>CxPlatform := P\<rparr>)"
      and P: "Heap P = Heap (CxPlatform g)"
    have "CxPlatProcessorInfoInit dbg S g = Inr (CXPLAT_STATUS_OUT_OF_MEMORY, g\<lparr>CxPlatform := P\<rparr>)"
      using a len codes ptrs by (simp add: CxPlatProcessorInfoInit_def CxPlatGetProcessorGroupInfo_def error_label_def)
    then show ?thesis using P ptrs codes by (auto simp: init_post_def)
  next
    fix m k P H
    assume a: "alloc_g dbg S (QueryLength S) CXPLAT_POOL_TMP_ALLOC g = Inr (Some m, g\<lparr>CxPlatform := P, the_heap := H\<rparr>)"
      and P: "Heap P = Heap (CxPlatform g)" and fresh: "live (the_heap g) (base dbg m) = None"
      and live: "live H = (live (the_heap g))(base dbg m \<mapsto> k)" and own: "owns dbg H m CXPLAT_POOL_TMP_ALLOC"
    let ?g1 = "g\<lparr>CxPlatform := P, the_heap := H\<rparr>"
    have heap1: "dbg \<longrightarrow> Heap (CxPlatform ?g1) \<noteq> None" using heap P by simp
    have "CxPlatProcessorInfoInit dbg S g = allocate_tables dbg S ?infos ?A (Some m) ?g1"
      using a len codes ptrs R A0
      by (simp add: CxPlatProcessorInfoInit_def CxPlatGetProcessorGroupInfo_def good_groups_def Let_def
          active_infos_def [symmetric])
    moreover have "?g1\<lparr>the_heap := (the_heap ?g1)\<lparr>live := (live (the_heap ?g1))(base dbg m := None)\<rparr>\<rparr>
        = g\<lparr>CxPlatform := P, the_heap := H\<lparr>live := live (the_heap g)\<rparr>\<rparr>"
      using live fresh by (simp add: fun_upd_idem)
    moreover have "init_post dbg S R (g\<lparr>CxPlatform := P, the_heap := H\<lparr>live := live (the_heap g)\<rparr>\<rparr>) St g' \<Longrightarrow>
        init_post dbg S R g St g'" for St g'
      using P by (cases "Failed S St") (simp_all add: init_post_def)
    ultimately show ?thesis
      using allocate_tables_spec [OF S heap1 _ _ _ tot cnt refl, of m] ptrs own by auto
  qed
qed

lemma uninit_spec:
  assumes "CxPlatProcessorInfo g = Some p" and "CxPlatProcessorGroupInfo g = Some q" and "base dbg p \<noteq> base dbg q"
    and "owns dbg (the_heap g) p CXPLAT_POOL_PROC" and "owns dbg (the_heap g) q CXPLAT_POOL_PROC"
  shows "CxPlatProcessorInfoUnInit dbg g = Inr (g\<lparr>CxPlatProcessorGroupInfo := None, CxPlatProcessorInfo := None,
    the_heap := (the_heap g)\<lparr>live := (live (the_heap g))(base dbg p := None, base dbg q := None)\<rparr>\<rparr>)"
  using assms by (simp add: CxPlatProcessorInfoUnInit_def free_g_owned owns_free_other fun_upd_twist)

lemma current_number_spec:
  assumes "layout_ok infos g" and "unat G < length infos" and "0 < act (infos ! unat G)"
  shows "\<exists>r. winuser_CxPlatProcCurrentNumber G N g = Inr r \<and>
    unat r = total (take (unat G) infos) + unat N mod act (infos ! unat G) \<and> unat r < unat (CxPlatProcessorCount g)"
proof -
  let ?E = "group_table g ! unat G" and ?x = "unat N mod act (infos ! unat G)"
  have E: "unat (Offset ?E) = total (take (unat G) infos)" "unat (Count ?E) = act (infos ! unat G)"
    and len: "unat G < length (group_table g)" and cnt: "unat (CxPlatProcessorCount g) = total infos"
    using assms(1,2) by (simp_all add: layout_ok_def)
  have N: "unat (ucast N :: u32) = unat N"
  proof -
    have "unat N < 2 ^ LENGTH(8)" by (rule unsigned_less)
    then show ?thesis by (simp add: unsigned_ucast_eq take_bit_nat_eq_self)
  qed
  have x: "unat (ucast N mod Count ?E) = ?x" by (simp add: unat_mod E N)
  have lt: "total (take (unat G) infos) + ?x < total infos"
    using assms(2,3) by (intro range_in_total) simp_all
  have "unat (CxPlatProcessorCount g) < 2 ^ LENGTH(32)" by (rule unsigned_less)
  then have "unat (Offset ?E + ucast N mod Count ?E) = total (take (unat G) infos) + ?x"
    using lt cnt E by (subst unat_add_bounded) (simp_all add: x)
  moreover have "Count ?E \<noteq> 0" using E(2) assms(3) by auto
  ultimately show ?thesis using len lt cnt by (simp add: winuser_CxPlatProcCurrentNumber_def Let_def)
qed

section \<open>Properties\<close>

subsection \<open>A concrete system\<close>

definition demo_heap :: "nat \<Rightarrow> (nat \<rightharpoonup> nat) \<Rightarrow> nat option" where
  "demo_heap n L = (if L 100 = None then Some 100 else if L 200 = None then Some 200
     else if L 300 = None then Some 300 else None)"

definition demo_groups :: GROUP_RELATIONSHIP where
  "demo_groups = \<lparr>IsRelationGroup = True, MaximumGroupCount = 2, ActiveGroupCount = 2, GroupInfo =
     [\<lparr>MaximumProcessorCount = 64, ActiveProcessorCount = 4, ActiveProcessorMask = 0xF\<rparr>,
      \<lparr>MaximumProcessorCount = 64, ActiveProcessorCount = 2, ActiveProcessorMask = 0x3\<rparr>]\<rparr>"

definition demo_system :: win_system where
  "demo_system = \<lparr>QueryLength = 96, QueryResult = Some demo_groups, GetLastError = 5, HeapCreate = Some 1,
     HeapAllocate = demo_heap, PerformanceFrequency = 10000000, RandomNumber = 0,
     ToHresult = (\<lambda>e. if e = 0 then 0 else 0x80070000 OR e), Failed = (\<lambda>s. sint s < 0)\<rparr>"

definition demo_globals :: winuser_globals where
  "demo_globals = \<lparr>CxPlatPerfFreq = 0, CxPlatform = \<lparr>Heap = Some 1, winuser_AllocFailDenominator = 0, winuser_AllocCounter = 0\<rparr>,
     CxPlatProcessorInfo = None, CxPlatProcessorGroupInfo = None, CxPlatProcessorCount = 0, processor_table = [],
     group_table = [], the_heap = \<lparr>live = Map.empty, words = \<lambda>_. 0\<rparr>\<rparr>"

lemma demo_good:
  "good_system demo_system" "good_codes demo_system" "good_groups demo_groups"
  "active_infos demo_groups = GroupInfo demo_groups" "QueryLength demo_system \<noteq> 0"
  "QueryLength demo_system + AllocOffset < 2 ^ 64" "QueryResult demo_system = Some demo_groups"
  "HeapCreate demo_system \<noteq> None"
  by (auto simp: good_system_def demo_system_def demo_heap_def good_codes_def CXPLAT_STATUS_SUCCESS_def
      CXPLAT_STATUS_OUT_OF_MEMORY_def CXPLAT_STATUS_NOT_SUPPORTED_def good_groups_def demo_groups_def
      active_infos_def total_def act_def AllocOffset_def split: if_splits)

lemma demo_globals_good:
  "dbg \<longrightarrow> Heap (CxPlatform demo_globals) \<noteq> None" "CxPlatProcessorInfo demo_globals = None"
  "CxPlatProcessorGroupInfo demo_globals = None" "live (the_heap demo_globals) = Map.empty"
  by (simp_all add: demo_globals_def)

text \<open>The state before the library was started: no heap, no block, no table.\<close>

definition stopped :: "winuser_globals \<Rightarrow> bool" where
  "stopped g \<longleftrightarrow> Heap (CxPlatform g) = None \<and> live (the_heap g) = Map.empty \<and>
     CxPlatProcessorInfo g = None \<and> CxPlatProcessorGroupInfo g = None"

definition demo_tables :: winuser_globals where
  "demo_tables = (case fill_groups (GroupInfo demo_groups) 0 of (gs, n) \<Rightarrow>
     demo_globals\<lparr>CxPlatProcessorCount := n, group_table := gs,
       processor_table := fill_processors gs (GroupInfo demo_groups) (sum_active (GroupInfo demo_groups) 0)\<rparr>)"

lemma demo_tables_layout: "layout_ok (GroupInfo demo_groups) demo_tables"
proof -
  obtain gs n where f: "fill_groups (GroupInfo demo_groups) 0 = (gs, n)" by fastforce
  have "total (GroupInfo demo_groups) < 2 ^ 32" by (simp add: demo_groups_def total_def act_def)
  from tables_layout [OF this f] show ?thesis by (simp add: demo_tables_def f)
qed

text \<open>
  C6. \<open>CxPlatProcessorInfoInit\<close>, in a debug and in a release build, on any sane description of the
  processor groups: it returns without a fault. If any of its three allocations fails it reports
  failure, gives back what it had allocated and leaves both pointers null. Otherwise it owns two distinct
  blocks, the query buffer is gone, the groups tile the numbers below \<open>CxPlatProcessorCount\<close> in order,
  and the entry of every processor names the group and the index it has there.
\<close>

theorem ProcessorInfoInit_tables:
  assumes "good_system S" "good_codes S" and "QueryLength S \<noteq> 0" "QueryLength S + AllocOffset < 2 ^ 64"
    and "QueryResult S = Some R" "good_groups R" and "dbg \<longrightarrow> Heap (CxPlatform g) \<noteq> None"
    and "CxPlatProcessorInfo g = None" "CxPlatProcessorGroupInfo g = None"
  shows "\<exists>Status g'. CxPlatProcessorInfoInit dbg S g = Inr (Status, g') \<and>
    (if Failed S Status
     then live (the_heap g') = live (the_heap g) \<and> CxPlatProcessorInfo g' = None \<and> CxPlatProcessorGroupInfo g' = None
     else layout_ok (active_infos R) g' \<and>
       (\<exists>p q. CxPlatProcessorInfo g' = Some p \<and> CxPlatProcessorGroupInfo g' = Some q \<and> base dbg p \<noteq> base dbg q \<and>
          owns dbg (the_heap g') p CXPLAT_POOL_PROC \<and> owns dbg (the_heap g') q CXPLAT_POOL_PROC \<and>
          (live (the_heap g'))(base dbg p := None, base dbg q := None) = live (the_heap g)))"
proof -
  obtain Status g' where "CxPlatProcessorInfoInit dbg S g = Inr (Status, g')" and "init_post dbg S R g Status g'"
    using processor_init_spec [OF assms] by blast
  then show ?thesis by (intro exI [of _ Status] exI [of _ g']) (auto simp: init_post_def)
qed

theorem ProcessorInfoInit_tables_witness:
  "\<exists>Status g'. CxPlatProcessorInfoInit True demo_system demo_globals = Inr (Status, g') \<and>
    (if Failed demo_system Status
     then live (the_heap g') = live (the_heap demo_globals) \<and> CxPlatProcessorInfo g' = None \<and> CxPlatProcessorGroupInfo g' = None
     else layout_ok (active_infos demo_groups) g' \<and>
       (\<exists>p q. CxPlatProcessorInfo g' = Some p \<and> CxPlatProcessorGroupInfo g' = Some q \<and> base True p \<noteq> base True q \<and>
          owns True (the_heap g') p CXPLAT_POOL_PROC \<and> owns True (the_heap g') q CXPLAT_POOL_PROC \<and>
          (live (the_heap g'))(base True p := None, base True q := None) = live (the_heap demo_globals)))"
  by (rule ProcessorInfoInit_tables [OF demo_good(1,2,5,6,7,3) demo_globals_good(1-3)])

text \<open>
  \<open>CxPlatProcCurrentNumber\<close> and the processor table are inverse to each other: on tables with the layout
  that the initialisation builds, the number computed for a processor of an active group is below
  \<open>CxPlatProcessorCount\<close>, and the table entry at that number names the group again, and the
  processor's number within it.
\<close>

theorem ProcCurrentNumber_roundtrip:
  assumes "layout_ok infos g" and "length infos \<le> 65535" and "unat G < length infos" and "0 < act (infos ! unat G)"
  shows "\<exists>r e. winuser_CxPlatProcCurrentNumber G N g = Inr r \<and> r < CxPlatProcessorCount g \<and>
    processor_table g ! unat r = Some e \<and> Group e = G \<and> unat (Index e) = unat N mod act (infos ! unat G)"
proof -
  let ?x = "unat N mod act (infos ! unat G)"
  obtain r where r: "winuser_CxPlatProcCurrentNumber G N g = Inr r"
      "unat r = total (take (unat G) infos) + ?x" "unat r < unat (CxPlatProcessorCount g)"
    using current_number_spec [OF assms(1,3,4)] by blast
  have "\<forall>p < total infos. \<exists>e j. processor_table g ! p = Some e \<and> Group e = of_nat j \<and> j < length infos \<and>
        unat (Index e) < act (infos ! j) \<and> total (take j infos) + unat (Index e) = p"
    and "unat r < total infos"
    using assms(1) r(3) by (simp_all add: layout_ok_def)
  then obtain e j where e: "processor_table g ! unat r = Some e" "Group e = of_nat j" "j < length infos"
      "unat (Index e) < act (infos ! j)" "total (take j infos) + unat (Index e) = unat r" by blast
  have "j = unat G \<and> unat (Index e) = ?x"
    using range_unique [OF e(3) assms(3) e(4), of ?x] e(5) r(2) assms(4) by simp
  then show ?thesis using r e by (auto simp: word_less_nat_alt)
qed

theorem ProcCurrentNumber_roundtrip_witness:
  "\<exists>r e. winuser_CxPlatProcCurrentNumber 1 67 demo_tables = Inr r \<and> r < CxPlatProcessorCount demo_tables \<and>
    processor_table demo_tables ! unat r = Some e \<and> Group e = 1 \<and>
    unat (Index e) = unat (67::u8) mod act (GroupInfo demo_groups ! unat (1::u16))"
  by (rule ProcCurrentNumber_roundtrip [OF demo_tables_layout]) (simp_all add: demo_groups_def act_def)

text \<open>
  C28. When the second query of the system fails, after the buffer was allocated, the initialisation
  releases that buffer twice: \<open>CxPlatGetProcessorGroupInfo\<close> frees it and leaves the address in the
  caller's variable, whose error path frees it again. In a debug build the second release reads the tag
  of a block that is gone.
\<close>

theorem ProcessorInfoInit_double_free:
  assumes "good_system S" and "dbg \<longrightarrow> Heap (CxPlatform g) \<noteq> None"
    and "QueryLength S \<noteq> 0" and "QueryLength S + AllocOffset < 2 ^ 64"
    and "alloc_g dbg S (QueryLength S) CXPLAT_POOL_TMP_ALLOC g = Inr (Some m, g1)"
    and "QueryResult S = None" and "Failed S (ToHresult S (GetLastError S))"
  shows "CxPlatProcessorInfoInit dbg S g = Inl (if dbg then UseAfterFree else DoubleFree)"
proof (rule alloc_g_spec [OF assms(1-4), of CXPLAT_POOL_TMP_ALLOC])
  fix P assume "alloc_g dbg S (QueryLength S) CXPLAT_POOL_TMP_ALLOC g = Inr (None, g\<lparr>CxPlatform := P\<rparr>)"
  then show ?thesis using assms(5) by simp
next
  fix m' n P H
  assume a: "alloc_g dbg S (QueryLength S) CXPLAT_POOL_TMP_ALLOC g = Inr (Some m', g\<lparr>CxPlatform := P, the_heap := H\<rparr>)"
    and "owns dbg H m' CXPLAT_POOL_TMP_ALLOC"
  then have "free_g dbg (Some m) CXPLAT_POOL_TMP_ALLOC g1 =
      Inr (g1\<lparr>the_heap := (the_heap g1)\<lparr>live := (live (the_heap g1))(base dbg m := None)\<rparr>\<rparr>)"
    using assms(5) by (intro free_g_owned) simp
  then show ?thesis using assms
    by (cases dbg) (simp_all add: CxPlatProcessorInfoInit_def CxPlatGetProcessorGroupInfo_def error_label_def
        free_g_def winuser_CxPlatFree_def HeapFree_def base_def)
qed

theorem ProcessorInfoInit_double_free_witness:
  "CxPlatProcessorInfoInit False (demo_system\<lparr>QueryResult := None\<rparr>) demo_globals = Inl DoubleFree \<and>
   CxPlatProcessorInfoInit True (demo_system\<lparr>QueryResult := None\<rparr>) demo_globals = Inl UseAfterFree"
proof -
  let ?S = "demo_system\<lparr>QueryResult := None\<rparr>"
  have S: "good_system ?S" "QueryLength ?S \<noteq> 0" "QueryLength ?S + AllocOffset < 2 ^ 64" "QueryResult ?S = None"
    "Failed ?S (ToHresult ?S (GetLastError ?S))"
    using demo_good(1,5,6) by (simp_all add: good_system_def demo_system_def)
  have "\<exists>m g1. alloc_g dbg ?S (QueryLength ?S) CXPLAT_POOL_TMP_ALLOC demo_globals = Inr (Some m, g1)" for dbg
    by (cases dbg) (simp_all add: alloc_g_def winuser_CxPlatAlloc_def demo_system_def demo_globals_def demo_heap_def
        winuser_fails_def AllocOffset_def Let_def)
  then obtain m g1 where m: "\<And>dbg. alloc_g dbg ?S (QueryLength ?S) CXPLAT_POOL_TMP_ALLOC demo_globals = Inr (Some (m dbg), g1 dbg)"
    by metis
  show ?thesis
    using ProcessorInfoInit_double_free [OF S(1) demo_globals_good(1) S(2,3) m S(4,5), of False]
      ProcessorInfoInit_double_free [OF S(1) demo_globals_good(1) S(2,3) m S(4,5), of True] by simp
qed

lemma initialize_then_uninitialize:
  assumes "good_system S" "good_codes S" and "QueryLength S \<noteq> 0" "QueryLength S + AllocOffset < 2 ^ 64"
    and "QueryResult S = Some R" "good_groups R" and "live (the_heap g) = Map.empty"
    and "CxPlatProcessorInfo g = None" "CxPlatProcessorGroupInfo g = None"
  shows "\<exists>Status g'. winuser_CxPlatInitialize dbg S g = Inr (Status, g') \<and>
    (if Failed S Status then stopped g'
     else Status = CXPLAT_STATUS_SUCCESS \<and> layout_ok (active_infos R) g' \<and>
       (\<exists>g''. winuser_CxPlatUninitialize dbg g' = Inr g'' \<and> stopped g''))"
proof (cases "HeapCreate S")
  case None
  then show ?thesis using assms by (simp add: winuser_CxPlatInitialize_def stopped_def good_codes_def Let_def)
next
  case (Some h)
  let ?g0 = "g\<lparr>CxPlatPerfFreq := PerformanceFrequency S, CxPlatform := (CxPlatform g)\<lparr>Heap := HeapCreate S\<rparr>\<rparr>"
  define g1 where "g1 = (if dbg then ?g0\<lparr>CxPlatform := winuser_CxPlatSetAllocFailDenominator 0 (CxPlatform ?g0)\<rparr> else ?g0)"
  have g1: "Heap (CxPlatform g1) = Some h" "CxPlatProcessorInfo g1 = None" "CxPlatProcessorGroupInfo g1 = None"
      "live (the_heap g1) = Map.empty"
    using Some assms(7-9) by (simp_all add: g1_def winuser_CxPlatSetAllocFailDenominator_def)
  then obtain Status g2 where g2: "CxPlatProcessorInfoInit dbg S g1 = Inr (Status, g2)" and post: "init_post dbg S R g1 Status g2"
    using processor_init_spec [OF assms(1-6), of dbg g1] by auto
  have init: "winuser_CxPlatInitialize dbg S g = (if Failed S Status
      then Inr (Status, g2\<lparr>CxPlatform := (CxPlatform g2)\<lparr>Heap := None\<rparr>, the_heap := (the_heap g2)\<lparr>live := Map.empty\<rparr>\<rparr>)
      else Inr (CXPLAT_STATUS_SUCCESS, g2))"
    using Some g2 [unfolded g1_def] by (cases dbg) (simp_all add: winuser_CxPlatInitialize_def Let_def)
  show ?thesis
  proof (cases "Failed S Status")
    case True
    then show ?thesis using init post by (simp add: init_post_def stopped_def)
  next
    case False
    then obtain p q where "CxPlatProcessorInfo g2 = Some p" "CxPlatProcessorGroupInfo g2 = Some q" "base dbg p \<noteq> base dbg q"
        "owns dbg (the_heap g2) p CXPLAT_POOL_PROC" "owns dbg (the_heap g2) q CXPLAT_POOL_PROC"
      using post by (auto simp: init_post_def)
    from uninit_spec [OF this] show ?thesis
      using False init post assms(2) by (simp add: init_post_def winuser_CxPlatUninitialize_def stopped_def good_codes_def)
  qed
qed

text \<open>
  Start and stop of the library in user mode Windows: \<open>CxPlatInitialize\<close> returns without a fault, whatever
  allocations fail. After a failure there is no heap, no block is live and both table pointers
  are null, so that a second attempt starts from the same state. After success \<open>CxPlatUninitialize\<close> runs
  without a fault and leaves that state as well.
\<close>

theorem winuser_lifecycle:
  assumes "good_system S" "good_codes S" and "QueryLength S \<noteq> 0" "QueryLength S + AllocOffset < 2 ^ 64"
    and "QueryResult S = Some R" "good_groups R" and "live (the_heap g) = Map.empty"
    and "CxPlatProcessorInfo g = None" "CxPlatProcessorGroupInfo g = None"
  shows "\<exists>Status g'. winuser_CxPlatInitialize dbg S g = Inr (Status, g') \<and>
    (if Failed S Status then stopped g'
     else Status = CXPLAT_STATUS_SUCCESS \<and> layout_ok (active_infos R) g' \<and>
       (\<exists>g''. winuser_CxPlatUninitialize dbg g' = Inr g'' \<and> stopped g''))"
  by (rule initialize_then_uninitialize [OF assms])

theorem winuser_lifecycle_witness:
  "\<exists>Status g'. winuser_CxPlatInitialize True demo_system demo_globals = Inr (Status, g') \<and>
    (if Failed demo_system Status then stopped g'
     else Status = CXPLAT_STATUS_SUCCESS \<and> layout_ok (active_infos demo_groups) g' \<and>
       (\<exists>g''. winuser_CxPlatUninitialize True g' = Inr g'' \<and> stopped g''))"
  by (rule winuser_lifecycle [OF demo_good(1,2,5,6,7,3) demo_globals_good(4,2,3)])

end
