(* ===== verification/CxThread.thy ===== *)
theory CxThread
  imports CxProcessor
begin

text \<open>
  Thread creation on the three platforms: \<open>src/lib/cxplat_posix.c\<close>, \<open>inc/cxplat_winuser.h\<close> and
  \<open>inc/cxplat_winkernel.h\<close>. The answers of the system calls are records of the model; threads, handles,
  references and attribute objects are counted, so that every exit says what it leaves behind.
\<close>

section \<open>Configuration\<close>

definition CXPLAT_THREAD_FLAG_SET_IDEAL_PROC :: u16 where "CXPLAT_THREAD_FLAG_SET_IDEAL_PROC = 1"
definition CXPLAT_THREAD_FLAG_SET_AFFINITIZE :: u16 where "CXPLAT_THREAD_FLAG_SET_AFFINITIZE = 2"
definition CXPLAT_THREAD_FLAG_HIGH_PRIORITY :: u16 where "CXPLAT_THREAD_FLAG_HIGH_PRIORITY = 4"

definition CXPLAT_POOL_CUSTOM_THREAD :: u32 where "CXPLAT_POOL_CUSTOM_THREAD = 0x33307843"

record CXPLAT_THREAD_CONFIG =
  Flags :: u16
  IdealProcessor :: u16
  Name :: "string option"
  Callback :: nat
  Context :: nat

definition flagged :: "CXPLAT_THREAD_CONFIG \<Rightarrow> u16 \<Rightarrow> bool" where
  "flagged Config f \<longleftrightarrow> and (Flags Config) f \<noteq> 0"

text \<open>What a thread starts with: the caller's routine, or the custom start routine on a context block.\<close>

datatype start_routine = User nat nat | CustomStart nat

section \<open>POSIX\<close>

text \<open>Build options, and the results of the system calls; \<open>errno\<close> is whatever an earlier call left in it.\<close>

record posix_build =
  is_debug :: bool
  is_glibc :: bool
  is_android :: bool
  is_numa_aware :: bool
  has_custom_context :: bool

record posix_thread_os =
  attr_init :: int
  attr_setaffinity :: int
  attr_setschedparam :: int
  create_with_attr :: int
  create_plain :: int
  setaffinity :: int
  errno :: u32
  new_thread :: nat
  node_of_cpu :: "nat \<Rightarrow> int"
  thread_malloc :: "nat \<Rightarrow> nat option"
  thread_random :: u32

record pthread =
  started :: start_routine
  affinity :: "nat list option"
  high_priority :: bool

record posix_threads =
  attrs :: nat
  pthreads :: "nat \<rightharpoonup> pthread"
  contexts :: "nat \<rightharpoonup> nat \<times> nat"
  node_masks :: "nat list list"
  alloc_state :: posix_CX_PLATFORM

text \<open>\<open>CPU_SET\<close> ignores a processor outside the set's 1024 bits.\<close>

definition CPU_SET :: "nat \<Rightarrow> nat list" where
  "CPU_SET c = (if c < 1024 then [c] else [])"

text \<open>The attribute object: affinity and priority asked for, where the call setting it returned zero.\<close>

definition posix_attributes :: "posix_build \<Rightarrow> posix_thread_os \<Rightarrow> CXPLAT_THREAD_CONFIG \<Rightarrow> nat list option \<times> bool" where
  "posix_attributes B os Config =
     (if is_glibc B \<and> flagged Config CXPLAT_THREAD_FLAG_SET_AFFINITIZE \<and> attr_setaffinity os = 0
      then Some (CPU_SET (unat (IdealProcessor Config))) else None,
      flagged Config CXPLAT_THREAD_FLAG_HIGH_PRIORITY \<and> attr_setschedparam os = 0)"

text \<open>The creation proper, with a custom context and without; the thread is \<open>None\<close> while nothing was stored in it.\<close>

definition posix_create_custom ::
  "posix_build \<Rightarrow> posix_thread_os \<Rightarrow> CXPLAT_THREAD_CONFIG \<Rightarrow> posix_threads \<Rightarrow> (u32 \<times> nat option \<times> posix_threads) result" where
  "posix_create_custom B os Config w =
     bindR (posix_CxPlatAlloc (is_debug B) (thread_random os) (thread_malloc os) 16 (alloc_state w)) (\<lambda>(CustomContext, P).
     case CustomContext of
       None \<Rightarrow> Inl NullDeref
     | Some a \<Rightarrow>
         (case posix_attributes B os Config of (aff, high) \<Rightarrow>
          if create_with_attr os = 0
          then Inr (0, Some (new_thread os),
            w\<lparr>alloc_state := P, contexts := (contexts w)(a \<mapsto> (Callback Config, Context Config)),
              pthreads := (pthreads w)(new_thread os \<mapsto> \<lparr>started = CustomStart a, affinity = aff, high_priority = high\<rparr>)\<rparr>)
          else Inr (errno os, None, w\<lparr>alloc_state := P, contexts := (contexts w)(a := None)\<rparr>)))"

definition posix_create_user ::
  "posix_build \<Rightarrow> posix_thread_os \<Rightarrow> CXPLAT_THREAD_CONFIG \<Rightarrow> posix_threads \<Rightarrow> (u32 \<times> nat option \<times> posix_threads) result" where
  "posix_create_user B os Config w =
     (case posix_attributes B os Config of (aff, high) \<Rightarrow>
      let thread = (\<lambda>aff high. w\<lparr>pthreads := (pthreads w)(new_thread os \<mapsto>
            \<lparr>started = User (Callback Config) (Context Config), affinity = aff, high_priority = high\<rparr>)\<rparr>) in
      if create_with_attr os = 0 then Inr (0, Some (new_thread os), thread aff high)
      else if create_plain os = 0 then Inr (0, Some (new_thread os), thread None False)
      else Inr (errno os, None, w))"

text \<open>The affinity after the creation: of the new thread, to the processor or to the processors of its node.\<close>

definition posix_set_affinity :: "posix_thread_os \<Rightarrow> nat option \<Rightarrow> nat list \<Rightarrow> posix_threads \<Rightarrow> posix_threads result" where
  "posix_set_affinity os Thread cpus w = (case Thread of
      None \<Rightarrow> Inl Undefined
    | Some t \<Rightarrow> (case pthreads w t of
          None \<Rightarrow> Inl Undefined
        | Some th \<Rightarrow> Inr (if setaffinity os = 0 then w\<lparr>pthreads := (pthreads w)(t \<mapsto> th\<lparr>affinity := Some cpus\<rparr>)\<rparr> else w)))"

definition posix_affinitize ::
  "posix_build \<Rightarrow> posix_thread_os \<Rightarrow> CXPLAT_THREAD_CONFIG \<Rightarrow> nat option \<Rightarrow> posix_threads \<Rightarrow> posix_threads result" where
  "posix_affinitize B os Config Thread w =
     (if flagged Config CXPLAT_THREAD_FLAG_SET_AFFINITIZE
      then posix_set_affinity os Thread (CPU_SET (unat (IdealProcessor Config))) w
      else if is_numa_aware B \<and> node_masks w \<noteq> []
      then let IdealNumaNode = node_of_cpu os (unat (IdealProcessor Config)) in
        guardR (0 \<le> IdealNumaNode \<and> nat IdealNumaNode < length (node_masks w)) OutOfBounds
          (posix_set_affinity os Thread (node_masks w ! nat IdealNumaNode) w)
      else Inr w)"

definition linux_CxPlatThreadCreate ::
  "posix_build \<Rightarrow> posix_thread_os \<Rightarrow> CXPLAT_THREAD_CONFIG \<Rightarrow> posix_threads \<Rightarrow> (u32 \<times> nat option \<times> posix_threads) result" where
  "linux_CxPlatThreadCreate B os Config w =
     (if attr_init os \<noteq> 0 then Inr (errno os, None, w)
      else let w = w\<lparr>attrs := Suc (attrs w)\<rparr> in
        bindR (if has_custom_context B then posix_create_custom B os Config w else posix_create_user B os Config w)
          (\<lambda>(Status, Thread, w).
        bindR (if \<not> is_android B \<and> Status = 0 then posix_affinitize B os Config Thread w else Inr w) (\<lambda>w.
        Inr (Status, Thread, w\<lparr>attrs := attrs w - 1\<rparr>))))"

text \<open>The other POSIX systems: no affinity, no second attempt.\<close>

definition bsd_CxPlatThreadCreate ::
  "posix_thread_os \<Rightarrow> CXPLAT_THREAD_CONFIG \<Rightarrow> posix_threads \<Rightarrow> u32 \<times> nat option \<times> posix_threads" where
  "bsd_CxPlatThreadCreate os Config w =
     (if attr_init os \<noteq> 0 then (errno os, None, w)
      else let high = (flagged Config CXPLAT_THREAD_FLAG_HIGH_PRIORITY \<and> attr_setschedparam os = 0) in
        if create_with_attr os = 0
        then (0, Some (new_thread os), w\<lparr>pthreads := (pthreads w)(new_thread os \<mapsto>
           \<lparr>started = User (Callback Config) (Context Config), affinity = None, high_priority = high\<rparr>)\<rparr>)
        else (errno os, None, w))"

section \<open>User mode Windows\<close>

record win_thread =
  win_started :: start_routine
  group_affinity :: "(u16 \<times> u64) option"
  ideal_processor :: "u32 option"
  highest_priority :: bool
  description :: "u16 list option"

record win_thread_os =
  CreateThread :: "nat option"
  ThreadError :: u32
  Widen :: "string \<Rightarrow> u16 list"

record win_threads =
  win_handles :: "nat \<rightharpoonup> win_thread"
  win_contexts :: "nat \<rightharpoonup> nat \<times> nat"

text \<open>
  Affinity, ideal processor, priority and name of the new thread, from the processor tables. The name is cut to
  what fits a buffer of 64 characters, of which one is not used and one ends the string.
\<close>

definition winuser_configure ::
  "bool \<Rightarrow> win_thread_os \<Rightarrow> CXPLAT_THREAD_CONFIG \<Rightarrow> winuser_globals \<Rightarrow> start_routine \<Rightarrow> win_thread result" where
  "winuser_configure dbg os Config g start =
     (let ideal = unat (IdealProcessor Config) in
      guardR (dbg \<longrightarrow> ideal < unat (CxPlatProcessorCount g)) AssertFailed
      (guardR (ideal < length (processor_table g)) OutOfBounds
      (case processor_table g ! ideal of
         None \<Rightarrow> Inl Undefined
       | Some ProcInfo \<Rightarrow>
           bindR (if flagged Config CXPLAT_THREAD_FLAG_SET_AFFINITIZE
                  then guardR (unat (Index ProcInfo) < 64) Undefined (Inr (push_bit (unat (Index ProcInfo)) 1))
                  else guardR (unat (Group ProcInfo) < length (group_table g)) OutOfBounds
                         (Inr (Mask (group_table g ! unat (Group ProcInfo))))) (\<lambda>mask.
           Inr \<lparr>win_started = start, group_affinity = Some (Group ProcInfo, mask),
             ideal_processor = (if flagged Config CXPLAT_THREAD_FLAG_SET_IDEAL_PROC then Some (Index ProcInfo) else None),
             highest_priority = flagged Config CXPLAT_THREAD_FLAG_HIGH_PRIORITY,
             description = map_option (\<lambda>n. take 62 (Widen os n)) (Name Config)\<rparr>))))"

definition winuser_CxPlatThreadCreate ::
  "bool \<Rightarrow> bool \<Rightarrow> win_system \<Rightarrow> win_thread_os \<Rightarrow> CXPLAT_THREAD_CONFIG \<Rightarrow> winuser_globals \<times> win_threads \<Rightarrow>
   (u32 \<times> nat option \<times> winuser_globals \<times> win_threads) result" where
  "winuser_CxPlatThreadCreate dbg custom S os Config = (\<lambda>(g, w).
     if custom then
       bindR (alloc_g dbg S 16 CXPLAT_POOL_CUSTOM_THREAD g) (\<lambda>(CustomContext, g).
       case CustomContext of
         None \<Rightarrow> Inr (CXPLAT_STATUS_OUT_OF_MEMORY, None, g, w)
       | Some a \<Rightarrow>
           let w = w\<lparr>win_contexts := (win_contexts w)(a \<mapsto> (Callback Config, Context Config))\<rparr> in
           (case CreateThread os of
              None \<Rightarrow> bindR (free_g dbg (Some a) CXPLAT_POOL_CUSTOM_THREAD g) (\<lambda>g.
                        Inr (ThreadError os, None, g, w\<lparr>win_contexts := (win_contexts w)(a := None)\<rparr>))
            | Some h \<Rightarrow> bindR (winuser_configure dbg os Config g (CustomStart a)) (\<lambda>t.
                        Inr (CXPLAT_STATUS_SUCCESS, Some h, g, w\<lparr>win_handles := (win_handles w)(h \<mapsto> t)\<rparr>))))
     else
       (case CreateThread os of
          None \<Rightarrow> Inr (ThreadError os, None, g, w)
        | Some h \<Rightarrow> bindR (winuser_configure dbg os Config g (User (Callback Config) (Context Config))) (\<lambda>t.
                    Inr (CXPLAT_STATUS_SUCCESS, Some h, g, w\<lparr>win_handles := (win_handles w)(h \<mapsto> t)\<rparr>))))"

section \<open>Windows kernel\<close>

text \<open>
  The status each kernel routine returns, with what it stores; \<open>NT_SUCCESS\<close> reads a status as a signed number.
\<close>

record kernel_thread_os =
  CreateSystemThread :: u32
  ReferenceObject :: u32
  ProcessorNumber :: "u32 \<times> u16 \<times> u8"
  SetAffinity :: u32
  QueryNumaNode :: "u32 \<times> u16 \<times> u64"
  SetIdeal :: u32
  ConvertName :: u32
  SetName :: u32

record kernel_thread =
  k_started :: "nat \<times> nat"
  k_affinity :: "(u16 \<times> u64) option"
  k_ideal :: "(u16 \<times> u8) option"
  k_priority :: bool
  k_named :: bool

text \<open>Open handles and references to the thread object that the call leaves, and the thread, once it runs.\<close>

record kernel_threads =
  open_handles :: nat
  references :: nat
  k_thread :: "kernel_thread option"

definition NT_SUCCESS :: "u32 \<Rightarrow> bool" where
  "NT_SUCCESS s \<longleftrightarrow> 0 \<le> sint s"

definition k_update :: "(kernel_thread \<Rightarrow> kernel_thread) \<Rightarrow> kernel_threads \<Rightarrow> kernel_threads" where
  "k_update f w = w\<lparr>k_thread := map_option f (k_thread w)\<rparr>"

text \<open>From the label \<open>SetPriority\<close> on; the label \<open>Cleanup\<close> closes the handle.\<close>

definition k_cleanup :: "u32 \<Rightarrow> bool \<Rightarrow> kernel_threads \<Rightarrow> u32 \<times> bool \<times> kernel_threads" where
  "k_cleanup Status Thread w = (Status, Thread, w\<lparr>open_handles := open_handles w - 1\<rparr>)"

definition k_set_priority ::
  "bool \<Rightarrow> kernel_thread_os \<Rightarrow> CXPLAT_THREAD_CONFIG \<Rightarrow> u32 \<Rightarrow> kernel_threads \<Rightarrow> (u32 \<times> bool \<times> kernel_threads) result" where
  "k_set_priority dbg os Config Status w =
     (let w = (if flagged Config CXPLAT_THREAD_FLAG_HIGH_PRIORITY then k_update (\<lambda>t. t\<lparr>k_priority := True\<rparr>) w else w) in
      if Name Config \<noteq> None then
        guardR (dbg \<longrightarrow> NT_SUCCESS (ConvertName os)) AssertFailed
        (guardR (dbg \<longrightarrow> NT_SUCCESS (SetName os)) AssertFailed
          (Inr (k_cleanup 0 True (if NT_SUCCESS (SetName os) then k_update (\<lambda>t. t\<lparr>k_named := True\<rparr>) w else w))))
      else Inr (k_cleanup Status True w))"

text \<open>A call whose failure asserts in a debug build and otherwise leaves through \<open>Cleanup\<close>.\<close>

definition k_checked ::
  "bool \<Rightarrow> u32 \<Rightarrow> kernel_threads \<Rightarrow> (u32 \<times> bool \<times> kernel_threads) result \<Rightarrow> (u32 \<times> bool \<times> kernel_threads) result" where
  "k_checked dbg Status w go_on =
     guardR (dbg \<longrightarrow> NT_SUCCESS Status) AssertFailed (if NT_SUCCESS Status then go_on else Inr (k_cleanup Status True w))"

definition k_set_ideal ::
  "bool \<Rightarrow> kernel_thread_os \<Rightarrow> CXPLAT_THREAD_CONFIG \<Rightarrow> u16 \<times> u8 \<Rightarrow> u32 \<Rightarrow> kernel_threads \<Rightarrow> (u32 \<times> bool \<times> kernel_threads) result" where
  "k_set_ideal dbg os Config Processor Status w =
     (if flagged Config CXPLAT_THREAD_FLAG_SET_IDEAL_PROC
      then k_checked dbg (SetIdeal os) w
             (k_set_priority dbg os Config (SetIdeal os) (k_update (\<lambda>t. t\<lparr>k_ideal := Some Processor\<rparr>) w))
      else k_set_priority dbg os Config Status w)"

definition k_place ::
  "bool \<Rightarrow> kernel_thread_os \<Rightarrow> CXPLAT_THREAD_CONFIG \<Rightarrow> kernel_threads \<Rightarrow> (u32 \<times> bool \<times> kernel_threads) result" where
  "k_place dbg os Config w = (case ProcessorNumber os of (Status, grp, number) \<Rightarrow>
     if \<not> NT_SUCCESS Status then k_set_priority dbg os Config 0 w
     else if flagged Config CXPLAT_THREAD_FLAG_SET_AFFINITIZE then
       guardR (unat number < 64) Undefined
         (k_checked dbg (SetAffinity os) w
           (k_set_ideal dbg os Config (grp, number) (SetAffinity os)
             (k_update (\<lambda>t. t\<lparr>k_affinity := Some (grp, push_bit (unat number) 1)\<rparr>) w)))
     else (case QueryNumaNode os of (Status, nodemask) \<Rightarrow>
       k_checked dbg Status w
         (k_checked dbg (SetAffinity os) w
           (k_set_ideal dbg os Config (grp, number) (SetAffinity os)
             (k_update (\<lambda>t. t\<lparr>k_affinity := Some nodemask\<rparr>) w)))))"

text \<open>The status, whether \<open>*Thread\<close> refers to the thread, and what is left.\<close>

definition winkernel_CxPlatThreadCreate ::
  "bool \<Rightarrow> kernel_thread_os \<Rightarrow> CXPLAT_THREAD_CONFIG \<Rightarrow> kernel_threads \<Rightarrow> (u32 \<times> bool \<times> kernel_threads) result" where
  "winkernel_CxPlatThreadCreate dbg os Config w =
     guardR (dbg \<longrightarrow> NT_SUCCESS (CreateSystemThread os)) AssertFailed
     (if \<not> NT_SUCCESS (CreateSystemThread os) then Inr (CreateSystemThread os, False, w)
      else let w = w\<lparr>open_handles := Suc (open_handles w), k_thread := Some \<lparr>k_started = (Callback Config, Context Config),
             k_affinity = None, k_ideal = None, k_priority = False, k_named = False\<rparr>\<rparr> in
        guardR (dbg \<longrightarrow> NT_SUCCESS (ReferenceObject os)) AssertFailed
        (if \<not> NT_SUCCESS (ReferenceObject os) then Inr (k_cleanup (ReferenceObject os) False w)
         else k_place dbg os Config (w\<lparr>references := Suc (references w)\<rparr>)))"

section \<open>POSIX creation\<close>


definition demo_os :: posix_thread_os where
  "demo_os = \<lparr>attr_init = 0, attr_setaffinity = 0, attr_setschedparam = 0, create_with_attr = 11, create_plain = 11, setaffinity = 0,
     errno = 0, new_thread = 7, node_of_cpu = (\<lambda>_. 0), thread_malloc = (\<lambda>_. None), thread_random = 0\<rparr>"

definition demo_build :: posix_build where
  "demo_build = \<lparr>is_debug = False, is_glibc = True, is_android = False, is_numa_aware = False, has_custom_context = False\<rparr>"

definition no_threads :: posix_threads where
  "no_threads = \<lparr>attrs = 0, pthreads = Map.empty, contexts = Map.empty, node_masks = [],
     alloc_state = \<lparr>posix_AllocFailDenominator = 0, posix_AllocCounter = 0\<rparr>\<rparr>"

definition demo_config :: "u16 \<Rightarrow> u16 \<Rightarrow> CXPLAT_THREAD_CONFIG" where
  "demo_config f p = \<lparr>Flags = f, IdealProcessor = p, Name = Some ''worker'', Callback = 100, Context = 200\<rparr>"


section \<open>Windows kernel creation\<close>

text \<open>
  C34. \<open>CxPlatThreadCreate\<close> in the Windows kernel, release build: the thread handle is closed on every way out and at most one
  reference to the thread object is taken. If the status is a success, \<open>*Thread\<close> holds that reference and the thread runs the caller's routine. A failure that comes
  after the thread was created leaves it running; if it comes from placing the thread, the reference is left to the caller as well, who was told that there is no thread.
\<close>

theorem winkernel_thread_create_outcome:
  assumes "\<forall>s grp number. ProcessorNumber os = (s, grp, number) \<longrightarrow> number < 64"
  shows "\<exists>Status stored w'. winkernel_CxPlatThreadCreate False os Config w = Inr (Status, stored, w') \<and>
    open_handles w' = open_handles w \<and> references w' = references w + (if stored then 1 else 0) \<and>
    (NT_SUCCESS Status \<longrightarrow> stored) \<and>
    (if NT_SUCCESS (CreateSystemThread os)
     then (\<exists>t. k_thread w' = Some t \<and> k_started t = (Callback Config, Context Config)) \<and> (stored \<longleftrightarrow> NT_SUCCESS (ReferenceObject os))
     else k_thread w' = k_thread w \<and> \<not> stored)"
proof (cases "NT_SUCCESS (CreateSystemThread os) \<and> NT_SUCCESS (ReferenceObject os)")
  case True
  then show ?thesis using assms
    by (auto simp: winkernel_CxPlatThreadCreate_def k_place_def k_checked_def k_set_ideal_def k_set_priority_def k_cleanup_def k_update_def Let_def
        word_less_nat_alt split: prod.splits)
next
  case False
  then show ?thesis
    by (auto simp: winkernel_CxPlatThreadCreate_def k_cleanup_def Let_def)
qed

definition demo_kernel_os :: kernel_thread_os where
  "demo_kernel_os = \<lparr>CreateSystemThread = 0, ReferenceObject = 0, ProcessorNumber = (0, 0, 3), SetAffinity = 0xC0000001,
     QueryNumaNode = (0, 0, 15), SetIdeal = 0, ConvertName = 0, SetName = 0\<rparr>"

theorem winkernel_thread_create_outcome_witness:
  "\<exists>Status stored w'. winkernel_CxPlatThreadCreate False demo_kernel_os (demo_config 2 3) \<lparr>open_handles = 0, references = 0, k_thread = None\<rparr>
      = Inr (Status, stored, w') \<and> open_handles w' = 0 \<and> references w' = 1 \<and> \<not> NT_SUCCESS Status"
  using winkernel_thread_create_outcome [of demo_kernel_os "demo_config 2 3" "\<lparr>open_handles = 0, references = 0, k_thread = None\<rparr>"]
  by (auto simp: demo_kernel_os_def NT_SUCCESS_def winkernel_CxPlatThreadCreate_def k_place_def k_checked_def k_cleanup_def demo_config_def flagged_def
      CXPLAT_THREAD_FLAG_SET_AFFINITIZE_def Let_def)

text \<open>The processor that an entry of the table leads to.\<close>

lemma table_entry:
  assumes "layout_ok infos g" and "length infos \<le> 65535" and "p < total infos"
  obtains e where "processor_table g ! p = Some e" and "unat (Group e) < length infos"
    and "unat (Index e) < act (infos ! unat (Group e))" and "total (take (unat (Group e)) infos) + unat (Index e) = p"
proof -
  have "\<forall>p < total infos. \<exists>e j. processor_table g ! p = Some e \<and> Group e = of_nat j \<and> j < length infos \<and>
        unat (Index e) < act (infos ! j) \<and> total (take j infos) + unat (Index e) = p"
    using assms(1) by (simp add: layout_ok_def)
  then obtain e j where e: "processor_table g ! p = Some e" "Group e = of_nat j" "j < length infos"
      "unat (Index e) < act (infos ! j)" "total (take j infos) + unat (Index e) = p" using assms(3) by blast
  moreover have "unat (Group e) = j" using e(2,3) assms(2) by (simp add: unat_of_nat)
  ultimately show ?thesis using that by simp
qed

lemma winuser_configure_spec:
  assumes L: "layout_ok infos g" and "length infos \<le> 65535" and max: "\<forall>i \<in> set infos. act i \<le> 64"
    and ideal: "unat (IdealProcessor Config) < total infos"
  shows "\<exists>t e. winuser_configure dbg os Config g start = Inr t \<and> processor_table g ! unat (IdealProcessor Config) = Some e \<and>
    win_started t = start \<and> unat (Group e) < length infos \<and> unat (Index e) < act (infos ! unat (Group e)) \<and>
    total (take (unat (Group e)) infos) + unat (Index e) = unat (IdealProcessor Config) \<and>
    group_affinity t = Some (Group e, if flagged Config CXPLAT_THREAD_FLAG_SET_AFFINITIZE
       then push_bit (unat (Index e)) 1 else ActiveProcessorMask (infos ! unat (Group e)))"
proof -
  obtain e where e: "processor_table g ! unat (IdealProcessor Config) = Some e" "unat (Group e) < length infos"
      "unat (Index e) < act (infos ! unat (Group e))" "total (take (unat (Group e)) infos) + unat (Index e) = unat (IdealProcessor Config)"
    using table_entry [OF L assms(2) ideal] .
  have "act (infos ! unat (Group e)) \<le> 64" using max e(2) by simp
  then have "unat (Index e) < 64" using e(3) by simp
  moreover have "unat (CxPlatProcessorCount g) = total infos" "length (processor_table g) = total infos" "length (group_table g) = length infos"
      "Mask (group_table g ! unat (Group e)) = ActiveProcessorMask (infos ! unat (Group e))"
    using L e(2) by (simp_all add: layout_ok_def)
  ultimately show ?thesis using e ideal by (simp add: winuser_configure_def Let_def)
qed

section \<open>Custom thread contexts\<close>

text \<open>The tables stay what they are when the allocator's state changes.\<close>

lemma layout_ok_storage [simp]: "layout_ok infos (g\<lparr>CxPlatform := P\<rparr>) = layout_ok infos g"
  by (simp add: layout_ok_def)

lemma custom_context_size: "(16 :: nat) \<noteq> 0" "16 + AllocOffset < 2 ^ 64"
  by (simp_all add: AllocOffset_def)

lemma custom_thread_create:
  assumes S: "good_system S" and heap: "dbg \<longrightarrow> Heap (CxPlatform g) \<noteq> None"
    and L: "layout_ok infos g" "length infos \<le> 65535" "\<forall>i \<in> set infos. act i \<le> 64" "unat (IdealProcessor Config) < total infos"
  shows "\<exists>st h g' w'. winuser_CxPlatThreadCreate dbg True S os Config (g, w) = Inr (st, h, g', w') \<and>
      (case h of
         None \<Rightarrow> live (the_heap g') = live (the_heap g) \<and> win_handles w' = win_handles w
       | Some t \<Rightarrow> (\<exists>a n th. live (the_heap g) (base dbg a) = None \<and> live (the_heap g') = (live (the_heap g))(base dbg a \<mapsto> n) \<and>
           owns dbg (the_heap g') a CXPLAT_POOL_CUSTOM_THREAD \<and> win_handles w' = (win_handles w)(t \<mapsto> th) \<and>
           win_started th = CustomStart a \<and> win_contexts w' = (win_contexts w)(a \<mapsto> (Callback Config, Context Config))))"
proof (cases rule: alloc_g_spec [OF S heap custom_context_size, where Tag = CXPLAT_POOL_CUSTOM_THREAD, case_names refused given])
  case (refused P)
  then show ?thesis by (simp add: winuser_CxPlatThreadCreate_def)
next
  case (given m n P H)
  let ?g = "g\<lparr>CxPlatform := P, the_heap := H\<rparr>"
  show ?thesis
  proof (cases "CreateThread os")
    case None
    have "free_g dbg (Some m) CXPLAT_POOL_CUSTOM_THREAD ?g = Inr (?g\<lparr>the_heap := H\<lparr>live := (live H)(base dbg m := None)\<rparr>\<rparr>)"
      using free_g_owned [of dbg ?g m] given(5) by simp
    moreover have "(live H)(base dbg m := None) = live (the_heap g)" using given(3,4) by (simp add: fun_upd_idem)
    ultimately show ?thesis using given(1) None by (simp add: winuser_CxPlatThreadCreate_def Let_def)
  next
    case (Some h)
    obtain th where "winuser_configure dbg os Config ?g (CustomStart m) = Inr th" "win_started th = CustomStart m"
      using winuser_configure_spec [of infos ?g Config dbg os "CustomStart m"] L by auto
    then show ?thesis using given Some by (auto simp: winuser_CxPlatThreadCreate_def Let_def)
  qed
qed

text \<open>
  With custom thread contexts, in user mode on Windows, every way out of \<open>CxPlatThreadCreate\<close> has one owner for the context block: if a thread was created, it starts in the
  custom routine with a fresh block that holds the caller's routine and argument, the only block taken, under the tag with which the routine is to free it; if there is none, no block was kept.
  On Linux the check of the allocation does not leave the function: when the storage is refused the context is written through a null pointer.
\<close>

theorem custom_thread_context_owned:
  assumes S: "good_system S" and heap: "dbg \<longrightarrow> Heap (CxPlatform g) \<noteq> None"
    and L: "layout_ok infos g" "length infos \<le> 65535" "\<forall>i \<in> set infos. act i \<le> 64" "unat (IdealProcessor Config) < total infos"
    and linux: "has_custom_context B" "attr_init pos = 0" "\<not> is_debug B" "thread_malloc pos 16 = None"
  shows "(\<exists>st h g' w'. winuser_CxPlatThreadCreate dbg True S os Config (g, w) = Inr (st, h, g', w') \<and>
      (case h of
         None \<Rightarrow> live (the_heap g') = live (the_heap g) \<and> win_handles w' = win_handles w
       | Some t \<Rightarrow> (\<exists>a n th. live (the_heap g) (base dbg a) = None \<and> live (the_heap g') = (live (the_heap g))(base dbg a \<mapsto> n) \<and>
           owns dbg (the_heap g') a CXPLAT_POOL_CUSTOM_THREAD \<and> win_handles w' = (win_handles w)(t \<mapsto> th) \<and>
           win_started th = CustomStart a \<and> win_contexts w' = (win_contexts w)(a \<mapsto> (Callback Config, Context Config))))) \<and>
    linux_CxPlatThreadCreate B pos Config pw = Inl NullDeref"
  using custom_thread_create [OF S heap L, of os w] linux
  by (simp add: linux_CxPlatThreadCreate_def posix_create_custom_def posix_CxPlatAlloc_def Let_def)

definition demo_thread_os :: win_thread_os where
  "demo_thread_os = \<lparr>CreateThread = Some 77, ThreadError = 0, Widen = (\<lambda>_. [])\<rparr>"

theorem custom_thread_context_owned_witness:
  "linux_CxPlatThreadCreate (demo_build\<lparr>has_custom_context := True\<rparr>) demo_os (demo_config 0 1) no_threads = Inl NullDeref \<and>
   (\<exists>st h g' w'. winuser_CxPlatThreadCreate True True demo_system demo_thread_os (demo_config 0 1)
      (demo_tables, \<lparr>win_handles = Map.empty, win_contexts = Map.empty\<rparr>) = Inr (st, h, g', w'))"
proof -
  have "\<forall>i \<in> set (GroupInfo demo_groups). act i \<le> 64" "unat (IdealProcessor (demo_config 0 1)) < total (GroupInfo demo_groups)"
      "length (GroupInfo demo_groups) \<le> 65535" "True \<longrightarrow> Heap (CxPlatform demo_tables) \<noteq> None"
      "has_custom_context (demo_build\<lparr>has_custom_context := True\<rparr>)" "attr_init demo_os = 0" "\<not> is_debug (demo_build\<lparr>has_custom_context := True\<rparr>)"
      "thread_malloc demo_os 16 = None"
    by (auto simp: demo_groups_def act_def total_def demo_config_def demo_tables_def demo_globals_def demo_build_def demo_os_def split: prod.splits)
  note facts = this
  from custom_thread_context_owned [OF demo_good(1) facts(4) demo_tables_layout facts(3,1,2,5-8)] show ?thesis by blast
qed

subsection \<open>The custom start routine\<close>

text \<open>
  The routine belongs to the user of the library. The contract that the header states: it calls the routine of its context, and frees the context with \<open>CXPLAT_FREE\<close> under the tag
  of the library. The calls are recorded, with their argument.
\<close>

type_synonym custom_state = "winuser_globals \<times> win_threads \<times> (nat \<times> nat) list"

definition documented_custom_start :: "bool \<Rightarrow> (nat \<Rightarrow> custom_state \<Rightarrow> custom_state result) \<Rightarrow> bool" where
  "documented_custom_start dbg Start \<longleftrightarrow> (\<forall>CustomContext g w calls cb. win_contexts w CustomContext = Some cb \<longrightarrow>
     Start CustomContext (g, w, calls) =
       bindR (free_g dbg (Some CustomContext) CXPLAT_POOL_CUSTOM_THREAD g) (\<lambda>g. Inr (g, w, calls @ [cb])))"

text \<open>A thread runs what it was started with.\<close>

definition run_thread :: "(nat \<Rightarrow> custom_state \<Rightarrow> custom_state result) \<Rightarrow> win_thread \<Rightarrow> custom_state \<Rightarrow> custom_state result" where
  "run_thread Start th = (\<lambda>(g, w, calls). case win_started th of
       User cb cx \<Rightarrow> Inr (g, w, calls @ [(cb, cx)])
     | CustomStart a \<Rightarrow> Start a (g, w, calls))"

text \<open>
  C15. With custom thread contexts, in user mode on Windows, and a custom start routine that keeps the contract of the header, every thread that \<open>CxPlatThreadCreate\<close> makes calls the caller's routine with the
  caller's argument, exactly once, the release of the context does not fault, and afterwards the heap has the blocks it had before the creation. When no thread is made, no block is kept.
\<close>

theorem custom_thread_roundtrip:
  assumes S: "good_system S" and heap: "dbg \<longrightarrow> Heap (CxPlatform g) \<noteq> None"
    and L: "layout_ok infos g" "length infos \<le> 65535" "\<forall>i \<in> set infos. act i \<le> 64" "unat (IdealProcessor Config) < total infos"
    and Start: "documented_custom_start dbg Start"
  shows "\<exists>st h g' w'. winuser_CxPlatThreadCreate dbg True S os Config (g, w) = Inr (st, h, g', w') \<and>
    (case h of
       None \<Rightarrow> live (the_heap g') = live (the_heap g) \<and> win_handles w' = win_handles w
     | Some t \<Rightarrow> (\<exists>th g''. win_handles w' t = Some th \<and>
         run_thread Start th (g', w', []) = Inr (g'', w', [(Callback Config, Context Config)]) \<and> live (the_heap g'') = live (the_heap g)))"
proof -
  from custom_thread_create [OF S heap L, of os w] obtain st h g' w' where
    create: "winuser_CxPlatThreadCreate dbg True S os Config (g, w) = Inr (st, h, g', w')" and
    post: "case h of None \<Rightarrow> live (the_heap g') = live (the_heap g) \<and> win_handles w' = win_handles w
       | Some t \<Rightarrow> (\<exists>a n th. live (the_heap g) (base dbg a) = None \<and> live (the_heap g') = (live (the_heap g))(base dbg a \<mapsto> n) \<and>
           owns dbg (the_heap g') a CXPLAT_POOL_CUSTOM_THREAD \<and> win_handles w' = (win_handles w)(t \<mapsto> th) \<and>
           win_started th = CustomStart a \<and> win_contexts w' = (win_contexts w)(a \<mapsto> (Callback Config, Context Config)))"
    by blast
  show ?thesis
  proof (cases h)
    case None
    then show ?thesis using create post by auto
  next
    case (Some t)
    with post obtain a n th where a: "live (the_heap g) (base dbg a) = None" "live (the_heap g') = (live (the_heap g))(base dbg a \<mapsto> n)"
        "owns dbg (the_heap g') a CXPLAT_POOL_CUSTOM_THREAD" "win_handles w' = (win_handles w)(t \<mapsto> th)" "win_started th = CustomStart a"
        "win_contexts w' a = Some (Callback Config, Context Config)"
      by auto
    have "Start a (g', w', []) = bindR (free_g dbg (Some a) CXPLAT_POOL_CUSTOM_THREAD g') (\<lambda>g. Inr (g, w', [(Callback Config, Context Config)]))"
      using Start a(6) by (simp add: documented_custom_start_def)
    then show ?thesis using create Some a(1,2,4,5) free_g_owned [OF a(3)] by (auto simp: run_thread_def fun_upd_idem)
  qed
qed

definition demo_custom_start :: "bool \<Rightarrow> nat \<Rightarrow> custom_state \<Rightarrow> custom_state result" where
  "demo_custom_start dbg a = (\<lambda>(g, w, calls). case win_contexts w a of
       None \<Rightarrow> Inl UseAfterFree
     | Some cb \<Rightarrow> bindR (free_g dbg (Some a) CXPLAT_POOL_CUSTOM_THREAD g) (\<lambda>g. Inr (g, w, calls @ [cb])))"

theorem custom_thread_roundtrip_witness:
  "\<exists>st h g' w'. winuser_CxPlatThreadCreate True True demo_system demo_thread_os (demo_config 0 1)
      (demo_tables, \<lparr>win_handles = Map.empty, win_contexts = Map.empty\<rparr>) = Inr (st, h, g', w') \<and>
    (case h of
       None \<Rightarrow> live (the_heap g') = live (the_heap demo_tables) \<and> win_handles w' = Map.empty
     | Some t \<Rightarrow> (\<exists>th g''. win_handles w' t = Some th \<and>
         run_thread (demo_custom_start True) th (g', w', []) = Inr (g'', w', [(Callback (demo_config 0 1), Context (demo_config 0 1))]) \<and>
         live (the_heap g'') = live (the_heap demo_tables)))"
proof -
  have "\<forall>i \<in> set (GroupInfo demo_groups). act i \<le> 64" "unat (IdealProcessor (demo_config 0 1)) < total (GroupInfo demo_groups)"
      "length (GroupInfo demo_groups) \<le> 65535" "True \<longrightarrow> Heap (CxPlatform demo_tables) \<noteq> None" "documented_custom_start True (demo_custom_start True)"
    by (auto simp: demo_groups_def act_def total_def demo_config_def demo_tables_def demo_globals_def documented_custom_start_def demo_custom_start_def
        split: prod.splits)
  note facts = this
  from custom_thread_roundtrip [OF demo_good(1) facts(4) demo_tables_layout facts(3,1,2,5), of demo_thread_os "\<lparr>win_handles = Map.empty, win_contexts = Map.empty\<rparr>"]
  show ?thesis by (simp only: win_threads.select_convs)
qed

end
