(* ===== verification/CxMacros.thy ===== *)
theory CxMacros
  imports CxStartup CxThread CxDispatch
begin

text \<open>
  The macros on which the rest of the code rests, on the three platforms: the status codes and the tests of a status, the assertions with
  \<open>CxPlatLogAssert\<close> and \<open>cxplat_bugcheck\<close>, the interrupt request level, and the operators on enumerations of flags
  (\<open>inc/cxplat_posix.h\<close>, \<open>inc/cxplat_winuser.h\<close>, \<open>inc/cxplat_winkernel.h\<close>, \<open>inc/cxplat_posix_shim.h\<close>, \<open>inc/cxplat.h\<close>).
\<close>

section \<open>Status codes\<close>

text \<open>
  A status is an \<open>errno\<close> value on POSIX, an \<open>HRESULT\<close> in user mode and an \<open>NTSTATUS\<close> in the kernel. \<open>macos\<close> selects the value of \<open>EOPNOTSUPP\<close>.
\<close>

definition posix_CXPLAT_FAILED :: "u32 \<Rightarrow> bool" where "posix_CXPLAT_FAILED X \<longleftrightarrow> sint X > 0"
definition posix_CXPLAT_SUCCEEDED :: "u32 \<Rightarrow> bool" where "posix_CXPLAT_SUCCEEDED X \<longleftrightarrow> sint X \<le> 0"
definition posix_CXPLAT_STATUS_SUCCESS :: u32 where "posix_CXPLAT_STATUS_SUCCESS = 0"
definition posix_CXPLAT_STATUS_OUT_OF_MEMORY :: u32 where "posix_CXPLAT_STATUS_OUT_OF_MEMORY = 12"
definition posix_CXPLAT_STATUS_NOT_SUPPORTED :: "bool \<Rightarrow> u32" where
  "posix_CXPLAT_STATUS_NOT_SUPPORTED macos = (if macos then 102 else 95)"

definition winuser_CXPLAT_FAILED :: "u32 \<Rightarrow> bool" where "winuser_CXPLAT_FAILED X \<longleftrightarrow> sint X < 0"
definition winuser_CXPLAT_SUCCEEDED :: "u32 \<Rightarrow> bool" where "winuser_CXPLAT_SUCCEEDED X \<longleftrightarrow> sint X \<ge> 0"

definition winkernel_CXPLAT_FAILED :: "u32 \<Rightarrow> bool" where "winkernel_CXPLAT_FAILED X \<longleftrightarrow> \<not> NT_SUCCESS X"
definition winkernel_CXPLAT_SUCCEEDED :: "u32 \<Rightarrow> bool" where "winkernel_CXPLAT_SUCCEEDED X \<longleftrightarrow> NT_SUCCESS X"
definition winkernel_CXPLAT_STATUS_SUCCESS :: u32 where "winkernel_CXPLAT_STATUS_SUCCESS = 0"
definition winkernel_CXPLAT_STATUS_OUT_OF_MEMORY :: u32 where "winkernel_CXPLAT_STATUS_OUT_OF_MEMORY = 0xc0000017"
definition winkernel_CXPLAT_STATUS_NOT_SUPPORTED :: u32 where "winkernel_CXPLAT_STATUS_NOT_SUPPORTED = 0xc00000bb"

definition winkernel_CxPlatCloseHandle :: "('h \<Rightarrow> u32) \<Rightarrow> 'h \<Rightarrow> u32" where
  "winkernel_CxPlatCloseHandle ZwClose Handle = ZwClose Handle"

named_theorems status_defs \<open>the status codes and their tests\<close>

lemmas status_macros [status_defs] = posix_CXPLAT_FAILED_def posix_CXPLAT_SUCCEEDED_def posix_CXPLAT_STATUS_SUCCESS_def
  posix_CXPLAT_STATUS_OUT_OF_MEMORY_def posix_CXPLAT_STATUS_NOT_SUPPORTED_def winuser_CXPLAT_FAILED_def winuser_CXPLAT_SUCCEEDED_def
  winkernel_CXPLAT_FAILED_def winkernel_CXPLAT_SUCCEEDED_def winkernel_CXPLAT_STATUS_SUCCESS_def winkernel_CXPLAT_STATUS_OUT_OF_MEMORY_def
  winkernel_CXPLAT_STATUS_NOT_SUPPORTED_def NT_SUCCESS_def CXPLAT_STATUS_SUCCESS_def CXPLAT_STATUS_OUT_OF_MEMORY_def
  CXPLAT_STATUS_NOT_SUPPORTED_def

text \<open>What the three platforms share of a status.\<close>

locale status_codes =
  fixes FAILED SUCCEEDED :: "u32 \<Rightarrow> bool" and SUCCESS OUT_OF_MEMORY NOT_SUPPORTED :: u32
  assumes failed_iff: "FAILED X \<longleftrightarrow> \<not> SUCCEEDED X"
    and success: "SUCCEEDED SUCCESS"
    and out_of_memory: "FAILED OUT_OF_MEMORY"
    and not_supported: "FAILED NOT_SUPPORTED"
    and codes_differ: "OUT_OF_MEMORY \<noteq> NOT_SUPPORTED"
begin

lemma status_distinct: "distinct [SUCCESS, OUT_OF_MEMORY, NOT_SUPPORTED]"
  using success out_of_memory not_supported codes_differ by (auto simp: failed_iff)

end

interpretation posix_status: status_codes posix_CXPLAT_FAILED posix_CXPLAT_SUCCEEDED posix_CXPLAT_STATUS_SUCCESS
    posix_CXPLAT_STATUS_OUT_OF_MEMORY "posix_CXPLAT_STATUS_NOT_SUPPORTED macos" for macos
  by unfold_locales (auto simp: status_defs)

interpretation winuser_status: status_codes winuser_CXPLAT_FAILED winuser_CXPLAT_SUCCEEDED CXPLAT_STATUS_SUCCESS
    CXPLAT_STATUS_OUT_OF_MEMORY CXPLAT_STATUS_NOT_SUPPORTED
  by unfold_locales (auto simp: status_defs)

interpretation winkernel_status: status_codes winkernel_CXPLAT_FAILED winkernel_CXPLAT_SUCCEEDED winkernel_CXPLAT_STATUS_SUCCESS
    winkernel_CXPLAT_STATUS_OUT_OF_MEMORY winkernel_CXPLAT_STATUS_NOT_SUPPORTED
  by unfold_locales (auto simp: status_defs)

section \<open>Assertions\<close>

text \<open>
  The asserted expression may have effects: it is a function of the state that yields its truth and the state after it. Trace events
  expand to nothing. An assertion ends the run with \<open>AssertFailed\<close>, or goes on in a new state.
\<close>

type_synonym 's expression = "'s \<Rightarrow> bool \<times> 's"

definition CxPlatTraceEvent :: "string \<Rightarrow> 's \<Rightarrow> 's" where
  "CxPlatTraceEvent Fmt s = s"

subsection \<open>POSIX\<close>

definition posix_CxPlatLogAssert :: "string \<Rightarrow> i32 \<Rightarrow> string \<Rightarrow> 's \<Rightarrow> 's" where
  "posix_CxPlatLogAssert File Line Expr s = CxPlatTraceEvent ''[ lib] ASSERT, %u:%s - %s.'' s"

definition cxplat_bugcheck :: "string \<Rightarrow> i32 \<Rightarrow> string \<Rightarrow> 's \<Rightarrow> 'a result" where
  "cxplat_bugcheck File Line Expr s = Inl AssertFailed"

definition posix_CXPLAT_FRE_ASSERT :: "string \<Rightarrow> i32 \<Rightarrow> string \<Rightarrow> 's expression \<Rightarrow> 's \<Rightarrow> 's result" where
  "posix_CXPLAT_FRE_ASSERT File Line src exp s = (case exp s of (b, s) \<Rightarrow>
     if b then Inr s else cxplat_bugcheck File Line src (posix_CxPlatLogAssert File Line src s))"

definition posix_CXPLAT_FRE_ASSERTMSG :: "string \<Rightarrow> i32 \<Rightarrow> string \<Rightarrow> 's expression \<Rightarrow> string \<Rightarrow> 's \<Rightarrow> 's result" where
  "posix_CXPLAT_FRE_ASSERTMSG File Line src exp Y = posix_CXPLAT_FRE_ASSERT File Line src exp"

definition posix_CXPLAT_DBG_ASSERT :: "bool \<Rightarrow> string \<Rightarrow> i32 \<Rightarrow> string \<Rightarrow> 's expression \<Rightarrow> 's \<Rightarrow> 's result" where
  "posix_CXPLAT_DBG_ASSERT dbg File Line src exp =
     (if dbg then posix_CXPLAT_FRE_ASSERT File Line src exp else Inr)"

definition posix_CXPLAT_DBG_ASSERTMSG :: "bool \<Rightarrow> string \<Rightarrow> i32 \<Rightarrow> string \<Rightarrow> 's expression \<Rightarrow> string \<Rightarrow> 's \<Rightarrow> 's result" where
  "posix_CXPLAT_DBG_ASSERTMSG dbg File Line src exp msg =
     (if dbg then posix_CXPLAT_FRE_ASSERT File Line src exp else Inr)"

subsection \<open>User mode Windows\<close>

text \<open>
  The macros are expressions: they have a value as well. \<open>CXPLAT_ANALYSIS_ASSUME\<close> is never evaluated at run time. \<open>DbgRaiseAssertionFailure\<close>
  is an argument, which a debugger may let return.
\<close>

definition winuser_CxPlatLogAssert :: "string \<Rightarrow> i32 \<Rightarrow> string \<Rightarrow> 's \<Rightarrow> 's" where
  "winuser_CxPlatLogAssert File Line Expr s = CxPlatTraceEvent ''[ lib] ASSERT, %u:%s - %s.'' s"

definition winuser_CXPLAT_ANALYSIS_ASSUME :: "'s expression \<Rightarrow> 's \<Rightarrow> 's" where
  "winuser_CXPLAT_ANALYSIS_ASSUME exp s = s"

definition winuser_CXPLAT_ASSERT_NOOP :: "'s expression \<Rightarrow> string \<Rightarrow> 's \<Rightarrow> (bool \<times> 's) result" where
  "winuser_CXPLAT_ASSERT_NOOP exp msg s = Inr (False, winuser_CXPLAT_ANALYSIS_ASSUME exp s)"

definition winuser_CXPLAT_ASSERT_CRASH ::
  "('s \<Rightarrow> 's result) \<Rightarrow> string \<Rightarrow> i32 \<Rightarrow> string \<Rightarrow> 's expression \<Rightarrow> string \<Rightarrow> 's \<Rightarrow> (bool \<times> 's) result" where
  "winuser_CXPLAT_ASSERT_CRASH Raise File Line src exp msg s =
     (case exp (winuser_CXPLAT_ANALYSIS_ASSUME exp s) of (b, s) \<Rightarrow>
      if \<not> b then bindR (Raise (winuser_CxPlatLogAssert File Line src s)) (\<lambda>s. Inr (False, s)) else Inr (True, s))"

definition winuser_CXPLAT_FRE_ASSERT ::
  "('s \<Rightarrow> 's result) \<Rightarrow> string \<Rightarrow> i32 \<Rightarrow> string \<Rightarrow> 's expression \<Rightarrow> 's \<Rightarrow> (bool \<times> 's) result" where
  "winuser_CXPLAT_FRE_ASSERT Raise File Line src exp = winuser_CXPLAT_ASSERT_CRASH Raise File Line src exp src"

definition winuser_CXPLAT_FRE_ASSERTMSG ::
  "('s \<Rightarrow> 's result) \<Rightarrow> string \<Rightarrow> i32 \<Rightarrow> string \<Rightarrow> 's expression \<Rightarrow> string \<Rightarrow> 's \<Rightarrow> (bool \<times> 's) result" where
  "winuser_CXPLAT_FRE_ASSERTMSG Raise File Line src exp msg = winuser_CXPLAT_ASSERT_CRASH Raise File Line src exp msg"

definition winuser_CXPLAT_DBG_ASSERT ::
  "bool \<Rightarrow> ('s \<Rightarrow> 's result) \<Rightarrow> string \<Rightarrow> i32 \<Rightarrow> string \<Rightarrow> 's expression \<Rightarrow> 's \<Rightarrow> (bool \<times> 's) result" where
  "winuser_CXPLAT_DBG_ASSERT dbg Raise File Line src exp =
     (if dbg then winuser_CXPLAT_ASSERT_CRASH Raise File Line src exp src else winuser_CXPLAT_ASSERT_NOOP exp src)"

definition winuser_CXPLAT_DBG_ASSERTMSG ::
  "bool \<Rightarrow> ('s \<Rightarrow> 's result) \<Rightarrow> string \<Rightarrow> i32 \<Rightarrow> string \<Rightarrow> 's expression \<Rightarrow> string \<Rightarrow> 's \<Rightarrow> (bool \<times> 's) result" where
  "winuser_CXPLAT_DBG_ASSERTMSG dbg Raise File Line src exp msg =
     (if dbg then winuser_CXPLAT_ASSERT_CRASH Raise File Line src exp msg else winuser_CXPLAT_ASSERT_NOOP exp msg)"

subsection \<open>Windows kernel\<close>

definition winkernel_CxPlatLogAssert :: "string \<Rightarrow> i32 \<Rightarrow> string \<Rightarrow> 's \<Rightarrow> 's" where
  "winkernel_CxPlatLogAssert File Line Expr s = CxPlatTraceEvent ''[ lib] ASSERT, %u:%s - %s.'' s"

definition winkernel_CXPLAT_ANALYSIS_ASSUME :: "'s expression \<Rightarrow> 's \<Rightarrow> 's" where
  "winkernel_CXPLAT_ANALYSIS_ASSUME exp s = s"

definition winkernel_CXPLAT_ASSERT_NOOP :: "'s expression \<Rightarrow> string \<Rightarrow> 's \<Rightarrow> (bool \<times> 's) result" where
  "winkernel_CXPLAT_ASSERT_NOOP exp msg s = Inr (False, winkernel_CXPLAT_ANALYSIS_ASSUME exp s)"

definition winkernel_CXPLAT_ASSERT_CRASH ::
  "('s \<Rightarrow> 's result) \<Rightarrow> string \<Rightarrow> i32 \<Rightarrow> string \<Rightarrow> 's expression \<Rightarrow> string \<Rightarrow> 's \<Rightarrow> (bool \<times> 's) result" where
  "winkernel_CXPLAT_ASSERT_CRASH Raise File Line src exp msg s =
     (case exp (winkernel_CXPLAT_ANALYSIS_ASSUME exp s) of (b, s) \<Rightarrow>
      if \<not> b then bindR (Raise (winkernel_CxPlatLogAssert File Line src s)) (\<lambda>s. Inr (False, s)) else Inr (True, s))"

definition winkernel_CXPLAT_FRE_ASSERT ::
  "('s \<Rightarrow> 's result) \<Rightarrow> string \<Rightarrow> i32 \<Rightarrow> string \<Rightarrow> 's expression \<Rightarrow> 's \<Rightarrow> (bool \<times> 's) result" where
  "winkernel_CXPLAT_FRE_ASSERT Raise File Line src exp = winkernel_CXPLAT_ASSERT_CRASH Raise File Line src exp src"

definition winkernel_CXPLAT_FRE_ASSERTMSG ::
  "('s \<Rightarrow> 's result) \<Rightarrow> string \<Rightarrow> i32 \<Rightarrow> string \<Rightarrow> 's expression \<Rightarrow> string \<Rightarrow> 's \<Rightarrow> (bool \<times> 's) result" where
  "winkernel_CXPLAT_FRE_ASSERTMSG Raise File Line src exp msg = winkernel_CXPLAT_ASSERT_CRASH Raise File Line src exp msg"

definition winkernel_CXPLAT_DBG_ASSERT ::
  "bool \<Rightarrow> ('s \<Rightarrow> 's result) \<Rightarrow> string \<Rightarrow> i32 \<Rightarrow> string \<Rightarrow> 's expression \<Rightarrow> 's \<Rightarrow> (bool \<times> 's) result" where
  "winkernel_CXPLAT_DBG_ASSERT dbg Raise File Line src exp =
     (if dbg then winkernel_CXPLAT_ASSERT_CRASH Raise File Line src exp src else winkernel_CXPLAT_ASSERT_NOOP exp src)"

definition winkernel_CXPLAT_DBG_ASSERTMSG ::
  "bool \<Rightarrow> ('s \<Rightarrow> 's result) \<Rightarrow> string \<Rightarrow> i32 \<Rightarrow> string \<Rightarrow> 's expression \<Rightarrow> string \<Rightarrow> 's \<Rightarrow> (bool \<times> 's) result" where
  "winkernel_CXPLAT_DBG_ASSERTMSG dbg Raise File Line src exp msg =
     (if dbg then winkernel_CXPLAT_ASSERT_CRASH Raise File Line src exp msg else winkernel_CXPLAT_ASSERT_NOOP exp msg)"

named_theorems assert_defs \<open>the assertion macros\<close>

lemmas assert_macros [assert_defs] = CxPlatTraceEvent_def posix_CxPlatLogAssert_def cxplat_bugcheck_def posix_CXPLAT_FRE_ASSERT_def
  posix_CXPLAT_FRE_ASSERTMSG_def posix_CXPLAT_DBG_ASSERT_def posix_CXPLAT_DBG_ASSERTMSG_def
  winuser_CxPlatLogAssert_def winuser_CXPLAT_ANALYSIS_ASSUME_def winuser_CXPLAT_ASSERT_NOOP_def winuser_CXPLAT_ASSERT_CRASH_def
  winuser_CXPLAT_FRE_ASSERT_def winuser_CXPLAT_FRE_ASSERTMSG_def winuser_CXPLAT_DBG_ASSERT_def winuser_CXPLAT_DBG_ASSERTMSG_def
  winkernel_CxPlatLogAssert_def winkernel_CXPLAT_ANALYSIS_ASSUME_def winkernel_CXPLAT_ASSERT_NOOP_def winkernel_CXPLAT_ASSERT_CRASH_def
  winkernel_CXPLAT_FRE_ASSERT_def winkernel_CXPLAT_FRE_ASSERTMSG_def winkernel_CXPLAT_DBG_ASSERT_def winkernel_CXPLAT_DBG_ASSERTMSG_def

text \<open>
  What the code relies on: an assertion that is compiled in evaluates its expression once, goes on in the state after it when it holds and ends
  the run when it does not; one that is compiled out does not evaluate its expression.
\<close>

locale assertions =
  fixes FRE :: "'s expression \<Rightarrow> 's \<Rightarrow> 's result" and DBG :: "bool \<Rightarrow> 's expression \<Rightarrow> 's \<Rightarrow> 's result"
  assumes fre: "FRE exp s = (if fst (exp s) then Inr (snd (exp s)) else Inl AssertFailed)"
    and dbg_on: "DBG True exp s = FRE exp s"
    and dbg_off: "DBG False exp s = Inr s"
begin

text \<open>An assertion of a condition on the state, followed by the rest of the code, is a guard.\<close>

lemma fre_is_guard: "bindR (FRE (\<lambda>s. (P s, s)) s) k = guardR (P s) AssertFailed (k s)"
  by (simp add: fre guardR_def)

lemma dbg_is_guard: "bindR (DBG dbg (\<lambda>s. (P s, s)) s) k = guardR (dbg \<longrightarrow> P s) AssertFailed (k s)"
  by (cases dbg) (simp_all add: dbg_on dbg_off fre_is_guard)

end

definition state_of :: "(bool \<times> 's) result \<Rightarrow> 's result" where
  "state_of r = bindR r (\<lambda>(v, s). Inr s)"

interpretation posix_assert: assertions "posix_CXPLAT_FRE_ASSERT File Line src"
    "\<lambda>dbg. posix_CXPLAT_DBG_ASSERT dbg File Line src" for File Line src
  by unfold_locales (auto simp: assert_defs split: prod.splits)

interpretation winuser_assert: assertions "\<lambda>exp s. state_of (winuser_CXPLAT_FRE_ASSERT (\<lambda>_. Inl AssertFailed) File Line src exp s)"
    "\<lambda>dbg exp s. state_of (winuser_CXPLAT_DBG_ASSERT dbg (\<lambda>_. Inl AssertFailed) File Line src exp s)" for File Line src
  by unfold_locales (auto simp: assert_defs state_of_def split: prod.splits)

interpretation winkernel_assert: assertions "\<lambda>exp s. state_of (winkernel_CXPLAT_FRE_ASSERT (\<lambda>_. Inl AssertFailed) File Line src exp s)"
    "\<lambda>dbg exp s. state_of (winkernel_CXPLAT_DBG_ASSERT dbg (\<lambda>_. Inl AssertFailed) File Line src exp s)" for File Line src
  by unfold_locales (auto simp: assert_defs state_of_def split: prod.splits)


section \<open>What a failed creation of a thread reports\<close>

text \<open>\<open>HRESULT_FROM_WIN32\<close>, as documented: an error code becomes a failure of the facility for Windows errors.\<close>

definition documented_hresult :: "(u32 \<Rightarrow> u32) \<Rightarrow> bool" where
  "documented_hresult H \<longleftrightarrow> (\<forall>x. H x = (if sint x \<le> 0 then x else (x AND 0xFFFF) OR 0x80070000))"

lemma negative_status: "sint (x :: u32) < 0 \<longleftrightarrow> bit x 31"
  using bit_last_iff [of x] by simp

lemma hresult_fails:
  assumes "documented_hresult H" and "x \<noteq> 0"
  shows "winuser_CXPLAT_FAILED (H x)"
proof (cases "sint x \<le> 0")
  case True
  moreover have "sint x \<noteq> 0" using assms(2) by (metis sint_0 signed_word_eqI)
  ultimately show ?thesis using assms(1) by (simp add: documented_hresult_def winuser_CXPLAT_FAILED_def)
next
  case False
  then show ?thesis using assms(1) by (simp add: documented_hresult_def winuser_CXPLAT_FAILED_def negative_status bit_or_iff)
qed


definition HRESULT_FROM_WIN32 :: "u32 \<Rightarrow> u32" where
  "HRESULT_FROM_WIN32 x = (if sint x \<le> 0 then x else (x AND 0xFFFF) OR 0x80070000)"

definition demo_refused :: win_thread_os where
  "demo_refused = \<lparr>CreateThread = None, ThreadError = 8, Widen = (\<lambda>_. [])\<rparr>"

definition no_win_threads :: win_threads where
  "no_win_threads = \<lparr>win_handles = Map.empty, win_contexts = Map.empty\<rparr>"


section \<open>Interrupt request level\<close>

definition PASSIVE_LEVEL :: nat where "PASSIVE_LEVEL = 0"

text \<open>The kernel's functions; raising yields the level before.\<close>

record 's irql_api =
  KeGetCurrentIrql :: "'s \<Rightarrow> nat"
  KeRaiseIrql :: "nat \<Rightarrow> 's \<Rightarrow> (nat \<times> 's) result"
  KeLowerIrql :: "nat \<Rightarrow> 's \<Rightarrow> 's result"

definition posix_CXPLAT_IRQL :: nat where "posix_CXPLAT_IRQL = 0"
definition posix_CXPLAT_PASSIVE_CODE :: "'s \<Rightarrow> 's result" where "posix_CXPLAT_PASSIVE_CODE s = Inr s"
definition posix_CXPLAT_AT_DISPATCH :: bool where "posix_CXPLAT_AT_DISPATCH = False"

definition winuser_CXPLAT_IRQL :: nat where "winuser_CXPLAT_IRQL = PASSIVE_LEVEL"
definition winuser_CXPLAT_PASSIVE_CODE :: "bool \<Rightarrow> ('s \<Rightarrow> 's result) \<Rightarrow> string \<Rightarrow> i32 \<Rightarrow> 's \<Rightarrow> (bool \<times> 's) result" where
  "winuser_CXPLAT_PASSIVE_CODE dbg Raise File Line =
     winuser_CXPLAT_DBG_ASSERT dbg Raise File Line ''CXPLAT_IRQL() == PASSIVE_LEVEL'' (\<lambda>s. (winuser_CXPLAT_IRQL = PASSIVE_LEVEL, s))"
definition winuser_CXPLAT_AT_DISPATCH :: bool where "winuser_CXPLAT_AT_DISPATCH = False"

definition winkernel_CXPLAT_IRQL :: "'s irql_api \<Rightarrow> 's \<Rightarrow> nat" where
  "winkernel_CXPLAT_IRQL K s = KeGetCurrentIrql K s"
definition winkernel_CXPLAT_PASSIVE_CODE ::
  "'s irql_api \<Rightarrow> bool \<Rightarrow> ('s \<Rightarrow> 's result) \<Rightarrow> string \<Rightarrow> i32 \<Rightarrow> 's \<Rightarrow> (bool \<times> 's) result" where
  "winkernel_CXPLAT_PASSIVE_CODE K dbg Raise File Line =
     winkernel_CXPLAT_DBG_ASSERT dbg Raise File Line ''CXPLAT_IRQL() == PASSIVE_LEVEL'' (\<lambda>s. (winkernel_CXPLAT_IRQL K s = PASSIVE_LEVEL, s))"
definition winkernel_CXPLAT_AT_DISPATCH :: "'s irql_api \<Rightarrow> 's \<Rightarrow> bool" where
  "winkernel_CXPLAT_AT_DISPATCH K s \<longleftrightarrow> winkernel_CXPLAT_IRQL K s = DISPATCH_LEVEL"

text \<open>\<open>CXPLAT_RAISE_IRQL\<close> declares \<open>OldIrql\<close> and \<open>CXPLAT_LOWER_IRQL\<close> reads it.\<close>

definition winkernel_CXPLAT_RAISE_IRQL :: "'s irql_api \<Rightarrow> 's \<Rightarrow> (nat \<times> 's) result" where
  "winkernel_CXPLAT_RAISE_IRQL K s = KeRaiseIrql K DISPATCH_LEVEL s"
definition winkernel_CXPLAT_LOWER_IRQL :: "'s irql_api \<Rightarrow> nat \<Rightarrow> 's \<Rightarrow> 's result" where
  "winkernel_CXPLAT_LOWER_IRQL K OldIrql s = KeLowerIrql K OldIrql s"

text \<open>
  As documented: a level that is not below the current one can be raised to, one that is not above it can be lowered to, and the
  system stops otherwise.
\<close>

definition documented_irql :: "'s irql_api \<Rightarrow> bool" where
  "documented_irql K \<longleftrightarrow>
     (\<forall>s new. if KeGetCurrentIrql K s \<le> new
        then \<exists>s'. KeRaiseIrql K new s = Inr (KeGetCurrentIrql K s, s') \<and> KeGetCurrentIrql K s' = new
        else KeRaiseIrql K new s = Inl FailFast) \<and>
     (\<forall>s new. if new \<le> KeGetCurrentIrql K s then \<exists>s'. KeLowerIrql K new s = Inr s' \<and> KeGetCurrentIrql K s' = new
        else KeLowerIrql K new s = Inl FailFast)"

lemma RAISE_IRQL:
  assumes "documented_irql K" and "KeGetCurrentIrql K s \<le> DISPATCH_LEVEL"
  obtains s' where "winkernel_CXPLAT_RAISE_IRQL K s = Inr (KeGetCurrentIrql K s, s')" and "KeGetCurrentIrql K s' = DISPATCH_LEVEL"
  using assms(1) [unfolded documented_irql_def, THEN conjunct1, rule_format, of s DISPATCH_LEVEL] assms(2)
  by (auto simp: winkernel_CXPLAT_RAISE_IRQL_def)

lemma LOWER_IRQL:
  assumes "documented_irql K" and "OldIrql \<le> KeGetCurrentIrql K s"
  obtains s' where "winkernel_CXPLAT_LOWER_IRQL K OldIrql s = Inr s'" and "KeGetCurrentIrql K s' = OldIrql"
  using assms(1) [unfolded documented_irql_def, THEN conjunct2, rule_format, of OldIrql s] assms(2)
  by (auto simp: winkernel_CXPLAT_LOWER_IRQL_def)

text \<open>A body between the two macros.\<close>

definition at_dispatch :: "'s irql_api \<Rightarrow> ('s \<Rightarrow> 's result) \<Rightarrow> 's \<Rightarrow> 's result" where
  "at_dispatch K body s = bindR (winkernel_CXPLAT_RAISE_IRQL K s) (\<lambda>(OldIrql, s).
     bindR (body s) (\<lambda>s. winkernel_CXPLAT_LOWER_IRQL K OldIrql s))"

text \<open>
  In the kernel, from a level up to \<open>DISPATCH_LEVEL\<close>: the body between \<open>CXPLAT_RAISE_IRQL\<close> and \<open>CXPLAT_LOWER_IRQL\<close> runs once, at \<open>DISPATCH_LEVEL\<close>, where \<open>CXPLAT_AT_DISPATCH\<close> is true and
  \<open>CXPLAT_PASSIVE_CODE\<close> fails in a debug build. If it keeps the level, the level before the first macro is restored; if it faults, so does the whole.
  From a level above, the system stops. The other platforms are always at passive level.
\<close>

theorem irql_macros_restore_level:
  assumes K: "documented_irql K" and keeps: "\<forall>t t'. body t = Inr t' \<longrightarrow> KeGetCurrentIrql K t' = KeGetCurrentIrql K t"
  shows "(if KeGetCurrentIrql K s \<le> DISPATCH_LEVEL
      then \<exists>t. winkernel_CXPLAT_AT_DISPATCH K t \<and>
        (winkernel_CXPLAT_PASSIVE_CODE K True (\<lambda>_. Inl AssertFailed) File Line t = Inl AssertFailed) \<and>
        (case body t of Inl f \<Rightarrow> at_dispatch K body s = Inl f
         | Inr t' \<Rightarrow> \<exists>s'. at_dispatch K body s = Inr s' \<and> KeGetCurrentIrql K s' = KeGetCurrentIrql K s)
      else at_dispatch K body s = Inl FailFast) \<and>
    \<not> winuser_CXPLAT_AT_DISPATCH \<and> \<not> posix_CXPLAT_AT_DISPATCH \<and> posix_CXPLAT_PASSIVE_CODE s = Inr s \<and>
    state_of (winuser_CXPLAT_PASSIVE_CODE dbg (\<lambda>_. Inl AssertFailed) File Line s) = Inr s"
proof (intro conjI)
  show "if KeGetCurrentIrql K s \<le> DISPATCH_LEVEL
      then \<exists>t. winkernel_CXPLAT_AT_DISPATCH K t \<and>
        (winkernel_CXPLAT_PASSIVE_CODE K True (\<lambda>_. Inl AssertFailed) File Line t = Inl AssertFailed) \<and>
        (case body t of Inl f \<Rightarrow> at_dispatch K body s = Inl f
         | Inr t' \<Rightarrow> \<exists>s'. at_dispatch K body s = Inr s' \<and> KeGetCurrentIrql K s' = KeGetCurrentIrql K s)
      else at_dispatch K body s = Inl FailFast"
  proof (cases "KeGetCurrentIrql K s \<le> DISPATCH_LEVEL")
    case True
    obtain t where t: "winkernel_CXPLAT_RAISE_IRQL K s = Inr (KeGetCurrentIrql K s, t)" "KeGetCurrentIrql K t = DISPATCH_LEVEL"
      using RAISE_IRQL [OF K True] .
    have "case body t of Inl f \<Rightarrow> at_dispatch K body s = Inl f
         | Inr t' \<Rightarrow> \<exists>s'. at_dispatch K body s = Inr s' \<and> KeGetCurrentIrql K s' = KeGetCurrentIrql K s"
    proof (cases "body t")
      case (Inr t')
      then have "KeGetCurrentIrql K s \<le> KeGetCurrentIrql K t'" using keeps t(2) True by simp
      from LOWER_IRQL [OF K this] obtain s' where "winkernel_CXPLAT_LOWER_IRQL K (KeGetCurrentIrql K s) t' = Inr s'"
          "KeGetCurrentIrql K s' = KeGetCurrentIrql K s" .
      then show ?thesis using t(1) Inr by (simp add: at_dispatch_def)
    qed (use t(1) in \<open>simp add: at_dispatch_def\<close>)
    moreover have "winkernel_CXPLAT_AT_DISPATCH K t" using t(2) by (simp add: winkernel_CXPLAT_AT_DISPATCH_def winkernel_CXPLAT_IRQL_def)
    moreover have "winkernel_CXPLAT_PASSIVE_CODE K True (\<lambda>_. Inl AssertFailed) File Line t = Inl AssertFailed"
      using t(2) by (simp add: winkernel_CXPLAT_IRQL_def winkernel_CXPLAT_PASSIVE_CODE_def assert_defs PASSIVE_LEVEL_def DISPATCH_LEVEL_def)
    ultimately show ?thesis unfolding if_P [OF True] by blast
  next
    case False
    then show ?thesis using K [unfolded documented_irql_def, THEN conjunct1, rule_format, of s DISPATCH_LEVEL]
      by (simp add: at_dispatch_def winkernel_CXPLAT_RAISE_IRQL_def)
  qed
qed (auto simp: winuser_CXPLAT_AT_DISPATCH_def posix_CXPLAT_AT_DISPATCH_def posix_CXPLAT_PASSIVE_CODE_def winuser_CXPLAT_PASSIVE_CODE_def
    winuser_CXPLAT_IRQL_def assert_defs state_of_def)

definition irql_of_processor :: "nat irql_api" where
  "irql_of_processor = \<lparr>KeGetCurrentIrql = id, KeRaiseIrql = (\<lambda>new s. if s \<le> new then Inr (s, new) else Inl FailFast),
     KeLowerIrql = (\<lambda>new s. if new \<le> s then Inr new else Inl FailFast)\<rparr>"

theorem irql_macros_restore_level_witness:
  "\<exists>s'. at_dispatch irql_of_processor Inr 1 = Inr s' \<and> KeGetCurrentIrql irql_of_processor s' = 1"
proof -
  have "documented_irql irql_of_processor" by (simp add: documented_irql_def irql_of_processor_def)
  from irql_macros_restore_level [OF this, of Inr 1 "[]" 0 True] show ?thesis
    by (auto simp: irql_of_processor_def DISPATCH_LEVEL_def)
qed

section \<open>Enumerations of flags\<close>

text \<open>
  \<open>DEFINE_ENUM_FLAG_OPERATORS\<close> computes on the unsigned integer of the size of the enumeration, which is the word type here; the enumeration
  \<open>CXPLAT_THREAD_FLAGS\<close> has four bytes. The assigning operators store their result in \<open>a\<close> and return it.
\<close>

definition ENUM_FLAG_INTEGER_FOR_SIZE :: "nat \<Rightarrow> nat option" where
  "ENUM_FLAG_INTEGER_FOR_SIZE S = (if S = 1 then Some 8 else if S = 2 then Some 16 else if S = 4 then Some 32 else if S = 8 then Some 64 else None)"

definition enum_or :: "'a::len word \<Rightarrow> 'a word \<Rightarrow> 'a word" where "enum_or a b = a OR b"
definition enum_or_assign :: "'a::len word \<Rightarrow> 'a word \<Rightarrow> 'a word \<times> 'a word" where "enum_or_assign a b = (let a = a OR b in (a, a))"
definition enum_and :: "'a::len word \<Rightarrow> 'a word \<Rightarrow> 'a word" where "enum_and a b = a AND b"
definition enum_and_assign :: "'a::len word \<Rightarrow> 'a word \<Rightarrow> 'a word \<times> 'a word" where "enum_and_assign a b = (let a = a AND b in (a, a))"
definition enum_not :: "'a::len word \<Rightarrow> 'a word" where "enum_not a = NOT a"
definition enum_xor :: "'a::len word \<Rightarrow> 'a word \<Rightarrow> 'a word" where "enum_xor a b = a XOR b"
definition enum_xor_assign :: "'a::len word \<Rightarrow> 'a word \<Rightarrow> 'a word \<times> 'a word" where "enum_xor_assign a b = (let a = a XOR b in (a, a))"

definition CXPLAT_THREAD_FLAG_NONE :: u32 where "CXPLAT_THREAD_FLAG_NONE = 0"

lemmas enum_defs = enum_or_def enum_or_assign_def enum_and_def enum_and_assign_def enum_not_def enum_xor_def enum_xor_assign_def

text \<open>The flags of a value.\<close>

definition flags_of :: "'a::len word \<Rightarrow> nat set" where
  "flags_of a = {n. bit a n}"

lemma flags_of_operators:
  fixes a b :: "'a::len word"
  shows "flags_of (enum_or a b) = flags_of a \<union> flags_of b" "flags_of (enum_and a b) = flags_of a \<inter> flags_of b"
    "flags_of (enum_not a) = {..<LENGTH('a)} - flags_of a" "flags_of (enum_xor a b) = (flags_of a - flags_of b) \<union> (flags_of b - flags_of a)"
  by (auto simp: flags_of_def enum_defs bit_or_iff bit_and_iff bit_not_iff bit_xor_iff bit_imp_le_length possible_bit_word
      intro: bit_imp_le_length)

text \<open>The thread flag with number \<open>n\<close>, and the flags of a list of numbers, combined with the operator.\<close>

definition thread_flag :: "nat \<Rightarrow> u16" where
  "thread_flag n = [CXPLAT_THREAD_FLAG_SET_IDEAL_PROC, CXPLAT_THREAD_FLAG_SET_AFFINITIZE, CXPLAT_THREAD_FLAG_HIGH_PRIORITY] ! n"

definition combine_flags :: "nat list \<Rightarrow> u32" where
  "combine_flags ns = foldr (\<lambda>n. enum_or (ucast (thread_flag n))) ns CXPLAT_THREAD_FLAG_NONE"

lemma thread_flag_eq: "n < 3 \<Longrightarrow> thread_flag n = 2 ^ n"
  by (auto simp: thread_flag_def CXPLAT_THREAD_FLAG_SET_IDEAL_PROC_def CXPLAT_THREAD_FLAG_SET_AFFINITIZE_def
      CXPLAT_THREAD_FLAG_HIGH_PRIORITY_def numeral_3_eq_3 less_Suc_eq)

lemma flags_of_combine: "\<forall>n \<in> set ns. n < 3 \<Longrightarrow> flags_of (combine_flags ns) = set ns"
proof (induction ns)
  case (Cons n ns)
  have "flags_of (ucast (thread_flag n) :: u32) = {n}"
    using Cons.prems by (auto simp: flags_of_def thread_flag_eq bit_ucast_iff bit_exp_iff possible_bit_word)
  then show ?case using Cons by (simp add: combine_flags_def flags_of_operators)
qed (simp add: combine_flags_def flags_of_def CXPLAT_THREAD_FLAG_NONE_def)

text \<open>
  The flag operators are the operations on sets of flags: union, intersection, complement within the width and symmetric difference, and the assigning
  ones store what they return. A configuration whose sixteen-bit \<open>Flags\<close> were combined from any of the three thread flags
  with \<open>|\<close> is seen by \<open>CxPlatThreadCreate\<close> to have exactly these.
\<close>

theorem thread_flags_roundtrip:
  fixes a b :: "'a::len word"
  assumes "\<forall>n \<in> set ns. n < 3" and "k < 3" and "Flags Config = ucast (combine_flags ns)"
  shows "(flagged Config (thread_flag k) \<longleftrightarrow> k \<in> set ns) \<and>
    flags_of (enum_or a b) = flags_of a \<union> flags_of b \<and> flags_of (enum_and a b) = flags_of a \<inter> flags_of b \<and>
    flags_of (enum_not a) = {..<LENGTH('a)} - flags_of a \<and>
    flags_of (enum_xor a b) = (flags_of a - flags_of b) \<union> (flags_of b - flags_of a) \<and>
    enum_or_assign a b = (enum_or a b, enum_or a b) \<and> enum_and_assign a b = (enum_and a b, enum_and a b) \<and>
    enum_xor_assign a b = (enum_xor a b, enum_xor a b)"
proof -
  have "flagged Config (thread_flag k) \<longleftrightarrow> bit (Flags Config) k"
    using assms(2) by (simp add: flagged_def thread_flag_eq and_exp_eq_0_iff_not_bit)
  also have "\<dots> \<longleftrightarrow> k \<in> set ns"
    using assms(2,3) flags_of_combine [OF assms(1)] by (auto simp: flags_of_def bit_ucast_iff)
  finally have "flagged Config (thread_flag k) \<longleftrightarrow> k \<in> set ns" .
  moreover have "enum_or_assign a b = (enum_or a b, enum_or a b)" "enum_and_assign a b = (enum_and a b, enum_and a b)"
    "enum_xor_assign a b = (enum_xor a b, enum_xor a b)" by (simp_all add: enum_defs Let_def)
  ultimately show ?thesis by (simp add: flags_of_operators)
qed

theorem thread_flags_roundtrip_witness:
  "flagged (demo_config (ucast (combine_flags [2, 0])) 3) CXPLAT_THREAD_FLAG_HIGH_PRIORITY \<and>
   \<not> flagged (demo_config (ucast (combine_flags [2, 0])) 3) CXPLAT_THREAD_FLAG_SET_AFFINITIZE"
  using thread_flags_roundtrip [of "[2, 0]" 2 "demo_config (ucast (combine_flags [2, 0])) 3" "0 :: u32" 0]
    thread_flags_roundtrip [of "[2, 0]" 1 "demo_config (ucast (combine_flags [2, 0])) 3" "0 :: u32" 0]
  by (simp add: demo_config_def thread_flag_def)

end
