(* ===== verification/CxLifecycle.thy ===== *)
theory CxLifecycle
  imports CxMacros
begin

text \<open>
  The contract of \<open>CxPlatInitialize\<close> and \<open>CxPlatUninitialize\<close> (\<open>inc/cxplat.h\<close>): calls are serialised, a start that fails leaves the library
  down, and a start that succeeds is undone by the stop. The locale \<open>lifecycle\<close> draws from it that the library can be started and stopped any
  number of times; the three platforms are its instances. What the system answers may differ from one start to the next.
\<close>

section \<open>Starting and stopping again and again\<close>

text \<open>One start for every element of the list, and a stop if it succeeded; the statuses of the starts.\<close>

fun restart :: "('s \<Rightarrow> 'g \<Rightarrow> (u32 \<times> 'g) result) \<Rightarrow> (u32 \<Rightarrow> bool) \<Rightarrow> ('g \<Rightarrow> 'g result) \<Rightarrow> 's list \<Rightarrow> 'g \<Rightarrow> (u32 list \<times> 'g) result" where
  "restart init failed uninit [] g = Inr ([], g)"
| "restart init failed uninit (S # Ss) g =
     bindR (init S g) (\<lambda>(Status, g).
     bindR (if failed Status then Inr g else uninit g) (\<lambda>g.
     bindR (restart init failed uninit Ss g) (\<lambda>(sts, g). Inr (Status # sts, g))))"

locale lifecycle =
  fixes init :: "'s \<Rightarrow> 'g \<Rightarrow> (u32 \<times> 'g) result" and failed :: "u32 \<Rightarrow> bool" and uninit :: "'g \<Rightarrow> 'g result"
    and good :: "'s \<Rightarrow> bool" and down :: "'g \<Rightarrow> bool"
  assumes start: "down g \<Longrightarrow> good S \<Longrightarrow> \<exists>Status g'. init S g = Inr (Status, g') \<and>
    (if failed Status then down g' else \<exists>g''. uninit g' = Inr g'' \<and> down g'')"
begin

lemma restart_down:
  assumes "down g" and "\<forall>S \<in> set Ss. good S"
  shows "\<exists>sts g'. restart init failed uninit Ss g = Inr (sts, g') \<and> length sts = length Ss \<and> down g'"
  using assms
proof (induction Ss arbitrary: g)
  case (Cons S Ss)
  then obtain Status g1 where i: "init S g = Inr (Status, g1)"
      and u: "if failed Status then down g1 else \<exists>g''. uninit g1 = Inr g'' \<and> down g''"
    using start by (metis list.set_intros(1))
  obtain g2 where g2: "(if failed Status then Inr g1 else uninit g1) = Inr g2" "down g2" using u by (cases "failed Status") auto
  with Cons.IH [of g2] Cons.prems(2) i show ?case by auto
qed simp

end

section \<open>The platforms\<close>

subsection \<open>POSIX\<close>

text \<open>
  The library is down when it holds no descriptor and no block beyond those of the process. The stop does not clear \<open>CxPlatNumaNodeMasks\<close>, so a pointer to freed masks may be left
  where the masks are used.
\<close>

definition posix_down :: "bool \<Rightarrow> int set \<Rightarrow> nat set \<Rightarrow> posix_globals \<Rightarrow> bool" where
  "posix_down numa F B g \<longleftrightarrow> open_fds g = F \<and> malloc_blocks g = B \<and> (numa \<or> CxPlatNumaNodeMasks g = None)"

text \<open>
  What the system answers: fresh descriptors and blocks, an error number where the random device cannot be opened. With NUMA awareness, nodes that can be queried, storage for the masks, and a random device.
\<close>

definition posix_good :: "bool \<Rightarrow> int set \<Rightarrow> nat set \<Rightarrow> posix_system \<Rightarrow> bool" where
  "posix_good numa F B S \<longleftrightarrow> urandom S \<notin> F \<and> 0 < sint (open_errno S) \<and> (\<forall>n a. malloc S n = Some a \<longrightarrow> a \<notin> B) \<and>
     (numa \<longrightarrow> numa_available S \<and> configured_nodes S \<noteq> 0 \<and> (\<forall>n. malloc S n \<noteq> None) \<and> (\<forall>n. node_cpus S n \<noteq> None) \<and> urandom S \<noteq> -1)"

lemma fill_node_masks_total: "\<forall>n. q n \<noteq> None \<Longrightarrow> \<exists>ms. fill_node_masks q ns = Inr ms"
proof (induction ns)
  case (Cons n ns)
  moreover obtain cpus where "q n = Some cpus" using Cons.prems by auto
  ultimately show ?case by auto
qed simp

lemma posix_init_numa_good:
  assumes "posix_good True F B S" and "malloc_blocks g = B" and "dbg \<longrightarrow> posix_AllocFailDenominator (px_platform g) = 0"
  shows "\<exists>a g'. posix_init_numa dbg S g = Inr g' \<and> a \<notin> B \<and> CxPlatNumaNodeMasks g' = Some a \<and> malloc_blocks g' = insert a B \<and>
    open_fds g' = open_fds g"
proof -
  let ?n = "unat (ucast (configured_nodes S) :: u32)"
  obtain a where a: "malloc S (128 * ?n) = Some a" using assms(1) unfolding posix_good_def by (metis option.exhaust)
  obtain ms where ms: "fill_node_masks (node_cpus S) [0..<?n] = Inr ms"
    using fill_node_masks_total assms(1) unfolding posix_good_def by metis
  have "configured_nodes S \<noteq> 0" using assms(1) by (simp add: posix_good_def)
  then have "?n \<noteq> 0" by (simp add: unat_eq_0)
  moreover have "a \<notin> B" using assms(1) a by (auto simp: posix_good_def)
  ultimately show ?thesis using assms a ms
    by (auto simp: posix_init_numa_def posix_good_def posix_CxPlatAlloc_def posix_fails_def Let_def split: prod.splits if_splits)
qed

lemma posix_start:
  assumes down: "posix_down numa F B g" and good: "posix_good numa F B S"
  shows "\<exists>Status g'. posix_CxPlatInitialize dbg linux numa S g = Inr (Status, g') \<and>
    (if posix_CXPLAT_FAILED Status then posix_down numa F B g' else \<exists>g''. posix_CxPlatUninitialize numa g' = Inr g'' \<and> posix_down numa F B g'')"
proof -
  let ?g = "(if dbg then g\<lparr>px_platform := posix_CxPlatSetAllocFailDenominator 0 (px_platform g)\<rparr> else g)
    \<lparr>px_ProcessorCount := (if linux then ucast (online_processors S) else 1)\<rparr>"
  have g: "open_fds ?g = F" "malloc_blocks ?g = B" "CxPlatNumaNodeMasks ?g = CxPlatNumaNodeMasks g"
    using down by (auto simp: posix_down_def)
  show ?thesis
  proof (cases numa)
    case True
    have "dbg \<longrightarrow> posix_AllocFailDenominator (px_platform ?g) = 0" by (simp add: posix_CxPlatSetAllocFailDenominator_def)
    moreover have "posix_good True F B S" using good True by simp
    ultimately obtain a g' where
      "posix_init_numa dbg S ?g = Inr g'" "a \<notin> B" "CxPlatNumaNodeMasks g' = Some a" "malloc_blocks g' = insert a B" "open_fds g' = F"
      using posix_init_numa_good [of F B S ?g dbg] g(1,2) by auto
    then show ?thesis using True good
      by (auto simp: posix_CxPlatInitialize_def posix_CxPlatUninitialize_def posix_CxPlatFree_def posix_down_def posix_good_def posix_CXPLAT_FAILED_def Let_def)
  next
    case False
    then show ?thesis using down good
      by (auto simp: posix_CxPlatInitialize_def posix_CxPlatUninitialize_def posix_down_def posix_good_def posix_CXPLAT_FAILED_def Let_def)
  qed
qed

interpretation posix_library: lifecycle "posix_CxPlatInitialize dbg linux numa" posix_CXPLAT_FAILED "posix_CxPlatUninitialize numa"
    "posix_good numa F B" "posix_down numa F B" for dbg linux numa F B
  by unfold_locales (rule posix_start)

subsection \<open>User mode Windows\<close>

definition winuser_good :: "win_system \<Rightarrow> bool" where
  "winuser_good S \<longleftrightarrow> good_system S \<and> Failed S = winuser_CXPLAT_FAILED \<and> QueryLength S \<noteq> 0 \<and> QueryLength S + AllocOffset < 2 ^ 64 \<and>
     (\<exists>R. QueryResult S = Some R \<and> good_groups R)"

lemma winuser_good_codes: "winuser_good S \<Longrightarrow> good_codes S"
  using winuser_status.success winuser_status.out_of_memory winuser_status.not_supported
  by (simp add: winuser_good_def good_codes_def winuser_status.failed_iff)

lemma winuser_start:
  assumes "stopped g" and good: "winuser_good S"
  shows "\<exists>Status g'. winuser_CxPlatInitialize dbg S g = Inr (Status, g') \<and>
    (if winuser_CXPLAT_FAILED Status then stopped g' else \<exists>g''. winuser_CxPlatUninitialize dbg g' = Inr g'' \<and> stopped g'')"
proof -
  have codes: "good_codes S" by (rule winuser_good_codes [OF good])
  obtain R where R: "QueryResult S = Some R" "good_groups R" using good by (auto simp: winuser_good_def)
  have S: "good_system S" "QueryLength S \<noteq> 0" "QueryLength S + AllocOffset < 2 ^ 64" and F: "Failed S = winuser_CXPLAT_FAILED"
    using good by (simp_all add: winuser_good_def)
  have g: "live (the_heap g) = Map.empty" "CxPlatProcessorInfo g = None" "CxPlatProcessorGroupInfo g = None"
    using assms(1) by (simp_all add: stopped_def)
  show ?thesis using initialize_then_uninitialize [OF S(1) codes S(2,3) R g, of dbg] unfolding F by (auto split: if_splits)
qed

interpretation winuser_library: lifecycle "winuser_CxPlatInitialize dbg" winuser_CXPLAT_FAILED "winuser_CxPlatUninitialize dbg" winuser_good stopped for dbg
  by unfold_locales (rule winuser_start)

subsection \<open>Windows kernel\<close>

definition winkernel_down :: "nat set \<Rightarrow> winkernel_globals \<Rightarrow> bool" where
  "winkernel_down P g \<longleftrightarrow> providers g = P \<and> RngAlgorithm (wk_platform g) = None"

definition winkernel_good :: "nat set \<Rightarrow> kernel_system \<Rightarrow> bool" where
  "winkernel_good P S \<longleftrightarrow> (\<forall>h. snd (open_provider S) = Some h \<longrightarrow> h \<notin> P) \<and>
     (NT_SUCCESS (fst (open_provider S)) \<longrightarrow> snd (open_provider S) \<noteq> None)"

lemma winkernel_start:
  assumes "winkernel_down P g" and "winkernel_good P S"
  shows "\<exists>Status g'. winkernel_CxPlatInitialize dbg S g = Inr (Status, g') \<and>
    (if winkernel_CXPLAT_FAILED Status then winkernel_down P g' else \<exists>g''. Inr (winkernel_CxPlatUninitialize g') = (Inr g'' :: winkernel_globals result) \<and> winkernel_down P g'')"
proof -
  obtain Status h where o: "open_provider S = (Status, h)" by (cases "open_provider S")
  show ?thesis
  proof (cases "NT_SUCCESS Status")
    case True
    then obtain a where a: "h = Some a" "a \<notin> P" using assms(2) o by (auto simp: winkernel_good_def)
    then show ?thesis using True assms(1) o
      by (simp add: winkernel_CxPlatInitialize_def winkernel_CxPlatUninitialize_def close_provider_def winkernel_down_def winkernel_CXPLAT_FAILED_def
          NT_SUCCESS_def status_ok_def Let_def)
  next
    case False
    then show ?thesis using assms o
      by (auto simp: winkernel_CxPlatInitialize_def close_provider_def winkernel_down_def winkernel_good_def winkernel_CXPLAT_FAILED_def
          NT_SUCCESS_def status_ok_def Let_def)
  qed
qed

interpretation winkernel_library: lifecycle "winkernel_CxPlatInitialize dbg" winkernel_CXPLAT_FAILED "\<lambda>g. Inr (winkernel_CxPlatUninitialize g)"
    "winkernel_good P" "winkernel_down P" for dbg P
  by unfold_locales (rule winkernel_start)

section \<open>Restarting\<close>


definition demo_kernel_system :: "u32 \<Rightarrow> kernel_system" where
  "demo_kernel_system s = \<lparr>active_processors = 4, kernel_frequency = 10000000, open_provider = (s, if s = 0 then Some 7 else None)\<rparr>"

definition demo_kernel_globals :: winkernel_globals where
  "demo_kernel_globals = \<lparr>wk_PerfFreq = 0, wk_ProcessorCount = 0,
     wk_platform = \<lparr>RngAlgorithm = None, winkernel_AllocFailDenominator = 0, winkernel_AllocCounter = 0\<rparr>, providers = {}\<rparr>"

definition demo_stopped :: winuser_globals where
  "demo_stopped = demo_globals\<lparr>CxPlatform := (CxPlatform demo_globals)\<lparr>Heap := None\<rparr>\<rparr>"


end
