(* ===== verification/CxAsync.thy ===== *)
theory CxAsync
  imports CxStartup CxThread
begin

text \<open>
  \<open>CxPlatAsyncT\<close> of \<open>inc/cxplat.hpp\<close>: an object that runs a callback on a thread of its own. Its methods are the
  sequences of their statements, run by the owner; the thread's callback runs beside
  them in any order. How one waits for a thread and lets go of it is the platform's: the macros of
  \<open>inc/cxplat_winuser.h\<close> and \<open>inc/cxplat_winkernel.h\<close> and the functions of \<open>src/lib/cxplat_posix.c\<close> are three instances of
  one interface. What the creation of the thread reports, and whether it left a thread, comes from the theory of threads.
\<close>

section \<open>Threads as the waiter sees them\<close>

datatype progress = Started | InCallback | Finished

text \<open>The stages come in this order.\<close>

instantiation progress :: linorder
begin

fun stage :: "progress \<Rightarrow> nat" where
  "stage Started = 0"
| "stage InCallback = 1"
| "stage Finished = 2"

definition less_eq_progress :: "progress \<Rightarrow> progress \<Rightarrow> bool" where
  "p \<le> q \<longleftrightarrow> stage p \<le> stage q"

definition less_progress :: "progress \<Rightarrow> progress \<Rightarrow> bool" where
  "p < q \<longleftrightarrow> stage p < stage q"

instance
proof
  fix p q :: progress
  show "p \<le> q \<Longrightarrow> q \<le> p \<Longrightarrow> p = q" by (cases p; cases q) (simp_all add: less_eq_progress_def)
qed (auto simp: less_eq_progress_def less_progress_def)

end

text \<open>\<open>joined\<close> and \<open>closed\<close> say that the thread was joined, and that its handle was closed.\<close>

record os_thread =
  progress :: progress
  joined :: bool
  closed :: bool

text \<open>
  Waiting yields \<open>None\<close> while the thread runs. POSIX joins: a thread that was joined is gone, and joining it again is undefined. The waiter
  is not the thread itself. Windows waits for the thread object, which stays signalled until its handle is closed.
\<close>

definition posix_CxPlatThreadWaitForever :: "os_thread \<Rightarrow> os_thread result option" where
  "posix_CxPlatThreadWaitForever th =
     (if joined th then Some (Inl Undefined)
      else if progress th \<noteq> Finished then None
      else Some (Inr (th\<lparr>joined := True\<rparr>)))"

definition posix_CxPlatThreadDelete :: "os_thread \<Rightarrow> os_thread result" where
  "posix_CxPlatThreadDelete th = Inr th"

definition winuser_CxPlatThreadWaitForever :: "os_thread \<Rightarrow> os_thread result option" where
  "winuser_CxPlatThreadWaitForever th =
     (if closed th then Some (Inl UseAfterFree) else if progress th \<noteq> Finished then None else Some (Inr th))"

definition winuser_CxPlatThreadWaitWithTimeout :: "bool \<Rightarrow> u32 \<Rightarrow> os_thread \<Rightarrow> bool result" where
  "winuser_CxPlatThreadWaitWithTimeout dbg TimeoutMs th =
     guardR (dbg \<longrightarrow> TimeoutMs \<noteq> 0xFFFFFFFF) AssertFailed
       (guardR (\<not> closed th) UseAfterFree (Inr (progress th = Finished)))"

definition winuser_CxPlatThreadDelete :: "os_thread \<Rightarrow> os_thread result" where
  "winuser_CxPlatThreadDelete th = guardR (\<not> closed th) DoubleFree (Inr (th\<lparr>closed := True\<rparr>))"

text \<open>
  The kernel waits for the thread object through the reference that the creation took; \<open>closed\<close> says that it was given back. A timed wait
  ends with \<open>STATUS_SUCCESS\<close> when the thread has finished and with \<open>STATUS_TIMEOUT\<close> otherwise.
\<close>

definition KeWaitForThread :: "os_thread \<Rightarrow> i64 \<Rightarrow> os_thread wait" where
  "KeWaitForThread th due = Some (if progress th = Finished then 0 else 0x102, th)"

definition winkernel_CxPlatThreadWaitForever :: "os_thread \<Rightarrow> os_thread result option" where
  "winkernel_CxPlatThreadWaitForever th =
     (if closed th then Some (Inl UseAfterFree) else if progress th \<noteq> Finished then None else Some (Inr th))"

definition winkernel_thread_timed :: "bool \<Rightarrow> (u32 \<Rightarrow> u32 \<Rightarrow> u64) \<Rightarrow> u32 \<Rightarrow> os_thread \<Rightarrow> bool result" where
  "winkernel_thread_timed dbg UMul TimeoutMs th =
     bindR (winkernel_CxPlatThreadWaitWithTimeout dbg UMul (KeWaitForThread th) TimeoutMs) (\<lambda>r. case r of
        None \<Rightarrow> Inl Undefined
      | Some (b, _) \<Rightarrow> guardR (\<not> closed th) UseAfterFree (Inr b))"

definition winkernel_CxPlatThreadDelete :: "os_thread \<Rightarrow> os_thread result" where
  "winkernel_CxPlatThreadDelete th = guardR (\<not> closed th) DoubleFree (Inr (th\<lparr>closed := True\<rparr>))"

section \<open>The class\<close>

datatype astatement =
    store_AsyncContext
  | store_ThreadCompleted bool
  | create_thread
  | unless_Initialized_goto nat
  | if_ThreadCompleted_goto nat
  | thread_wait
  | thread_wait_timeout
  | thread_delete

text \<open>Members are initialised in the order of their declaration, the thread is created last.\<close>

definition CxPlatAsyncT_constructor :: "astatement list" where
  "CxPlatAsyncT_constructor = [
     store_AsyncContext,
     store_ThreadCompleted False,
     create_thread]"

definition CxPlatAsyncT_destructor :: "astatement list" where
  "CxPlatAsyncT_destructor = [
     unless_Initialized_goto 4,
       if_ThreadCompleted_goto 3,
         thread_wait,
       thread_delete]"

definition CxPlatAsyncT_Wait :: "astatement list" where
  "CxPlatAsyncT_Wait = [
     unless_Initialized_goto 3,
       thread_wait,
       store_ThreadCompleted True]"

definition CxPlatAsyncT_WaitFor :: "astatement list" where
  "CxPlatAsyncT_WaitFor = [
     unless_Initialized_goto 2,
       thread_wait_timeout]"

datatype amethod = Constructor | Wait | WaitFor | Destructor

fun amethod_body :: "amethod \<Rightarrow> astatement list" where
  "amethod_body Constructor = CxPlatAsyncT_constructor"
| "amethod_body Wait = CxPlatAsyncT_Wait"
| "amethod_body WaitFor = CxPlatAsyncT_WaitFor"
| "amethod_body Destructor = CxPlatAsyncT_destructor"

section \<open>The machine\<close>

text \<open>Before construction, inside a method at a position, between methods, and destroyed.\<close>

datatype owner = Unborn | In amethod nat | Between | Dead | Crashed fault

record async =
  UserContext :: nat
  UserCallback :: nat
  ThreadCompleted :: bool
  Initialized :: bool

record amachine =
  owner :: owner
  object :: async
  thread :: "os_thread option"
  calls :: "(nat \<times> nat) list"
  thread_fault :: "fault option"

text \<open>
  The platform: what the creation may come to, which is whether its status is zero and whether there is a thread, how to wait, how to let go, and the timed wait
  where there is one.
\<close>

record thread_platform =
  api_create :: "(bool \<times> bool) set"
  api_wait :: "os_thread \<Rightarrow> os_thread result option"
  api_delete :: "os_thread \<Rightarrow> os_thread result"
  api_timed :: "(os_thread \<Rightarrow> bool result) option"

definition posix_platform :: "(bool \<times> bool) set \<Rightarrow> thread_platform" where
  "posix_platform C = \<lparr>api_create = C, api_wait = posix_CxPlatThreadWaitForever, api_delete = posix_CxPlatThreadDelete, api_timed = None\<rparr>"

definition winuser_platform :: "(bool \<times> bool) set \<Rightarrow> bool \<Rightarrow> u32 \<Rightarrow> thread_platform" where
  "winuser_platform C dbg TimeoutMs = \<lparr>api_create = C, api_wait = winuser_CxPlatThreadWaitForever, api_delete = winuser_CxPlatThreadDelete,
     api_timed = Some (winuser_CxPlatThreadWaitWithTimeout dbg TimeoutMs)\<rparr>"

definition winkernel_platform :: "(bool \<times> bool) set \<Rightarrow> bool \<Rightarrow> (u32 \<Rightarrow> u32 \<Rightarrow> u64) \<Rightarrow> u32 \<Rightarrow> thread_platform" where
  "winkernel_platform C dbg UMul TimeoutMs = \<lparr>api_create = C, api_wait = winkernel_CxPlatThreadWaitForever,
     api_delete = winkernel_CxPlatThreadDelete, api_timed = Some (winkernel_thread_timed dbg UMul TimeoutMs)\<rparr>"

lemmas platform_defs = posix_platform_def winuser_platform_def winkernel_platform_def posix_CxPlatThreadWaitForever_def
  posix_CxPlatThreadDelete_def winuser_CxPlatThreadWaitForever_def winuser_CxPlatThreadDelete_def winuser_CxPlatThreadWaitWithTimeout_def
  winkernel_CxPlatThreadWaitForever_def winkernel_CxPlatThreadDelete_def

definition goes :: "amethod \<Rightarrow> nat \<Rightarrow> amachine \<Rightarrow> amachine" where
  "goes m pc M = M\<lparr>owner := (if pc < length (amethod_body m) then In m pc
      else if m = Destructor then Dead else Between)\<rparr>"

definition with_thread :: "amachine \<Rightarrow> (os_thread \<Rightarrow> amachine option) \<Rightarrow> amachine option" where
  "with_thread M f = (case thread M of None \<Rightarrow> Some (M\<lparr>owner := Crashed Undefined\<rparr>) | Some th \<Rightarrow> f th)"

text \<open>One statement of the owner; \<open>ok\<close> is the outcome of the creation, \<open>cb\<close> and \<open>cx\<close> the arguments of the constructor.\<close>

fun arun :: "thread_platform \<Rightarrow> bool \<times> bool \<Rightarrow> nat \<Rightarrow> nat \<Rightarrow> astatement \<Rightarrow> amethod \<Rightarrow> nat \<Rightarrow> amachine \<Rightarrow> amachine option" where
  "arun A ok cb cx store_AsyncContext m pc M =
     Some (goes m (Suc pc) (M\<lparr>object := (object M)\<lparr>UserContext := cx, UserCallback := cb\<rparr>\<rparr>))"
| "arun A ok cb cx (store_ThreadCompleted b) m pc M =
     Some (goes m (Suc pc) (M\<lparr>object := (object M)\<lparr>ThreadCompleted := b\<rparr>\<rparr>))"
| "arun A ok cb cx create_thread m pc M =
     Some (goes m (Suc pc) (M\<lparr>object := (object M)\<lparr>Initialized := fst ok\<rparr>,
        thread := (if snd ok then Some \<lparr>progress = Started, joined = False, closed = False\<rparr> else None)\<rparr>))"
| "arun A ok cb cx (unless_Initialized_goto k) m pc M =
     Some (goes m (if Initialized (object M) then Suc pc else k) M)"
| "arun A ok cb cx (if_ThreadCompleted_goto k) m pc M =
     Some (goes m (if ThreadCompleted (object M) then k else Suc pc) M)"
| "arun A ok cb cx thread_wait m pc M = with_thread M (\<lambda>th. case api_wait A th of
      None \<Rightarrow> None
    | Some (Inl f) \<Rightarrow> Some (M\<lparr>owner := Crashed f\<rparr>)
    | Some (Inr th) \<Rightarrow> Some (goes m (Suc pc) (M\<lparr>thread := Some th\<rparr>)))"
| "arun A ok cb cx thread_wait_timeout m pc M = with_thread M (\<lambda>th. case api_timed A of
      None \<Rightarrow> None
    | Some timed \<Rightarrow> (case timed th of
          Inl f \<Rightarrow> Some (M\<lparr>owner := Crashed f\<rparr>)
        | Inr b \<Rightarrow> Some (goes m (Suc pc) (M\<lparr>object := (object M)\<lparr>ThreadCompleted := b\<rparr>\<rparr>))))"
| "arun A ok cb cx thread_delete m pc M = with_thread M (\<lambda>th. case api_delete A th of
      Inl f \<Rightarrow> Some (M\<lparr>owner := Crashed f\<rparr>)
    | Inr th \<Rightarrow> Some (goes m (Suc pc) (M\<lparr>thread := Some th\<rparr>)))"

text \<open>\<open>ThreadCallback\<close>: it reads the object for the callback and its argument, calls, and returns.\<close>

definition ThreadCallback_call :: "amachine \<Rightarrow> os_thread \<Rightarrow> amachine" where
  "ThreadCallback_call M th =
     (if owner M = Dead then M\<lparr>thread_fault := Some UseAfterFree\<rparr>
      else M\<lparr>thread := Some (th\<lparr>progress := InCallback\<rparr>),
        calls := calls M @ [(UserCallback (object M), UserContext (object M))]\<rparr>)"

text \<open>
  The owner constructs the object, calls its methods one after the other and destroys it; \<open>rewait\<close> says whether
  it also waits after a wait has completed.
\<close>

inductive astep :: "thread_platform \<Rightarrow> bool \<Rightarrow> nat \<Rightarrow> nat \<Rightarrow> amachine \<Rightarrow> amachine \<Rightarrow> bool" for A rewait cb cx where
  construct: "owner M = Unborn \<Longrightarrow> astep A rewait cb cx M (M\<lparr>owner := In Constructor 0\<rparr>)"
| call_method: "owner M = Between \<Longrightarrow> m \<noteq> Constructor \<Longrightarrow> (m = WaitFor \<longrightarrow> api_timed A \<noteq> None) \<Longrightarrow>
    (m = Wait \<longrightarrow> rewait \<or> \<not> ThreadCompleted (object M)) \<Longrightarrow> astep A rewait cb cx M (M\<lparr>owner := In m 0\<rparr>)"
| statement: "owner M = In m pc \<Longrightarrow> pc < length (amethod_body m) \<Longrightarrow>
    ok \<in> api_create A \<Longrightarrow> arun A ok cb cx (amethod_body m ! pc) m pc M = Some M' \<Longrightarrow> astep A rewait cb cx M M'"
| thread_calls: "thread M = Some th \<Longrightarrow> progress th = Started \<Longrightarrow> astep A rewait cb cx M (ThreadCallback_call M th)"
| thread_returns: "thread M = Some th \<Longrightarrow> progress th = InCallback \<Longrightarrow>
    astep A rewait cb cx M (M\<lparr>thread := Some (th\<lparr>progress := Finished\<rparr>)\<rparr>)"

definition astart :: "amachine \<Rightarrow> bool" where
  "astart M \<longleftrightarrow> owner M = Unborn \<and> thread M = None \<and> calls M = [] \<and> thread_fault M = None"

text \<open>
  The thread only ever advances: no statement of the owner sets it back, on no platform. A statement list that created the thread twice would.
\<close>

lemma platform_keeps_progress:
  assumes "A \<in> {posix_platform C, winuser_platform C dbg ms, winkernel_platform C dbg UMul ms}"
  shows "api_wait A th = Some (Inr th') \<Longrightarrow> progress th' = progress th" and "api_delete A th = Inr th' \<Longrightarrow> progress th' = progress th"
  using assms by (auto simp: platform_defs guardR_def split: if_splits)

lemma statement_keeps_progress:
  assumes A: "A \<in> {posix_platform C, winuser_platform C dbg ms, winkernel_platform C dbg UMul ms}"
    and "arun A ok cb cx c m pc M = Some M'" and "c \<noteq> create_thread" and "thread M = Some th"
  shows "\<exists>th'. thread M' = Some th' \<and> progress th' = progress th"
  using assms(2-4) platform_keeps_progress [OF A]
  by (cases c) (auto simp: goes_def with_thread_def split: option.splits sum.splits if_splits)

lemma create_thread_only_in_constructor:
  "pc < length (amethod_body m) \<Longrightarrow> m \<noteq> Constructor \<Longrightarrow> amethod_body m ! pc \<noteq> create_thread"
  by (cases m) (auto simp: CxPlatAsyncT_Wait_def CxPlatAsyncT_WaitFor_def CxPlatAsyncT_destructor_def less_Suc_eq nth_Cons')

lemma thread_advances:
  assumes A: "A \<in> {posix_platform C, winuser_platform C dbg ms, winkernel_platform C dbg UMul ms}"
    and "astep A rewait cb cx M M'" and "\<forall>pc. owner M \<noteq> In Constructor pc" and "thread M = Some th"
  shows "\<exists>th'. thread M' = Some th' \<and> progress th \<le> progress th'"
  using assms(2)
proof cases
  case (statement m pc ok)
  then have "m \<noteq> Constructor" using assms(3) by auto
  then show ?thesis
    using statement_keeps_progress [OF A statement(4) create_thread_only_in_constructor [OF statement(2)] assms(4)] by auto
qed (use assms(4) in \<open>auto simp: ThreadCallback_call_def less_eq_progress_def\<close>)

section \<open>The interface to threads\<close>

text \<open>
  What the class relies on: the creation reports zero exactly when there is a thread, waiting returns exactly when the thread has finished, waiting again is allowed where \<open>rewait\<close> says so, and letting
  go of a thread that was waited for gives back what it held.
\<close>

locale thread_interface =
  fixes A :: thread_platform and rewait :: bool and waited :: "os_thread \<Rightarrow> bool" and released :: "os_thread \<Rightarrow> bool"
  assumes create_truthful: "(ok, born) \<in> api_create A \<Longrightarrow> ok = born"
    and wait_blocks: "\<not> closed th \<Longrightarrow> rewait \<or> \<not> joined th \<Longrightarrow> progress th \<noteq> Finished \<Longrightarrow> api_wait A th = None"
    and wait_returns: "\<not> closed th \<Longrightarrow> rewait \<or> \<not> joined th \<Longrightarrow> progress th = Finished \<Longrightarrow>
      \<exists>th'. api_wait A th = Some (Inr th') \<and> progress th' = Finished \<and> \<not> closed th' \<and> waited th'"
    and timed_returns: "\<not> closed th \<Longrightarrow> api_timed A = Some timed \<Longrightarrow>
      timed th = Inr (progress th = Finished) \<and> (progress th = Finished \<longrightarrow> waited th)"
    and delete_returns: "\<not> closed th \<Longrightarrow> \<exists>th'. api_delete A th = Inr th' \<and> progress th' = progress th \<and>
      joined th' = joined th \<and> (waited th \<longrightarrow> released th')"
begin

text \<open>Facts about the thread of the object, by where the owner is.\<close>

definition thread_ok :: "owner \<Rightarrow> async \<Rightarrow> os_thread \<Rightarrow> bool" where
  "thread_ok ow ob th \<longleftrightarrow> (closed th \<longrightarrow> ow = Dead) \<and>
     (ThreadCompleted ob \<longrightarrow> progress th = Finished \<and> (ow \<noteq> Dead \<longrightarrow> waited th)) \<and>
     (joined th \<longrightarrow> progress th = Finished \<and> (ThreadCompleted ob \<or> ow = In Wait 2 \<or> ow = In Destructor 3 \<or> ow = Dead)) \<and>
     (ow = In Wait 0 \<or> ow = In Wait 1 \<longrightarrow> rewait \<or> \<not> joined th) \<and>
     (ow = In Wait 2 \<or> ow = In Destructor 3 \<longrightarrow> progress th = Finished \<and> waited th) \<and>
     (ow = In Destructor 2 \<longrightarrow> \<not> ThreadCompleted ob) \<and>
     (ow = Dead \<longrightarrow> progress th = Finished \<and> released th)"

definition owner_ok :: "nat \<Rightarrow> nat \<Rightarrow> owner \<Rightarrow> async \<Rightarrow> os_thread option \<Rightarrow> bool" where
  "owner_ok cb cx ow ob th \<longleftrightarrow>
     (case ow of Crashed f \<Rightarrow> False
      | Unborn \<Rightarrow> th = None
      | In Constructor pc \<Rightarrow> th = None \<and> (pc \<noteq> 0 \<longrightarrow> UserCallback ob = cb \<and> UserContext ob = cx) \<and> (pc = 2 \<longrightarrow> \<not> ThreadCompleted ob)
      | _ \<Rightarrow> UserCallback ob = cb \<and> UserContext ob = cx \<and> (Initialized ob \<longleftrightarrow> th \<noteq> None)) \<and>
     (ow = In Wait 1 \<or> ow = In Wait 2 \<or> ow = In WaitFor 1 \<or> ow = In Destructor 1 \<or> ow = In Destructor 2 \<or> ow = In Destructor 3
        \<longrightarrow> th \<noteq> None)"

definition ainv :: "nat \<Rightarrow> nat \<Rightarrow> amachine \<Rightarrow> bool" where
  "ainv cb cx M \<longleftrightarrow> thread_fault M = None \<and> owner_ok cb cx (owner M) (object M) (thread M) \<and>
     (case thread M of None \<Rightarrow> calls M = []
      | Some th \<Rightarrow> thread_ok (owner M) (object M) th \<and> calls M = (if progress th = Started then [] else [(cb, cx)]))"

lemmas ainv_defs = ainv_def owner_ok_def thread_ok_def

lemma ainv_start: "astart M \<Longrightarrow> ainv cb cx M"
  by (simp add: astart_def ainv_defs)

lemma ainv_method:
  assumes "ainv cb cx M" and "owner M = Between" and "m \<noteq> Constructor" and "m = Wait \<longrightarrow> rewait \<or> \<not> ThreadCompleted (object M)"
  shows "ainv cb cx (M\<lparr>owner := In m 0\<rparr>)"
  using assms by (cases m) (auto simp: ainv_defs split: option.splits)

lemma ainv_constructor:
  assumes "ainv cb cx M" and "owner M = In Constructor pc" and "pc < 3"
    and "ok \<in> api_create A" and "arun A ok cb cx (CxPlatAsyncT_constructor ! pc) Constructor pc M = Some M'"
  shows "ainv cb cx M'"
proof -
  have "fst ok = snd ok" using create_truthful [of "fst ok" "snd ok"] assms(4) by simp
  moreover
  have "pc = 0 \<or> pc = 1 \<or> pc = 2" using assms(3) by auto
  ultimately show ?thesis using assms
    by (elim disjE) (auto simp: ainv_defs CxPlatAsyncT_constructor_def goes_def split: option.splits if_splits)
qed

lemma ainv_wait:
  assumes inv: "ainv cb cx M" and ow: "owner M = In m pc" and at: "(m = Wait \<and> pc = 1) \<or> (m = Destructor \<and> pc = 2)"
    and run: "arun A ok cb cx thread_wait m pc M = Some M'"
  shows "ainv cb cx M'"
proof -
  obtain th where th: "thread M = Some th" using inv ow at by (auto simp: ainv_defs)
  have ok: "\<not> closed th" "rewait \<or> \<not> joined th" using inv ow at th by (auto simp: ainv_defs)
  have fin: "progress th = Finished" using run th wait_blocks [OF ok] by (cases "progress th = Finished") (simp_all add: with_thread_def)
  obtain th' where th': "api_wait A th = Some (Inr th')" "progress th' = Finished" "\<not> closed th'" "waited th'"
    using wait_returns [OF ok fin] by blast
  then have M': "M' = goes m (Suc pc) (M\<lparr>thread := Some th'\<rparr>)" using run th by (simp add: with_thread_def)
  show ?thesis using at inv ow th th' fin unfolding M'
    by (elim disjE) (auto simp: ainv_defs goes_def CxPlatAsyncT_Wait_def CxPlatAsyncT_destructor_def)
qed

lemma ainv_branch:
  assumes inv: "ainv cb cx M"
  shows "owner M = In Wait 0 \<Longrightarrow> ainv cb cx (goes Wait (if Initialized (object M) then 1 else 3) M)"
    and "owner M = In Wait 2 \<Longrightarrow> ainv cb cx (goes Wait 3 (M\<lparr>object := (object M)\<lparr>ThreadCompleted := True\<rparr>\<rparr>))"
    and "owner M = In WaitFor 0 \<Longrightarrow> ainv cb cx (goes WaitFor (if Initialized (object M) then 1 else 2) M)"
    and "owner M = In Destructor 0 \<Longrightarrow> ainv cb cx (goes Destructor (if Initialized (object M) then 1 else 4) M)"
    and "owner M = In Destructor 1 \<Longrightarrow> ainv cb cx (goes Destructor (if ThreadCompleted (object M) then 3 else 2) M)"
  using inv by (auto simp: ainv_defs goes_def CxPlatAsyncT_Wait_def CxPlatAsyncT_WaitFor_def CxPlatAsyncT_destructor_def
      split: option.splits)

lemma ainv_timed:
  assumes inv: "ainv cb cx M" and ow: "owner M = In WaitFor 1" and run: "arun A ok cb cx thread_wait_timeout WaitFor 1 M = Some M'"
  shows "ainv cb cx M'"
proof -
  obtain th where th: "thread M = Some th" "\<not> closed th" using inv ow by (auto simp: ainv_defs)
  obtain timed where timed: "api_timed A = Some timed" using run th by (auto simp: with_thread_def split: option.splits)
  note r = timed_returns [OF th(2) timed]
  then have "M' = goes WaitFor 2 (M\<lparr>object := (object M)\<lparr>ThreadCompleted := (progress th = Finished)\<rparr>\<rparr>)"
    using run th timed by (simp add: with_thread_def numeral_2_eq_2)
  then show ?thesis using inv ow th r by (auto simp: ainv_defs goes_def CxPlatAsyncT_WaitFor_def)
qed

lemma ainv_delete:
  assumes inv: "ainv cb cx M" and ow: "owner M = In Destructor 3" and run: "arun A ok cb cx thread_delete Destructor 3 M = Some M'"
  shows "ainv cb cx M'"
proof -
  obtain th where th: "thread M = Some th" "\<not> closed th" using inv ow by (auto simp: ainv_defs)
  obtain th' where th': "api_delete A th = Inr th'" "progress th' = progress th" "joined th' = joined th" "waited th \<longrightarrow> released th'"
    using delete_returns [OF th(2)] by blast
  then have "M' = M\<lparr>thread := Some th', owner := Dead\<rparr>"
    using run th by (simp add: with_thread_def goes_def CxPlatAsyncT_destructor_def)
  then show ?thesis using inv ow th th' by (auto simp: ainv_defs)
qed

text \<open>Where the owner can be, and the statement there.\<close>

lemma statement_at:
  assumes "pc < length (amethod_body m)"
  shows "(m = Constructor \<and> pc < 3) \<or> (m = Wait \<and> pc = 0 \<and> amethod_body m ! pc = unless_Initialized_goto 3) \<or>
    (m = Wait \<and> pc = 1 \<and> amethod_body m ! pc = thread_wait) \<or> (m = Wait \<and> pc = 2 \<and> amethod_body m ! pc = store_ThreadCompleted True) \<or>
    (m = WaitFor \<and> pc = 0 \<and> amethod_body m ! pc = unless_Initialized_goto 2) \<or> (m = WaitFor \<and> pc = 1 \<and> amethod_body m ! pc = thread_wait_timeout) \<or>
    (m = Destructor \<and> pc = 0 \<and> amethod_body m ! pc = unless_Initialized_goto 4) \<or>
    (m = Destructor \<and> pc = 1 \<and> amethod_body m ! pc = if_ThreadCompleted_goto 3) \<or>
    (m = Destructor \<and> pc = 2 \<and> amethod_body m ! pc = thread_wait) \<or> (m = Destructor \<and> pc = 3 \<and> amethod_body m ! pc = thread_delete)"
  using assms by (cases m) (auto simp: CxPlatAsyncT_constructor_def CxPlatAsyncT_Wait_def CxPlatAsyncT_WaitFor_def CxPlatAsyncT_destructor_def
      less_Suc_eq numeral_eq_Suc)

lemma ainv_statement:
  assumes inv: "ainv cb cx M" and ow: "owner M = In m pc" and pc: "pc < length (amethod_body m)"
    and born: "ok \<in> api_create A" and run: "arun A ok cb cx (amethod_body m ! pc) m pc M = Some M'"
  shows "ainv cb cx M'"
  using statement_at [OF pc]
proof (elim disjE conjE)
  assume "m = Constructor" "pc < 3"
  then show ?thesis using ainv_constructor [OF inv _ _ born] ow run by simp
next
  assume "m = Wait" "pc = 1" "amethod_body m ! pc = thread_wait"
  then show ?thesis using ainv_wait [OF inv ow] run by simp
next
  assume "m = Destructor" "pc = 2" "amethod_body m ! pc = thread_wait"
  then show ?thesis using ainv_wait [OF inv ow] run by simp
next
  assume "m = WaitFor" "pc = 1" "amethod_body m ! pc = thread_wait_timeout"
  then show ?thesis using ainv_timed [OF inv] ow run by simp
next
  assume "m = Destructor" "pc = 3" "amethod_body m ! pc = thread_delete"
  then show ?thesis using ainv_delete [OF inv] ow run by simp
qed (use ainv_branch [OF inv] ow run in \<open>simp_all add: numeral_eq_Suc cong: if_cong\<close>)

lemma owner_ok_thread: "owner_ok cb cx ow ob (Some th) = owner_ok cb cx ow ob (Some th')"
  by (auto simp: owner_ok_def split: owner.splits amethod.splits)

lemma ainv_thread_calls:
  assumes inv: "ainv cb cx M" and th: "thread M = Some th" "progress th = Started"
  shows "ainv cb cx (ThreadCallback_call M th)"
proof -
  have o: "owner_ok cb cx (owner M) (object M) (Some th)" and t: "thread_ok (owner M) (object M) th" and c: "calls M = []" "thread_fault M = None"
    using inv th by (simp_all add: ainv_def)
  have "owner M \<noteq> Dead" using t th(2) by (auto simp: thread_ok_def)
  moreover have "UserCallback (object M) = cb \<and> UserContext (object M) = cx"
    using o by (auto simp: owner_ok_def split: owner.splits amethod.splits)
  moreover have "thread_ok (owner M) (object M) (th\<lparr>progress := InCallback\<rparr>)" using t th(2) by (auto simp: thread_ok_def)
  ultimately show ?thesis using o c owner_ok_thread [of _ _ _ _ th "th\<lparr>progress := InCallback\<rparr>"] by (simp add: ThreadCallback_call_def ainv_def)
qed

lemma ainv_thread_returns:
  assumes inv: "ainv cb cx M" and th: "thread M = Some th" "progress th = InCallback"
  shows "ainv cb cx (M\<lparr>thread := Some (th\<lparr>progress := Finished\<rparr>)\<rparr>)"
proof -
  have o: "owner_ok cb cx (owner M) (object M) (Some th)" and t: "thread_ok (owner M) (object M) th"
      and c: "calls M = [(cb, cx)]" "thread_fault M = None"
    using inv th by (simp_all add: ainv_def)
  have "thread_ok (owner M) (object M) (th\<lparr>progress := Finished\<rparr>)" using t th(2) by (auto simp: thread_ok_def)
  then show ?thesis using o c owner_ok_thread [of _ _ _ _ th "th\<lparr>progress := Finished\<rparr>"] by (simp add: ainv_def)
qed

lemma ainv_step: "ainv cb cx M \<Longrightarrow> astep A rewait cb cx M M' \<Longrightarrow> ainv cb cx M'"
proof (erule astep.cases)
  fix N assume "ainv cb cx M" "M = N" "M' = N\<lparr>owner := In Constructor 0\<rparr>" "owner N = Unborn"
  then show ?thesis by (auto simp: ainv_defs)
next
  fix N m assume "ainv cb cx M" "M = N" "M' = N\<lparr>owner := In m 0\<rparr>" "owner N = Between" "m \<noteq> Constructor"
    "m = Wait \<longrightarrow> rewait \<or> \<not> ThreadCompleted (object N)"
  then show ?thesis using ainv_method by simp
next
  fix N m pc ok N' assume "ainv cb cx M" "M = N" "M' = N'" "owner N = In m pc" "pc < length (amethod_body m)"
    "ok \<in> api_create A" "arun A ok cb cx (amethod_body m ! pc) m pc N = Some N'"
  then show ?thesis using ainv_statement by blast
next
  fix N th assume "ainv cb cx M" "M = N" "M' = ThreadCallback_call N th" "thread N = Some th" "progress th = Started"
  then show ?thesis using ainv_thread_calls by blast
next
  fix N th assume "ainv cb cx M" "M = N" "M' = N\<lparr>thread := Some (th\<lparr>progress := Finished\<rparr>)\<rparr>" "thread N = Some th" "progress th = InCallback"
  then show ?thesis using ainv_thread_returns by blast
qed

lemma reachable_ainv: "reachable astart (astep A rewait cb cx) M \<Longrightarrow> ainv cb cx M"
  by (induction rule: reachable.induct) (auto intro: ainv_start ainv_step)

lemma async_safe:
  assumes "reachable astart (astep A rewait cb cx) M"
  shows "thread_fault M = None \<and> (\<forall>f. owner M \<noteq> Crashed f) \<and> (calls M = [] \<or> calls M = [(cb, cx)]) \<and>
    (owner M = Dead \<longrightarrow> (if Initialized (object M)
       then calls M = [(cb, cx)] \<and> (\<exists>th. thread M = Some th \<and> progress th = Finished \<and> released th)
       else calls M = [] \<and> thread M = None))"
proof -
  have inv: "ainv cb cx M" by (rule reachable_ainv [OF assms])
  then have "owner M \<noteq> Crashed f" for f by (auto simp: ainv_def owner_ok_def)
  moreover have "Initialized (object M) \<longleftrightarrow> thread M \<noteq> None" if "owner M = Dead"
    using inv that by (simp add: ainv_def owner_ok_def)
  moreover have "calls M = [] \<or> calls M = [(cb, cx)]" "thread_fault M = None"
    using inv by (simp_all add: ainv_def split: option.splits if_splits)
  moreover have "calls M = []" if "thread M = None" using inv that by (simp add: ainv_def)
  moreover have "calls M = [(cb, cx)] \<and> progress th = Finished \<and> released th" if "thread M = Some th" "owner M = Dead" for th
    using inv that by (simp add: ainv_def thread_ok_def)
  ultimately show ?thesis by (cases "thread M"; cases "owner M = Dead") simp_all
qed

end

text \<open>The three platforms provide the interface, when the creation reports truthfully.\<close>

definition truthful :: "(bool \<times> bool) set" where
  "truthful = {(True, True), (False, False)}"

interpretation posix_async: thread_interface "posix_platform truthful" False joined joined
  by unfold_locales (auto simp: platform_defs truthful_def)

interpretation winuser_async: thread_interface "winuser_platform truthful False t" True "\<lambda>_. True" closed for t
  by unfold_locales (auto simp: platform_defs truthful_def)

lemma winkernel_thread_timed_release [simp]:
  "winkernel_thread_timed False UMul t th = guardR (\<not> closed th) UseAfterFree (Inr (progress th = Finished))"
  by (simp add: winkernel_thread_timed_def winkernel_CxPlatThreadWaitWithTimeout_def winkernel_CxPlatInternalThreadWaitWithTimeout_def
      winkernel_Timeout100Ns_def KeWaitForThread_def wait_succeeded_def)

interpretation winkernel_async: thread_interface "winkernel_platform truthful False UMul t" True "\<lambda>_. True" closed for UMul t
  by unfold_locales (auto simp: platform_defs truthful_def)

section \<open>Properties\<close>

text \<open>Schedules that run, for concrete states.\<close>

datatype aaction = Construct | CallMethod amethod | Statement "bool \<times> bool" | ThreadCalls | ThreadReturns

fun aact :: "thread_platform \<Rightarrow> bool \<Rightarrow> nat \<Rightarrow> nat \<Rightarrow> aaction \<Rightarrow> amachine \<Rightarrow> amachine option" where
  "aact A rewait cb cx Construct M = (if owner M = Unborn then Some (M\<lparr>owner := In Constructor 0\<rparr>) else None)"
| "aact A rewait cb cx (CallMethod m) M =
     (if owner M = Between \<and> m \<noteq> Constructor \<and> (m = WaitFor \<longrightarrow> api_timed A \<noteq> None) \<and>
         (m = Wait \<longrightarrow> rewait \<or> \<not> ThreadCompleted (object M)) then Some (M\<lparr>owner := In m 0\<rparr>) else None)"
| "aact A rewait cb cx (Statement ok) M = (case owner M of
      In m pc \<Rightarrow> if pc < length (amethod_body m) \<and> ok \<in> api_create A then arun A ok cb cx (amethod_body m ! pc) m pc M else None
    | _ \<Rightarrow> None)"
| "aact A rewait cb cx ThreadCalls M = (case thread M of
      Some th \<Rightarrow> if progress th = Started then Some (ThreadCallback_call M th) else None | None \<Rightarrow> None)"
| "aact A rewait cb cx ThreadReturns M = (case thread M of
      Some th \<Rightarrow> if progress th = InCallback then Some (M\<lparr>thread := Some (th\<lparr>progress := Finished\<rparr>)\<rparr>) else None | None \<Rightarrow> None)"

fun aplay :: "thread_platform \<Rightarrow> bool \<Rightarrow> nat \<Rightarrow> nat \<Rightarrow> aaction list \<Rightarrow> amachine \<Rightarrow> amachine option" where
  "aplay A rewait cb cx [] M = Some M"
| "aplay A rewait cb cx (a # as) M = (case aact A rewait cb cx a M of None \<Rightarrow> None | Some M' \<Rightarrow> aplay A rewait cb cx as M')"

lemma aact_step: "aact A rewait cb cx a M = Some M' \<Longrightarrow> astep A rewait cb cx M M'"
  by (cases a) (auto split: if_splits option.splits owner.splits intro: astep.intros)

lemma aplay_reachable:
  "aplay A rewait cb cx as M = Some M' \<Longrightarrow> reachable astart (astep A rewait cb cx) M \<Longrightarrow> reachable astart (astep A rewait cb cx) M'"
proof (induction as arbitrary: M)
  case (Cons a as)
  then obtain M1 where "aact A rewait cb cx a M = Some M1" and "aplay A rewait cb cx as M1 = Some M'" by (auto split: option.splits)
  then show ?case using Cons.IH Cons.prems(2) aact_step by (blast intro: reach_step)
qed simp

definition unborn :: amachine where
  "unborn = \<lparr>owner = Unborn, object = \<lparr>UserContext = 0, UserCallback = 0, ThreadCompleted = False, Initialized = False\<rparr>,
     thread = None, calls = [], thread_fault = None\<rparr>"

lemma unborn_reachable: "reachable astart step unborn"
  by (rule reach_start) (simp add: astart_def unborn_def)

lemmas method_defs = CxPlatAsyncT_constructor_def CxPlatAsyncT_Wait_def CxPlatAsyncT_WaitFor_def CxPlatAsyncT_destructor_def

text \<open>
  C4. \<open>CxPlatAsyncT\<close> over POSIX threads that are waited for at most once, and over Windows threads of user mode and of the kernel with any sequence of waits, in every
  interleaving of owner and thread, where the creation of the thread reports truthfully: the thread never
  reads the object after its destruction, no method faults, and the callback is called at most once, with the arguments of the constructor. When the destructor has returned and the thread had been
  created, the callback was called, the thread has finished, and its resources were given back (joined, its handle
  closed, its reference released); when it could not be created the callback was not called.
\<close>

theorem CxPlatAsyncT_runs_callback_once:
  assumes "A = posix_platform truthful \<and> \<not> rewait \<or>
      (A = winuser_platform truthful False t \<or> A = winkernel_platform truthful False UMul t) \<and> rewait"
    and "reachable astart (astep A rewait cb cx) M"
  shows "thread_fault M = None \<and> (\<forall>f. owner M \<noteq> Crashed f) \<and> (calls M = [] \<or> calls M = [(cb, cx)]) \<and>
    (owner M = Dead \<longrightarrow> (if Initialized (object M)
       then calls M = [(cb, cx)] \<and> (\<exists>th. thread M = Some th \<and> progress th = Finished \<and>
         (if A = posix_platform truthful then joined th else closed th))
       else calls M = [] \<and> thread M = None))"
  using assms(1)
proof (elim disjE conjE)
  assume "A = posix_platform truthful" "\<not> rewait"
  then show ?thesis using posix_async.async_safe [of cb cx M] assms(2) by simp
next
  assume A: "A = winuser_platform truthful False t" "rewait"
  then have "A \<noteq> posix_platform truthful" by (simp add: posix_platform_def winuser_platform_def)
  then show ?thesis using winuser_async.async_safe [of t cb cx M] assms(2) A by simp
next
  assume A: "A = winkernel_platform truthful False UMul t" "rewait"
  then have "A \<noteq> posix_platform truthful" by (simp add: posix_platform_def winkernel_platform_def)
  then show ?thesis using winkernel_async.async_safe [of UMul t cb cx M] assms(2) A by simp
qed

definition created :: aaction where
  "created = Statement (True, True)"

theorem CxPlatAsyncT_runs_callback_once_witness:
  "\<exists>M. aplay (posix_platform truthful) False 7 8 ([Construct, created, created, created, ThreadCalls, CallMethod Wait, created,
       ThreadReturns, created, created, CallMethod Destructor, created, created, created]) unborn = Some M \<and>
     owner M = Dead \<and> calls M = [(7, 8)] \<and> (\<exists>th. thread M = Some th \<and> progress th = Finished \<and> joined th)"
proof -
  let ?s = "[Construct, created, created, created, ThreadCalls, CallMethod Wait, created,
       ThreadReturns, created, created, CallMethod Destructor, created, created, created]"
  obtain M where M: "aplay (posix_platform truthful) False 7 8 ?s unborn = Some M" "owner M = Dead" "Initialized (object M)"
    by (simp add: unborn_def method_defs goes_def ThreadCallback_call_def with_thread_def platform_defs created_def truthful_def)
  have "reachable astart (astep (posix_platform truthful) False 7 8) M" by (rule aplay_reachable [OF M(1) unborn_reachable])
  with CxPlatAsyncT_runs_callback_once [of "posix_platform truthful" False 0 _ 7 8 M] M show ?thesis by auto
qed

text \<open>
  On POSIX a second \<open>Wait\<close> is not safe: the object does not remember that its thread was joined, and the second
  call joins it again.
\<close>

theorem CxPlatAsyncT_second_wait_joins_again:
  "\<exists>M. reachable astart (astep (posix_platform truthful) True 7 8) M \<and> owner M = Crashed Undefined"
proof -
  let ?s = "[Construct, created, created, created, ThreadCalls, ThreadReturns, CallMethod Wait, created,
       created, created, CallMethod Wait, created, created]"
  obtain M where M: "aplay (posix_platform truthful) True 7 8 ?s unborn = Some M" "owner M = Crashed Undefined"
    by (simp add: unborn_def method_defs goes_def ThreadCallback_call_def with_thread_def platform_defs created_def truthful_def)
  then show ?thesis using aplay_reachable [OF M(1) unborn_reachable] by blast
qed

section \<open>The class over the creation of threads\<close>

text \<open>
  The member \<open>ThreadConfig\<close>, with \<open>callback\<close> and \<open>context\<close> the addresses of \<open>ThreadCallback\<close> and of \<open>AsyncContext\<close>, and what the creation comes to:
  whether the status is zero, which the constructor keeps in \<open>Initialized\<close>, and whether there is a thread.
\<close>

definition ThreadConfig :: "nat \<Rightarrow> nat \<Rightarrow> CXPLAT_THREAD_CONFIG" where
  "ThreadConfig callback context = \<lparr>Flags = 0, IdealProcessor = 0, Name = Some ''CxPlatAsync'', Callback = callback, Context = context\<rparr>"

definition linux_created :: "posix_build \<Rightarrow> posix_thread_os \<Rightarrow> nat \<Rightarrow> nat \<Rightarrow> posix_threads \<Rightarrow> (bool \<times> bool) set" where
  "linux_created B os callback context w = (case linux_CxPlatThreadCreate B os (ThreadConfig callback context) w of
      Inl f \<Rightarrow> {}
    | Inr (Status, Thread, w') \<Rightarrow> {(Status = 0, Thread \<noteq> None)})"

definition winkernel_created :: "kernel_thread_os \<Rightarrow> nat \<Rightarrow> nat \<Rightarrow> (bool \<times> bool) set" where
  "winkernel_created os callback context =
     (case winkernel_CxPlatThreadCreate False os (ThreadConfig callback context) \<lparr>open_handles = 0, references = 0, k_thread = None\<rparr> of
      Inl f \<Rightarrow> {}
    | Inr (Status, stored, w') \<Rightarrow> {(Status = 0, k_thread w' \<noteq> None)})"

definition goes_wrong :: "thread_platform \<Rightarrow> bool \<Rightarrow> nat \<Rightarrow> nat \<Rightarrow> bool" where
  "goes_wrong A rewait cb cx \<longleftrightarrow>
     (\<exists>M. reachable astart (astep A rewait cb cx) M \<and> (thread_fault M \<noteq> None \<or> (\<exists>f. owner M = Crashed f)))"

text \<open>A smaller set of outcomes gives fewer runs.\<close>

lemma astep_mono:
  assumes "astep A rewait cb cx M M'" and "api_create A \<subseteq> C"
  shows "astep (A\<lparr>api_create := C\<rparr>) rewait cb cx M M'"
proof -
  have run: "arun (A\<lparr>api_create := C\<rparr>) ok cb cx st m pc M = arun A ok cb cx st m pc M" for ok st m pc M by (cases st) simp_all
  show ?thesis using assms(1)
  proof cases
    case (statement m pc ok)
    then show ?thesis using assms(2) by (intro astep.statement [of M m pc ok]) (auto simp: run)
  qed (auto intro: astep.intros)
qed

lemma goes_wrong_mono: "goes_wrong A rewait cb cx \<Longrightarrow> api_create A \<subseteq> C \<Longrightarrow> goes_wrong (A\<lparr>api_create := C\<rparr>) rewait cb cx"
proof -
  assume C: "api_create A \<subseteq> C"
  have "reachable astart (astep (A\<lparr>api_create := C\<rparr>) rewait cb cx) M" if "reachable astart (astep A rewait cb cx) M" for M
    using that by induction (auto intro: reachable.intros astep_mono [OF _ C])
  then show "goes_wrong A rewait cb cx \<Longrightarrow> goes_wrong (A\<lparr>api_create := C\<rparr>) rewait cb cx" unfolding goes_wrong_def by blast
qed

lemma playing_goes_wrong:
  assumes "aplay A rewait cb cx as unborn = Some M" and "thread_fault M \<noteq> None \<or> (\<exists>f. owner M = Crashed f)"
  shows "goes_wrong A rewait cb cx"
  unfolding goes_wrong_def using aplay_reachable [OF assms(1) unborn_reachable] assms(2) by blast

text \<open>The two ways in which the status and the thread can disagree: a wait for no thread, and a thread that outlives the object.\<close>

definition phantom_thread :: "aaction list" where
  "phantom_thread = [Construct, Statement (True, False), Statement (True, False), Statement (True, False),
     CallMethod Wait, Statement (True, False), Statement (True, False)]"

definition orphan_thread :: "aaction list" where
  "orphan_thread = [Construct, Statement (False, True), Statement (False, True), Statement (False, True),
     CallMethod Destructor, Statement (False, True), ThreadCalls]"

lemma untruthful_goes_wrong:
  assumes "(ok, born) \<in> api_create A" and "ok \<noteq> born"
  shows "goes_wrong A rewait cb cx"
proof (cases ok)
  case True
  then obtain M where "aplay A rewait cb cx phantom_thread unborn = Some M" "owner M = Crashed Undefined"
    using assms by (simp add: phantom_thread_def unborn_def method_defs goes_def with_thread_def)
  then show ?thesis by (blast intro: playing_goes_wrong)
next
  case False
  then obtain M where "aplay A rewait cb cx orphan_thread unborn = Some M" "thread_fault M = Some UseAfterFree"
    using assms by (simp add: orphan_thread_def unborn_def method_defs goes_def ThreadCallback_call_def)
  then show ?thesis using playing_goes_wrong by blast
qed

lemma safe_not_wrong:
  assumes "\<And>M. reachable astart (astep A rewait cb cx) M \<Longrightarrow> thread_fault M = None \<and> (\<forall>f. owner M \<noteq> Crashed f) \<and> Q M"
  shows "\<not> goes_wrong A rewait cb cx"
  unfolding goes_wrong_def by (auto dest: assms)

lemma goes_wrong_iff:
  assumes "\<not> goes_wrong (A\<lparr>api_create := truthful\<rparr>) rewait cb cx" and "api_create A = {(ok, born)}"
  shows "goes_wrong A rewait cb cx \<longleftrightarrow> ok \<noteq> born"
proof
  assume "goes_wrong A rewait cb cx"
  then show "ok \<noteq> born" using goes_wrong_mono [of A rewait cb cx truthful] assms by (cases ok; cases born) (auto simp: truthful_def)
qed (use untruthful_goes_wrong assms in blast)

lemma posix_goes_wrong: "goes_wrong (posix_platform {(ok, born)}) False cb cx \<longleftrightarrow> ok \<noteq> born"
  by (rule goes_wrong_iff) (use safe_not_wrong [OF posix_async.async_safe] in \<open>simp_all add: posix_platform_def\<close>)

lemma winkernel_goes_wrong: "goes_wrong (winkernel_platform {(ok, born)} False UMul t) True cb cx \<longleftrightarrow> ok \<noteq> born"
  by (rule goes_wrong_iff) (use safe_not_wrong [OF winkernel_async.async_safe] in \<open>simp_all add: winkernel_platform_def\<close>)

text \<open>
  C8. \<open>CxPlatAsyncT\<close> is as safe as the status of \<open>CxPlatThreadCreate\<close> is true. On Linux, with the thread waited for at most once, some run faults exactly when both attempts of
  \<open>pthread_create\<close> fail while \<open>errno\<close> is zero: the object then counts a thread that does not exist and joins it. In the kernel some run faults exactly when
  the thread was created and a later call of the creation failed: the object counts no thread, its destructor does not wait, and
  the thread reads the callback from the object that is gone.
\<close>

theorem CxPlatAsyncT_needs_true_status:
  assumes "\<not> has_custom_context B" and "attr_init os = 0" and "node_masks w = []"
  shows "(goes_wrong (posix_platform (linux_created B os callback context w)) False cb cx \<longleftrightarrow>
      create_with_attr os \<noteq> 0 \<and> create_plain os \<noteq> 0 \<and> errno os = 0) \<and>
    (goes_wrong (winkernel_platform (winkernel_created kos callback context) False UMul t) True cb cx \<longleftrightarrow>
      NT_SUCCESS (CreateSystemThread kos) \<and>
      (\<not> NT_SUCCESS (ReferenceObject kos) \<or> NT_SUCCESS (fst (ProcessorNumber kos)) \<and>
         (\<not> NT_SUCCESS (fst (QueryNumaNode kos)) \<or> \<not> NT_SUCCESS (SetAffinity kos))))"
proof
  have "linux_created B os callback context w =
      {(create_with_attr os = 0 \<or> create_plain os = 0 \<or> errno os = 0, create_with_attr os = 0 \<or> create_plain os = 0)}"
    using assms by (auto simp: linux_created_def linux_CxPlatThreadCreate_def posix_create_user_def posix_affinitize_def Let_def
        ThreadConfig_def flagged_def split: prod.splits)
  then show "goes_wrong (posix_platform (linux_created B os callback context w)) False cb cx \<longleftrightarrow>
      create_with_attr os \<noteq> 0 \<and> create_plain os \<noteq> 0 \<and> errno os = 0"
    by (auto simp: posix_goes_wrong)
next
  have zero: "NT_SUCCESS 0" by (simp add: NT_SUCCESS_def)
  then have nonzero: "\<not> NT_SUCCESS s \<Longrightarrow> s \<noteq> 0" for s by auto
  have "winkernel_created kos callback context =
      {(NT_SUCCESS (CreateSystemThread kos) \<and> NT_SUCCESS (ReferenceObject kos) \<and> (NT_SUCCESS (fst (ProcessorNumber kos)) \<longrightarrow>
         NT_SUCCESS (fst (QueryNumaNode kos)) \<and> NT_SUCCESS (SetAffinity kos)), NT_SUCCESS (CreateSystemThread kos))}"
    using nonzero by (auto simp: winkernel_created_def winkernel_CxPlatThreadCreate_def k_place_def k_checked_def k_set_ideal_def k_set_priority_def
        k_cleanup_def k_update_def Let_def ThreadConfig_def flagged_def split: prod.splits)
  then show "goes_wrong (winkernel_platform (winkernel_created kos callback context) False UMul t) True cb cx \<longleftrightarrow>
      NT_SUCCESS (CreateSystemThread kos) \<and>
      (\<not> NT_SUCCESS (ReferenceObject kos) \<or> NT_SUCCESS (fst (ProcessorNumber kos)) \<and>
         (\<not> NT_SUCCESS (fst (QueryNumaNode kos)) \<or> \<not> NT_SUCCESS (SetAffinity kos)))"
    by (auto simp: winkernel_goes_wrong)
qed

theorem CxPlatAsyncT_needs_true_status_witness:
  "goes_wrong (posix_platform (linux_created demo_build demo_os 1 2 no_threads)) False 7 8 \<and>
   goes_wrong (winkernel_platform (winkernel_created demo_kernel_os 1 2) False (\<lambda>a b. ucast a * ucast b) 10) True 7 8"
  using CxPlatAsyncT_needs_true_status [of demo_build demo_os no_threads 1 2 7 8 demo_kernel_os "\<lambda>a b. ucast a * ucast b" 10]
  by (simp add: demo_build_def demo_os_def no_threads_def demo_kernel_os_def NT_SUCCESS_def)

end
