(* ===== verification/CxMemory.thy ===== *)
theory CxMemory
  imports CxStartup
begin

text \<open>
  The memory macros: filling, copying and moving bytes, and the allocation macros of the kernel
  (\<open>inc/cxplat_posix.h\<close>, \<open>inc/cxplat_winuser.h\<close>, \<open>inc/cxplat_winkernel.h\<close>). Memory is a partial map from addresses
  to bytes; an address that is not mapped cannot be accessed. On POSIX the macros are functions of the
  C library, which are defined here; on Windows they are functions of the system, given as a record with their documentation as a predicate.
\<close>

section \<open>Bytes\<close>

type_synonym memory = "nat \<Rightarrow> u8 option"

definition accessible :: "memory \<Rightarrow> nat \<Rightarrow> nat \<Rightarrow> bool" where
  "accessible m p n = list_all (\<lambda>i. m (p + i) \<noteq> None) [0..<n]"

definition load_bytes :: "memory \<Rightarrow> nat \<Rightarrow> nat \<Rightarrow> u8 list" where
  "load_bytes m p n = map (\<lambda>i. the (m (p + i))) [0..<n]"

definition store_bytes :: "nat \<Rightarrow> u8 list \<Rightarrow> memory \<Rightarrow> memory" where
  "store_bytes p bs m = (\<lambda>a. if p \<le> a \<and> a < p + length bs then Some (bs ! (a - p)) else m a)"

definition disjoint :: "nat \<Rightarrow> nat \<Rightarrow> nat \<Rightarrow> bool" where
  "disjoint p q n \<longleftrightarrow> p + n \<le> q \<or> q + n \<le> p"

lemma length_load [simp]: "length (load_bytes m p n) = n"
  by (simp add: load_bytes_def)

lemma accessible_iff: "accessible m p n \<longleftrightarrow> (\<forall>i < n. m (p + i) \<noteq> None)"
  by (auto simp: accessible_def list_all_iff)

lemma accessible_store [simp]: "accessible m p n \<Longrightarrow> accessible (store_bytes q bs m) p n"
  by (simp add: accessible_iff store_bytes_def)

lemma store_outside [simp]: "a < p \<or> p + length bs \<le> a \<Longrightarrow> store_bytes p bs m a = m a"
  by (auto simp: store_bytes_def)

lemma load_store [simp]: "n = length bs \<Longrightarrow> load_bytes (store_bytes p bs m) p n = bs"
  by (rule nth_equalityI) (simp_all add: load_bytes_def store_bytes_def)

lemma load_store_other [simp]: "disjoint p q (length bs) \<Longrightarrow> n = length bs \<Longrightarrow> load_bytes (store_bytes p bs m) q n = load_bytes m q n"
  by (rule nth_equalityI) (auto simp: load_bytes_def store_bytes_def disjoint_def)

lemma store_load_same: "accessible m p n \<Longrightarrow> store_bytes p (load_bytes m p n) m = m"
  by (rule ext) (auto simp: store_bytes_def load_bytes_def accessible_iff nat_le_iff_add)

section \<open>The C library\<close>

text \<open>Copying between regions that overlap is undefined, moving is not.\<close>

definition memset :: "nat \<Rightarrow> u8 \<Rightarrow> nat \<Rightarrow> memory \<Rightarrow> memory result" where
  "memset p v n m = guardR (accessible m p n) OutOfBounds (Inr (store_bytes p (replicate n v) m))"

definition memmove :: "nat \<Rightarrow> nat \<Rightarrow> nat \<Rightarrow> memory \<Rightarrow> memory result" where
  "memmove p q n m = guardR (accessible m p n \<and> accessible m q n) OutOfBounds (Inr (store_bytes p (load_bytes m q n) m))"

definition memcpy :: "nat \<Rightarrow> nat \<Rightarrow> nat \<Rightarrow> memory \<Rightarrow> memory result" where
  "memcpy p q n m = guardR (disjoint p q n) Undefined (memmove p q n m)"

section \<open>The macros\<close>

definition posix_CxPlatZeroMemory :: "nat \<Rightarrow> nat \<Rightarrow> memory \<Rightarrow> memory result" where
  "posix_CxPlatZeroMemory Destination Length = memset Destination 0 Length"

definition posix_CxPlatCopyMemory :: "nat \<Rightarrow> nat \<Rightarrow> nat \<Rightarrow> memory \<Rightarrow> memory result" where
  "posix_CxPlatCopyMemory Destination Source Length = memcpy Destination Source Length"

definition posix_CxPlatMoveMemory :: "nat \<Rightarrow> nat \<Rightarrow> nat \<Rightarrow> memory \<Rightarrow> memory result" where
  "posix_CxPlatMoveMemory Destination Source Length = memmove Destination Source Length"

definition posix_CxPlatSecureZeroMemory :: "nat \<Rightarrow> nat \<Rightarrow> memory \<Rightarrow> memory result" where
  "posix_CxPlatSecureZeroMemory = posix_CxPlatZeroMemory"

record rtl_api =
  RtlZeroMemory :: "nat \<Rightarrow> nat \<Rightarrow> memory \<Rightarrow> memory result"
  RtlCopyMemory :: "nat \<Rightarrow> nat \<Rightarrow> nat \<Rightarrow> memory \<Rightarrow> memory result"
  RtlMoveMemory :: "nat \<Rightarrow> nat \<Rightarrow> nat \<Rightarrow> memory \<Rightarrow> memory result"
  RtlSecureZeroMemory :: "nat \<Rightarrow> nat \<Rightarrow> memory \<Rightarrow> memory result"

definition winuser_CxPlatZeroMemory :: "rtl_api \<Rightarrow> nat \<Rightarrow> nat \<Rightarrow> memory \<Rightarrow> memory result" where
  "winuser_CxPlatZeroMemory = RtlZeroMemory"

definition winuser_CxPlatCopyMemory :: "rtl_api \<Rightarrow> nat \<Rightarrow> nat \<Rightarrow> nat \<Rightarrow> memory \<Rightarrow> memory result" where
  "winuser_CxPlatCopyMemory = RtlCopyMemory"

definition winuser_CxPlatMoveMemory :: "rtl_api \<Rightarrow> nat \<Rightarrow> nat \<Rightarrow> nat \<Rightarrow> memory \<Rightarrow> memory result" where
  "winuser_CxPlatMoveMemory = RtlMoveMemory"

definition winuser_CxPlatSecureZeroMemory :: "rtl_api \<Rightarrow> nat \<Rightarrow> nat \<Rightarrow> memory \<Rightarrow> memory result" where
  "winuser_CxPlatSecureZeroMemory = RtlSecureZeroMemory"

definition winkernel_CxPlatZeroMemory :: "rtl_api \<Rightarrow> nat \<Rightarrow> nat \<Rightarrow> memory \<Rightarrow> memory result" where
  "winkernel_CxPlatZeroMemory = RtlZeroMemory"

definition winkernel_CxPlatCopyMemory :: "rtl_api \<Rightarrow> nat \<Rightarrow> nat \<Rightarrow> nat \<Rightarrow> memory \<Rightarrow> memory result" where
  "winkernel_CxPlatCopyMemory = RtlCopyMemory"

definition winkernel_CxPlatMoveMemory :: "rtl_api \<Rightarrow> nat \<Rightarrow> nat \<Rightarrow> nat \<Rightarrow> memory \<Rightarrow> memory result" where
  "winkernel_CxPlatMoveMemory = RtlMoveMemory"

definition winkernel_CxPlatSecureZeroMemory :: "rtl_api \<Rightarrow> nat \<Rightarrow> nat \<Rightarrow> memory \<Rightarrow> memory result" where
  "winkernel_CxPlatSecureZeroMemory = RtlSecureZeroMemory"

text \<open>
  The documentation of the Windows functions, on memory that can be accessed: zero bytes, the bytes of the source, which for copying must not overlap the
  destination, and nothing else changed.
\<close>

definition documented_rtl :: "rtl_api \<Rightarrow> bool" where
  "documented_rtl R \<longleftrightarrow>
     (\<forall>p n m. accessible m p n \<longrightarrow> RtlZeroMemory R p n m = Inr (store_bytes p (replicate n 0) m) \<and>
        RtlSecureZeroMemory R p n m = Inr (store_bytes p (replicate n 0) m)) \<and>
     (\<forall>p q n m. accessible m p n \<longrightarrow> accessible m q n \<longrightarrow> RtlMoveMemory R p q n m = Inr (store_bytes p (load_bytes m q n) m) \<and>
        (disjoint p q n \<longrightarrow> RtlCopyMemory R p q n m = Inr (store_bytes p (load_bytes m q n) m)))"

section \<open>The interface\<close>

text \<open>What portable code can rely on.\<close>

locale memory_macros =
  fixes Zero Secure :: "nat \<Rightarrow> nat \<Rightarrow> memory \<Rightarrow> memory result" and Copy Move :: "nat \<Rightarrow> nat \<Rightarrow> nat \<Rightarrow> memory \<Rightarrow> memory result"
  assumes zero: "accessible m p n \<Longrightarrow> Zero p n m = Inr (store_bytes p (replicate n 0) m)"
    and secure: "accessible m p n \<Longrightarrow> Secure p n m = Inr (store_bytes p (replicate n 0) m)"
    and move: "accessible m p n \<Longrightarrow> accessible m q n \<Longrightarrow> Move p q n m = Inr (store_bytes p (load_bytes m q n) m)"
    and copy: "accessible m p n \<Longrightarrow> accessible m q n \<Longrightarrow> disjoint p q n \<Longrightarrow> Copy p q n m = Inr (store_bytes p (load_bytes m q n) m)"
begin

text \<open>A block saved elsewhere, wiped and copied back is what it was.\<close>

lemma saved_and_restored:
  assumes "accessible m p n" and "accessible m q n" and "disjoint p q n"
  shows "\<exists>m'. bindR (Copy q p n m) (\<lambda>m. bindR (Zero p n m) (Copy p q n)) = Inr m' \<and> load_bytes m' p n = load_bytes m p n"
proof -
  have "disjoint q p n" using assms(3) by (auto simp: disjoint_def)
  then show ?thesis using assms by (simp add: copy zero)
qed

end

interpretation posix_memory: memory_macros posix_CxPlatZeroMemory posix_CxPlatSecureZeroMemory posix_CxPlatCopyMemory posix_CxPlatMoveMemory
  by unfold_locales (simp_all add: posix_CxPlatZeroMemory_def posix_CxPlatSecureZeroMemory_def posix_CxPlatCopyMemory_def
      posix_CxPlatMoveMemory_def memset_def memcpy_def memmove_def)

lemma winuser_memory:
  "documented_rtl R \<Longrightarrow> memory_macros (winuser_CxPlatZeroMemory R) (winuser_CxPlatSecureZeroMemory R) (winuser_CxPlatCopyMemory R) (winuser_CxPlatMoveMemory R)"
  by unfold_locales (simp_all add: documented_rtl_def winuser_CxPlatZeroMemory_def winuser_CxPlatSecureZeroMemory_def
      winuser_CxPlatCopyMemory_def winuser_CxPlatMoveMemory_def)

lemma winkernel_memory:
  "documented_rtl R \<Longrightarrow> memory_macros (winkernel_CxPlatZeroMemory R) (winkernel_CxPlatSecureZeroMemory R) (winkernel_CxPlatCopyMemory R) (winkernel_CxPlatMoveMemory R)"
  by unfold_locales (simp_all add: documented_rtl_def winkernel_CxPlatZeroMemory_def winkernel_CxPlatSecureZeroMemory_def
      winkernel_CxPlatCopyMemory_def winkernel_CxPlatMoveMemory_def)


text \<open>The functions of the C library themselves satisfy the documentation of the Windows functions.\<close>

definition clib_rtl :: rtl_api where
  "clib_rtl = \<lparr>RtlZeroMemory = (\<lambda>p. memset p 0), RtlCopyMemory = memcpy, RtlMoveMemory = memmove, RtlSecureZeroMemory = (\<lambda>p. memset p 0)\<rparr>"

lemma documented_clib_rtl: "documented_rtl clib_rtl"
  by (simp add: documented_rtl_def clib_rtl_def memset_def memcpy_def memmove_def)


section \<open>Allocation macros\<close>

text \<open>
  On POSIX and in user mode the macros are \<open>CxPlatAlloc\<close> and \<open>CxPlatFree\<close> (\<open>CxAlloc\<close>). In the kernel they call the pool directly, so that nothing reads the
  denominator that \<open>CxPlatSetAllocFailDenominator\<close> stores there. The pool of the kernel and its flags are the system's. A block is in the paged or the nonpaged pool and has a size and a tag.
\<close>

record kernel_block =
  kb_paged :: bool
  kb_size :: nat
  kb_tag :: u32

type_synonym kernel_pool = "nat \<rightharpoonup> kernel_block"

record pool_api =
  POOL_FLAG_PAGED :: u64
  POOL_FLAG_NON_PAGED :: u64
  POOL_FLAG_UNINITIALIZED :: u64
  ExAllocatePool2 :: "u64 \<Rightarrow> nat \<Rightarrow> u32 \<Rightarrow> kernel_pool \<Rightarrow> nat option \<times> kernel_pool"
  ExFreePoolWithTag :: "nat \<Rightarrow> u32 \<Rightarrow> kernel_pool \<Rightarrow> kernel_pool result"

unbundle bit_operations_syntax

definition winkernel_CXPLAT_ALLOC_PAGED :: "pool_api \<Rightarrow> nat \<Rightarrow> u32 \<Rightarrow> kernel_pool \<Rightarrow> nat option \<times> kernel_pool" where
  "winkernel_CXPLAT_ALLOC_PAGED A Size Tag = ExAllocatePool2 A (POOL_FLAG_PAGED A OR POOL_FLAG_UNINITIALIZED A) Size Tag"

definition winkernel_CXPLAT_ALLOC_NONPAGED :: "pool_api \<Rightarrow> nat \<Rightarrow> u32 \<Rightarrow> kernel_pool \<Rightarrow> nat option \<times> kernel_pool" where
  "winkernel_CXPLAT_ALLOC_NONPAGED A Size Tag = ExAllocatePool2 A (POOL_FLAG_NON_PAGED A OR POOL_FLAG_UNINITIALIZED A) Size Tag"

definition winkernel_CXPLAT_FREE :: "pool_api \<Rightarrow> nat \<Rightarrow> u32 \<Rightarrow> kernel_pool \<Rightarrow> kernel_pool result" where
  "winkernel_CXPLAT_FREE A Mem Tag = ExFreePoolWithTag A Mem Tag"

text \<open>
  Documented: the flag bits are distinct, an allocation is a fresh block of the pool its flag names or fails and changes nothing, and freeing a block with its own tag releases it.
\<close>

definition documented_pool :: "pool_api \<Rightarrow> bool" where
  "documented_pool A \<longleftrightarrow>
     POOL_FLAG_PAGED A AND POOL_FLAG_NON_PAGED A = 0 \<and> POOL_FLAG_PAGED A AND POOL_FLAG_UNINITIALIZED A = 0 \<and>
     POOL_FLAG_NON_PAGED A AND POOL_FLAG_UNINITIALIZED A = 0 \<and> POOL_FLAG_PAGED A \<noteq> 0 \<and>
     (\<forall>f n tag M. case ExAllocatePool2 A f n tag M of
         (None, M') \<Rightarrow> M' = M
       | (Some a, M') \<Rightarrow> M a = None \<and> M' = M(a \<mapsto> \<lparr>kb_paged = (f AND POOL_FLAG_PAGED A \<noteq> 0), kb_size = n, kb_tag = tag\<rparr>)) \<and>
     (\<forall>a tag M b. M a = Some b \<longrightarrow> kb_tag b = tag \<longrightarrow> ExFreePoolWithTag A a tag M = Inr (M(a := None)))"

lemma documented_pool_flags:
  assumes "documented_pool A"
  shows "(POOL_FLAG_PAGED A OR POOL_FLAG_UNINITIALIZED A) AND POOL_FLAG_PAGED A \<noteq> 0"
    and "(POOL_FLAG_NON_PAGED A OR POOL_FLAG_UNINITIALIZED A) AND POOL_FLAG_PAGED A = 0"
proof -
  have "POOL_FLAG_PAGED A AND POOL_FLAG_NON_PAGED A = 0" "POOL_FLAG_PAGED A AND POOL_FLAG_UNINITIALIZED A = 0" "POOL_FLAG_PAGED A \<noteq> 0"
    using assms by (simp_all add: documented_pool_def)
  moreover from this have "POOL_FLAG_NON_PAGED A AND POOL_FLAG_PAGED A = 0" "POOL_FLAG_UNINITIALIZED A AND POOL_FLAG_PAGED A = 0"
    by (simp_all only: and.commute [of _ "POOL_FLAG_PAGED A"])
  ultimately show "(POOL_FLAG_PAGED A OR POOL_FLAG_UNINITIALIZED A) AND POOL_FLAG_PAGED A \<noteq> 0"
    and "(POOL_FLAG_NON_PAGED A OR POOL_FLAG_UNINITIALIZED A) AND POOL_FLAG_PAGED A = 0"
    by (simp_all add: bit.conj_disj_distrib2)
qed

text \<open>
  In the kernel a paged request gives a block of the paged pool and a nonpaged one a block of the nonpaged pool, with the size and tag asked for, and freeing the block with the tag gives back the pool.
\<close>

lemma winkernel_alloc_free_roundtrip:
  assumes A: "documented_pool A"
    and alloc: "(if paged then winkernel_CXPLAT_ALLOC_PAGED else winkernel_CXPLAT_ALLOC_NONPAGED) A Size Tag M = (p, M')"
  shows "case p of None \<Rightarrow> M' = M
    | Some a \<Rightarrow> M' a = Some \<lparr>kb_paged = paged, kb_size = Size, kb_tag = Tag\<rparr> \<and> winkernel_CXPLAT_FREE A a Tag M' = Inr M"
proof -
  define f where "f = (if paged then POOL_FLAG_PAGED A else POOL_FLAG_NON_PAGED A) OR POOL_FLAG_UNINITIALIZED A"
  have f: "f AND POOL_FLAG_PAGED A \<noteq> 0 \<longleftrightarrow> paged" using documented_pool_flags [OF A] by (simp add: f_def)
  have "ExAllocatePool2 A f Size Tag M = (p, M')"
    using alloc by (simp add: f_def winkernel_CXPLAT_ALLOC_PAGED_def winkernel_CXPLAT_ALLOC_NONPAGED_def split: if_splits)
  moreover have "case ExAllocatePool2 A f Size Tag M of (None, M') \<Rightarrow> M' = M
      | (Some a, M') \<Rightarrow> M a = None \<and> M' = M(a \<mapsto> \<lparr>kb_paged = (f AND POOL_FLAG_PAGED A \<noteq> 0), kb_size = Size, kb_tag = Tag\<rparr>)"
    by (rule A [unfolded documented_pool_def, THEN conjunct2, THEN conjunct2, THEN conjunct2, THEN conjunct2, THEN conjunct1, rule_format])
  moreover have "ExFreePoolWithTag A a Tag K = Inr (K(a := None))" if "K a = Some b" "kb_tag b = Tag" for a b K
    by (rule A [unfolded documented_pool_def, THEN conjunct2, THEN conjunct2, THEN conjunct2, THEN conjunct2, THEN conjunct2, rule_format]) (fact that)+
  ultimately show ?thesis by (cases p) (simp_all add: f winkernel_CXPLAT_FREE_def fun_upd_idem)
qed

end
