(* ===== verification/CxServices.thy ===== *)
theory CxServices
  imports CxLifecycle
begin

text \<open>
  What the library offers once it is started: the number of processors (\<open>CxPlatProcCount\<close>), the number of the current one and random bytes.
  The locale \<open>processor_numbers\<close> is the contract that \<open>src/test/lib/ProcTest.cpp\<close> tests; each platform provides it after a start that succeeds.
\<close>

section \<open>The number of processors\<close>

definition posix_CxPlatProcCount :: "posix_globals \<Rightarrow> u32" where
  "posix_CxPlatProcCount g = px_ProcessorCount g"

definition winuser_CxPlatProcCount :: "winuser_globals \<Rightarrow> u32" where
  "winuser_CxPlatProcCount g = CxPlatProcessorCount g"

definition winkernel_CxPlatProcCount :: "winkernel_globals \<Rightarrow> u32" where
  "winkernel_CxPlatProcCount g = wk_ProcessorCount g"

section \<open>The contract\<close>

text \<open>
  \<open>up\<close> are the states of the started library and \<open>here\<close> the places a thread can be on in such a state. Clients keep a table with one entry for every processor and
  take the entry of the processor they are on: the access is in bounds.
\<close>

locale processor_numbers =
  fixes up :: "'g \<Rightarrow> bool" and here :: "'g \<Rightarrow> 'c \<Rightarrow> bool" and count :: "'g \<Rightarrow> u32" and current :: "'c \<Rightarrow> 'g \<Rightarrow> u32 result"
  assumes current_below: "up g \<Longrightarrow> here g c \<Longrightarrow> \<exists>r. current c g = Inr r \<and> r < count g"
begin

lemma count_positive: "up g \<Longrightarrow> here g c \<Longrightarrow> 0 < count g"
  using current_below by (metis word_gt_0 word_not_simps(1))

lemma own_entry: "up g \<Longrightarrow> here g c \<Longrightarrow> length table = unat (count g) \<Longrightarrow> \<exists>r. current c g = Inr r \<and> unat r < length table"
  using current_below by (metis word_less_nat_alt)

end

section \<open>The platforms\<close>

definition posix_up :: "posix_globals \<Rightarrow> bool" where
  "posix_up g \<longleftrightarrow> px_ProcessorCount g \<noteq> 0 \<and> RandomFd g \<in> open_fds g"

definition winuser_up :: "PROCESSOR_GROUP_INFO list \<Rightarrow> winuser_globals \<Rightarrow> bool" where
  "winuser_up infos g \<longleftrightarrow> layout_ok infos g"

definition winkernel_up :: "winkernel_globals \<Rightarrow> bool" where
  "winkernel_up g \<longleftrightarrow> wk_ProcessorCount g \<noteq> 0 \<and> (\<exists>h \<in> providers g. RngAlgorithm (wk_platform g) = Some h)"

text \<open>In user mode a thread is on a group of the system that has an active processor.\<close>

definition on_active_group :: "PROCESSOR_GROUP_INFO list \<Rightarrow> u16 \<times> u8 \<Rightarrow> bool" where
  "on_active_group infos = (\<lambda>(G, N). unat G < length infos \<and> 0 < act (infos ! unat G))"

interpretation posix_processors: processor_numbers posix_up "\<lambda>_ _. True" posix_CxPlatProcCount "posix_CxPlatProcCurrentNumber linux" for linux
  by unfold_locales (auto simp: posix_up_def posix_CxPlatProcCount_def intro: proc_current_number_bound(1))

interpretation winuser_processors: processor_numbers "winuser_up infos" "\<lambda>_. on_active_group infos" winuser_CxPlatProcCount
    "\<lambda>(G, N). winuser_CxPlatProcCurrentNumber G N" for infos
proof
  fix g and c :: "u16 \<times> u8"
  assume "winuser_up infos g" and "on_active_group infos c"
  then show "\<exists>r. (case c of (G, N) \<Rightarrow> winuser_CxPlatProcCurrentNumber G N) g = Inr r \<and> r < winuser_CxPlatProcCount g"
    using current_number_spec [of infos g "fst c" "snd c"]
    by (auto simp: winuser_up_def on_active_group_def winuser_CxPlatProcCount_def word_less_nat_alt split: prod.splits)
qed

interpretation winkernel_processors: processor_numbers winkernel_up "\<lambda>_ _. True" winkernel_CxPlatProcCount winkernel_CxPlatProcCurrentNumber
  by unfold_locales (auto simp: winkernel_up_def winkernel_CxPlatProcCount_def intro: proc_current_number_bound(2))

section \<open>A start that succeeds\<close>

lemma posix_init_numa_count: "posix_init_numa dbg S g = Inr g' \<Longrightarrow> px_ProcessorCount g' = px_ProcessorCount g"
  by (auto simp: posix_init_numa_def bindR_def Let_def split: if_splits sum.splits option.splits prod.splits)

lemma posix_started:
  assumes "posix_CxPlatInitialize dbg linux numa S g = Inr (Status, g')" and "\<not> posix_CXPLAT_FAILED Status"
    and "0 < sint (open_errno S)" and "(ucast (online_processors S) :: u32) \<noteq> 0"
  shows "posix_up g'"
proof -
  define g0 where "g0 = (if dbg then g\<lparr>px_platform := posix_CxPlatSetAllocFailDenominator 0 (px_platform g)\<rparr> else g)
    \<lparr>px_ProcessorCount := (if linux then ucast (online_processors S) else 1)\<rparr>"
  have "px_ProcessorCount g0 \<noteq> 0" using assms(4) by (simp add: g0_def)
  moreover obtain g1 where g1: "(if numa then posix_init_numa dbg S g0 else Inr g0) = Inr g1"
    and g': "(if urandom S = -1 then (open_errno S, g1\<lparr>RandomFd := urandom S\<rparr>)
      else (0, g1\<lparr>RandomFd := urandom S, open_fds := insert (urandom S) (open_fds g1)\<rparr>)) = (Status, g')"
    using assms(1) unfolding posix_CxPlatInitialize_def Let_def g0_def [symmetric]
    by (auto simp: bindR_def g0_def split: sum.splits if_splits)
  moreover have "px_ProcessorCount g1 = px_ProcessorCount g0" using g1 posix_init_numa_count by (auto split: if_splits)
  ultimately show ?thesis using assms(2,3) by (auto simp: posix_up_def posix_CXPLAT_FAILED_def split: if_splits)
qed

lemma winkernel_started:
  assumes "winkernel_CxPlatInitialize dbg S g = Inr (Status, g')" and "\<not> winkernel_CXPLAT_FAILED Status"
    and "winkernel_good P S" and "active_processors S \<noteq> 0"
  shows "winkernel_up g'"
  using assms
  by (auto simp: winkernel_CxPlatInitialize_def winkernel_up_def winkernel_good_def winkernel_CXPLAT_FAILED_def NT_SUCCESS_def status_ok_def
      Let_def guardR_def split: prod.splits if_splits)

lemma winuser_started:
  assumes "winuser_CxPlatInitialize dbg S g = Inr (Status, g')" and "\<not> winuser_CXPLAT_FAILED Status"
    and "stopped g" and good: "winuser_good S" and R: "QueryResult S = Some R"
  shows "winuser_up (active_infos R) g'"
proof -
  have codes: "good_codes S" by (rule winuser_good_codes [OF good])
  have S: "good_system S" "QueryLength S \<noteq> 0" "QueryLength S + AllocOffset < 2 ^ 64" "good_groups R" and F: "Failed S = winuser_CXPLAT_FAILED"
    using good R by (auto simp: winuser_good_def)
  have g: "live (the_heap g) = Map.empty" "CxPlatProcessorInfo g = None" "CxPlatProcessorGroupInfo g = None"
    using assms(3) by (simp_all add: stopped_def)
  show ?thesis using initialize_then_uninitialize [OF S(1) codes S(2,3) R S(4) g, of dbg] assms(1,2)
    by (auto simp: winuser_up_def F)
qed


text \<open>A start of each platform that succeeds.\<close>

definition starts :: "(u32 \<times> 'g) result \<Rightarrow> bool" where
  "starts r = (case r of Inr (Status, _) \<Rightarrow> Status = 0 | _ \<Rightarrow> False)"

lemma startsE: "starts r \<Longrightarrow> (\<And>g. r = Inr (0, g) \<Longrightarrow> thesis) \<Longrightarrow> thesis"
  by (auto simp: starts_def split: sum.splits)

definition demo_failed_system :: win_system where
  "demo_failed_system = demo_system\<lparr>Failed := winuser_CXPLAT_FAILED\<rparr>"

lemma demo_starts:
  "starts (posix_CxPlatInitialize False True False (demo_posix_system\<lparr>urandom := 3\<rparr>) demo_posix_globals)"
  "starts (winuser_CxPlatInitialize False demo_failed_system demo_stopped)"
  "starts (winkernel_CxPlatInitialize False (demo_kernel_system 0) demo_kernel_globals)"
  by code_simp+


end
