(* ===== verification/KArrayUse.thy ===== *)
theory KArrayUse
  imports KArrayRep CxKalloc
begin

text \<open>
  Where \<open>Rtl::KArray\<close> (\<open>inc/karray.h\<close>) may be used: the interrupt level at which its methods run, which \<open>PAGED_CODE\<close> asserts in a debug kernel, and the
  alignment of the elements, which a static assertion of the class checks against the guarantees of the pool.
\<close>

section \<open>Interrupt level\<close>

text \<open>
  The calls that reach \<open>PAGED_CODE\<close>, in their own body or in a method they call. All others return before: \<open>insertAt\<close> refuses a bad index before
  it grows, and \<open>insertSortedUnique\<close> returns when it finds an equal element.
\<close>

definition scan_reaches :: "('a \<Rightarrow> 'a \<Rightarrow> bool) \<Rightarrow> bool \<Rightarrow> 'a \<Rightarrow> 'a karray_state \<Rightarrow> bool" where
  "scan_reaches lt unique v = (\<lambda>(pl, a).
     case scan_not_less pl (data_p a) (Temp v) lt [0..<m_numElements a] of
       Inl _ \<Rightarrow> False
     | Inr None \<Rightarrow> True
     | Inr (Some i) \<Rightarrow> (if unique then (case read_obj pl (data_p a) i of Inl _ \<Rightarrow> False | Inr x \<Rightarrow> lt v x) else True))"

fun reaches_PAGED_CODE :: "('a \<Rightarrow> 'a \<Rightarrow> bool) \<Rightarrow> 'a karray_op \<Rightarrow> 'a karray_state \<Rightarrow> bool" where
  "reaches_PAGED_CODE lt (InsertAt i v) st = (i \<le> m_numElements (snd st))"
| "reaches_PAGED_CODE lt (InsertAtMove i v) st = (i \<le> m_numElements (snd st))"
| "reaches_PAGED_CODE lt (InsertSorted v) st = scan_reaches lt False v st"
| "reaches_PAGED_CODE lt (InsertSortedMove v) st = scan_reaches lt False v st"
| "reaches_PAGED_CODE lt (InsertSortedUnique v) st = scan_reaches lt True v st"
| "reaches_PAGED_CODE lt (InsertSortedUniqueMove v) st = scan_reaches lt True v st"
| "reaches_PAGED_CODE lt _ st = True"

text \<open>Nothing is written before the first \<open>PAGED_CODE\<close> of a call, so that the assertion can be put in front of it.\<close>

definition exec_at :: "bool \<Rightarrow> nat \<Rightarrow> 'a traits \<Rightarrow> ('a \<Rightarrow> 'a \<Rightarrow> bool) \<Rightarrow> 'a karray_op \<Rightarrow> 'a karray_state \<Rightarrow> (bool \<times> 'a karray_state) result" where
  "exec_at dbg irql T lt c st = (if reaches_PAGED_CODE lt c st then PAGED_CODE dbg irql (exec T lt c st) else exec T lt c st)"

fun exec_all_at :: "bool \<Rightarrow> nat \<Rightarrow> 'a traits \<Rightarrow> ('a \<Rightarrow> 'a \<Rightarrow> bool) \<Rightarrow> 'a karray_op list \<Rightarrow> 'a karray_state \<Rightarrow> 'a karray_state result" where
  "exec_all_at dbg irql T lt [] st = Inr st"
| "exec_all_at dbg irql T lt (c # cs) st = bindR (exec_at dbg irql T lt c st) (\<lambda>(_, st). exec_all_at dbg irql T lt cs st)"

lemma exec_at_low: "\<not> dbg \<or> irql \<le> 1 \<Longrightarrow> exec_at dbg irql T lt c st = exec T lt c st"
  by (auto simp: exec_at_def PAGED_CODE_def)

lemma exec_all_at_low: "\<not> dbg \<or> irql \<le> 1 \<Longrightarrow> exec_all_at dbg irql T lt cs st = exec_all T lt cs st"
  by (induction cs arbitrary: st) (simp_all add: exec_at_low bindR_def split: sum.split)

lemma insertSorted_early:
  "\<not> scan_reaches lt False v st \<Longrightarrow> insertSorted_body ins app lt (Temp v) st = Inr (ok, st') \<Longrightarrow> st' = st"
  by (cases st) (auto simp: scan_reaches_def insertSorted_body_def split: sum.splits option.splits)

lemma insertSortedUnique_early:
  "\<not> scan_reaches lt True v st \<Longrightarrow> insertSortedUnique_body ins app lt (Temp v) st = Inr (ok, st') \<Longrightarrow> st' = st"
  by (cases st) (auto simp: scan_reaches_def insertSortedUnique_body_def deref_def bindR_def split: sum.splits option.splits if_splits)

lemma early_return:
  assumes "\<not> reaches_PAGED_CODE lt c st" and "exec T lt c st = Inr (ok, st')"
  shows "st' = st"
proof (cases c)
  case (InsertAt i v)
  then show ?thesis using assms by (cases st) (simp add: KArray_insertAt_def)
next
  case (InsertAtMove i v)
  then show ?thesis using assms by (cases st) (simp add: KArray_insertAt_move_def KArray_insertAt_def)
next
  case (InsertSorted v)
  then show ?thesis using assms by (auto simp: KArray_insertSorted_def dest: insertSorted_early)
next
  case (InsertSortedMove v)
  then show ?thesis using assms by (auto simp: KArray_insertSorted_move_def KArray_insertSorted_def dest: insertSorted_early)
next
  case (InsertSortedUnique v)
  then show ?thesis using assms by (auto simp: KArray_insertSortedUnique_def dest: insertSortedUnique_early)
next
  case (InsertSortedUniqueMove v)
  then show ?thesis using assms by (auto simp: KArray_insertSortedUnique_move_def KArray_insertSortedUnique_def dest: insertSortedUnique_early)
qed (use assms in simp_all)

lemma exec_at_high:
  assumes "2 \<le> irql" and "wf_traits T" and "karray_rep T st xs"
  shows "exec_at True irql T lt c st = Inl AssertFailed \<or> (\<exists>ok. exec_at True irql T lt c st = Inr (ok, st))"
proof (cases "reaches_PAGED_CODE lt c st")
  case True
  then show ?thesis using assms(1) by (simp add: exec_at_def PAGED_CODE_def)
next
  case False
  obtain pl a where st: "st = (pl, a)" by (cases st)
  have "i < length xs" if "c = EraseAt i" for i using False that by simp
  from exec_spec [OF assms(2) assms(3) [unfolded st] this, where lt = lt] obtain ok st' where "exec T lt c st = Inr (ok, st')"
    unfolding serves_def yields_def st by blast
  then show ?thesis using early_return [OF False] False by (auto simp: exec_at_def)
qed



section \<open>Alignment\<close>

text \<open>The static assertion of the class; the two alignments are constants of the system.\<close>

definition KArray_static_assert :: "nat \<Rightarrow> nat \<Rightarrow> POOL_TYPE \<Rightarrow> nat \<Rightarrow> bool" where
  "KArray_static_assert cache_alignment memory_alignment PoolType alignofT \<longleftrightarrow>
     (PoolType = NonPagedPoolNxCacheAligned \<and> alignofT \<le> cache_alignment) \<or> alignofT \<le> memory_alignment"

text \<open>Where the element \<open>i\<close> of a block at \<open>address\<close> is.\<close>

definition element_address :: "'a traits \<Rightarrow> nat \<Rightarrow> nat \<Rightarrow> nat" where
  "element_address T address i = address + i * sizeofT T"

text \<open>Documented: blocks have the memory alignment, those of a cache aligned pool start on a cache line.\<close>

definition pool_aligned :: "nat \<Rightarrow> nat \<Rightarrow> POOL_TYPE \<Rightarrow> nat \<Rightarrow> bool" where
  "pool_aligned cache_alignment memory_alignment PoolType address \<longleftrightarrow> memory_alignment dvd address \<and>
     (PoolType = NonPagedPoolNxCacheAligned \<longrightarrow> cache_alignment dvd address)"

lemma power_two_dvd: "(2::nat) ^ a \<le> 2 ^ b \<Longrightarrow> 2 ^ a dvd (2::nat) ^ b"
  by (simp add: le_imp_power_dvd)

text \<open>
  Every element of a \<open>KArray\<close> whose static assertion holds is aligned for its type, as alignments are powers of two and the size of a type is a multiple of its alignment.
\<close>

lemma KArray_elements_aligned:
  assumes "KArray_static_assert (2 ^ c) (2 ^ m) PoolType (2 ^ k)" and "pool_aligned (2 ^ c) (2 ^ m) PoolType address" and "2 ^ k dvd sizeofT T"
  shows "2 ^ k dvd element_address T address i"
proof -
  have "2 ^ k dvd address"
    using assms(1,2) power_two_dvd [of k] by (auto simp: KArray_static_assert_def pool_aligned_def intro: dvd_trans)
  then show ?thesis using assms(3) by (simp add: element_address_def)
qed

end
