(* ===== verification/CxEventClass.thy ===== *)
theory CxEventClass
  imports CxWinEvent
begin

text \<open>
  The class \<open>CxPlatEvent\<close> (\<open>inc/cxplat.hpp\<close>) as the owner of an event of user mode Windows: its constructors create an event or take over a handle, its destructor
  closes the handle. The class declares a destructor and no copy operations, so that the language provides member-wise copies. A client is a sequence of
  declarations and ends of scope.
\<close>

section \<open>The class\<close>

definition winuser_CxPlatEvent_default :: "bool \<Rightarrow> 's event_system \<Rightarrow> 's \<Rightarrow> (handle \<times> 's) result" where
  "winuser_CxPlatEvent_default dbg Sys s = winuser_CxPlatEventInitialize dbg Sys False False s"

definition winuser_CxPlatEvent_manual :: "bool \<Rightarrow> 's event_system \<Rightarrow> bool \<Rightarrow> 's \<Rightarrow> (handle \<times> 's) result" where
  "winuser_CxPlatEvent_manual dbg Sys ManualReset s = winuser_CxPlatEventInitialize dbg Sys ManualReset False s"

definition winuser_CxPlatEvent_from :: "handle \<Rightarrow> handle" where
  "winuser_CxPlatEvent_from Event = Event"

definition winuser_CxPlatEvent_destructor :: "(u32 \<Rightarrow> u32) \<Rightarrow> 's event_system \<Rightarrow> handle \<Rightarrow> 's \<Rightarrow> 's" where
  "winuser_CxPlatEvent_destructor HresultFromWin32 Sys Handle s = snd (winuser_CxPlatEventUninitialize HresultFromWin32 Sys Handle s)"

definition winuser_CxPlatEvent_handle :: "handle \<Rightarrow> handle" where
  "winuser_CxPlatEvent_handle Handle = Handle"

section \<open>Clients\<close>

text \<open>Objects have names. A name is declared when it is free, and its scope ends once.\<close>

datatype event_stmt =
    Declare nat "bool option"
  | Adopt nat handle
  | CopyOf nat nat
  | EndScope nat

type_synonym 's event_scope = "'s \<times> (nat \<rightharpoonup> handle)"

definition declare_object :: "nat \<Rightarrow> (handle \<times> 's) result \<Rightarrow> (nat \<rightharpoonup> handle) \<Rightarrow> 's event_scope result" where
  "declare_object x r objs = guardR (objs x = None) Undefined (bindR r (\<lambda>(h, s). Inr (s, objs(x \<mapsto> h))))"

fun event_stmt_run :: "bool \<Rightarrow> (u32 \<Rightarrow> u32) \<Rightarrow> 's event_system \<Rightarrow> event_stmt \<Rightarrow> 's event_scope \<Rightarrow> 's event_scope result" where
  "event_stmt_run dbg H Sys (Declare x None) (s, objs) = declare_object x (winuser_CxPlatEvent_default dbg Sys s) objs"
| "event_stmt_run dbg H Sys (Declare x (Some mr)) (s, objs) = declare_object x (winuser_CxPlatEvent_manual dbg Sys mr s) objs"
| "event_stmt_run dbg H Sys (Adopt x h) (s, objs) = declare_object x (Inr (winuser_CxPlatEvent_from h, s)) objs"
| "event_stmt_run dbg H Sys (CopyOf x y) (s, objs) = (case objs y of None \<Rightarrow> Inl Undefined | Some h \<Rightarrow> declare_object x (Inr (h, s)) objs)"
| "event_stmt_run dbg H Sys (EndScope x) (s, objs) = (case objs x of None \<Rightarrow> Inl Undefined
     | Some h \<Rightarrow> Inr (winuser_CxPlatEvent_destructor H Sys h s, objs(x := None)))"

fun event_stmts_run :: "bool \<Rightarrow> (u32 \<Rightarrow> u32) \<Rightarrow> 's event_system \<Rightarrow> event_stmt list \<Rightarrow> 's event_scope \<Rightarrow> 's event_scope result" where
  "event_stmts_run dbg H Sys [] st = Inr st"
| "event_stmts_run dbg H Sys (c # cs) st = bindR (event_stmt_run dbg H Sys c st) (event_stmts_run dbg H Sys cs)"

fun creates_or_ends :: "event_stmt \<Rightarrow> bool" where
  "creates_or_ends (Declare _ _) = True"
| "creates_or_ends (EndScope _) = True"
| "creates_or_ends _ = False"

text \<open>
  Documented: closing the handle of an existing event removes it and nothing else, closing NULL fails and changes nothing, and a creation that fails creates nothing.
\<close>

definition documented_handles :: "'s event_system \<Rightarrow> ('s \<Rightarrow> nat \<rightharpoonup> bool \<times> bool) \<Rightarrow> bool" where
  "documented_handles Sys ev \<longleftrightarrow>
     (\<forall>h s. ev s h \<noteq> None \<longrightarrow> (\<exists>s'. CloseHandle Sys (Some h) s = (True, s') \<and> ev s' = (ev s)(h := None))) \<and>
     (\<forall>s. CloseHandle Sys None s = (False, s)) \<and>
     (\<forall>mr init s s'. CreateEvent Sys mr init s = (None, s') \<longrightarrow> ev s' = ev s)"

lemma destructor_closes:
  assumes "documented_handles Sys ev" and "ev s h \<noteq> None"
  shows "ev (winuser_CxPlatEvent_destructor H Sys (Some h) s) = (ev s)(h := None)"
  using assms(1) [unfolded documented_handles_def, THEN conjunct1, rule_format, OF assms(2)]
  by (auto simp: winuser_CxPlatEvent_destructor_def winuser_CxPlatEventUninitialize_def)

lemma destructor_null:
  assumes "documented_handles Sys ev"
  shows "winuser_CxPlatEvent_destructor H Sys None s = s"
  using assms by (simp add: documented_handles_def winuser_CxPlatEvent_destructor_def winuser_CxPlatEventUninitialize_def)

section \<open>Ownership\<close>

text \<open>The objects hold different handles of existing events, which did not exist at the start; every other event is as it was.\<close>

definition held :: "(nat \<rightharpoonup> handle) \<Rightarrow> nat \<Rightarrow> bool" where
  "held objs h \<longleftrightarrow> (\<exists>x. objs x = Some (Some h))"

definition held_once :: "(nat \<rightharpoonup> handle) \<Rightarrow> bool" where
  "held_once objs \<longleftrightarrow> (\<forall>x y h. objs x = Some (Some h) \<longrightarrow> objs y = Some (Some h) \<longrightarrow> x = y)"

definition owns_events :: "('s \<Rightarrow> nat \<rightharpoonup> bool \<times> bool) \<Rightarrow> 's \<Rightarrow> 's event_scope \<Rightarrow> bool" where
  "owns_events ev s0 = (\<lambda>(s, objs). held_once objs \<and>
     (\<forall>h. if held objs h then ev s h \<noteq> None \<and> ev s0 h = None else ev s h = ev s0 h))"

lemma owns_eventsD:
  "owns_events ev s0 (s, objs) \<Longrightarrow> if held objs h then ev s h \<noteq> None \<and> ev s0 h = None else ev s h = ev s0 h"
  by (simp add: owns_events_def)

lemma held_declare_null: "objs x = None \<Longrightarrow> held (objs(x \<mapsto> None)) = held objs"
  unfolding held_def fun_eq_iff fun_upd_apply by (metis option.distinct(1) option.inject)

lemma held_declare: "objs x = None \<Longrightarrow> held (objs(x \<mapsto> Some a)) h \<longleftrightarrow> h = a \<or> held objs h"
  unfolding held_def fun_upd_apply by (metis option.distinct(1) option.inject)

lemma held_end_null: "objs x = Some None \<Longrightarrow> held (objs(x := None)) = held objs"
  unfolding held_def fun_eq_iff fun_upd_apply by (metis option.distinct(1) option.inject)

lemma held_end: "held_once objs \<Longrightarrow> objs x = Some (Some a) \<Longrightarrow> held (objs(x := None)) h \<longleftrightarrow> h \<noteq> a \<and> held objs h"
  unfolding held_def held_once_def fun_upd_apply by (metis option.distinct(1) option.inject)

lemma held_once_declare_null: "objs x = None \<Longrightarrow> held_once objs \<Longrightarrow> held_once (objs(x \<mapsto> None))"
  by (auto simp: held_once_def)

lemma held_once_declare: "\<not> held objs a \<Longrightarrow> held_once objs \<Longrightarrow> held_once (objs(x \<mapsto> Some a))"
  by (auto simp: held_once_def held_def)

lemma held_once_end: "held_once objs \<Longrightarrow> held_once (objs(x := None))"
  by (auto simp: held_once_def)

lemma owns_events_declare:
  assumes Sys: "documented_events Sys ev" "documented_handles Sys ev" and own: "owns_events ev s0 (s, objs)" and free: "objs x = None"
    and new: "winuser_CxPlatEventInitialize dbg Sys mr False s = Inr (h, s')"
  shows "owns_events ev s0 (s', objs(x \<mapsto> h))"
proof -
  have c: "CreateEvent Sys mr False s = (h, s')"
    using new by (auto simp: winuser_CxPlatEventInitialize_def guardR_def split: prod.splits if_splits)
  show ?thesis
  proof (cases h)
    case None
    then have "ev s' = ev s" using c Sys(2) [unfolded documented_handles_def, THEN conjunct2, THEN conjunct2, rule_format] by simp
    then show ?thesis using own free None by (simp add: owns_events_def held_declare_null held_once_declare_null)
  next
    case (Some a)
    then have a: "ev s a = None" "ev s' = (ev s)(a \<mapsto> (mr, False))"
      using c Sys(1) [unfolded documented_events_def, THEN conjunct1, rule_format, of mr False s a s'] by simp_all
    have "\<not> held objs a" and "ev s0 a = None" using owns_eventsD [OF own, of a] a(1) by (simp_all split: if_splits)
    then show ?thesis using own free Some a(2) by (simp add: owns_events_def held_declare held_once_declare del: not_None_eq)
  qed
qed

lemma owns_events_end:
  assumes Sys: "documented_handles Sys ev" and own: "owns_events ev s0 (s, objs)" and x: "objs x = Some h"
  shows "owns_events ev s0 (winuser_CxPlatEvent_destructor H Sys h s, objs(x := None))"
proof (cases h)
  case None
  then show ?thesis using own x destructor_null [OF Sys] by (simp add: owns_events_def held_end_null held_once_end)
next
  case (Some a)
  then have "held objs a" using x by (auto simp: held_def)
  then have "ev s a \<noteq> None" "ev s0 a = None" using owns_eventsD [OF own, of a] by simp_all
  then show ?thesis using own x Some destructor_closes [OF Sys, of s a H] by (simp add: owns_events_def held_end held_once_end)
qed

lemma owns_events_step:
  assumes Sys: "documented_events Sys ev" "documented_handles Sys ev" and own: "owns_events ev s0 st" and "creates_or_ends c"
    and run: "event_stmt_run dbg H Sys c st = Inr st'"
  shows "owns_events ev s0 st'"
proof -
  obtain s objs where st: "st = (s, objs)" by (cases st)
  have new: "owns_events ev s0 st'" if "declare_object x (winuser_CxPlatEventInitialize dbg Sys mr False s) objs = Inr st'" for x mr
    using that own owns_events_declare [OF Sys, of s0 s objs x dbg mr]
    by (auto simp: st declare_object_def guardR_def bindR_def split: if_splits sum.splits)
  show ?thesis
  proof (cases c)
    case (Declare x mr)
    then show ?thesis using run new
      by (cases mr) (auto simp: st winuser_CxPlatEvent_default_def winuser_CxPlatEvent_manual_def)
  next
    case (EndScope x)
    then show ?thesis using run own owns_events_end [OF Sys(2)] by (auto simp: st split: option.splits)
  qed (use assms(4) in simp_all)
qed

lemma owns_events_run:
  assumes "documented_events Sys ev" "documented_handles Sys ev" and "list_all creates_or_ends cs" and "owns_events ev s0 st"
    and "event_stmts_run dbg H Sys cs st = Inr st'"
  shows "owns_events ev s0 st'"
  using assms(3-5)
proof (induction cs arbitrary: st)
  case (Cons c cs)
  then obtain st1 where st1: "event_stmt_run dbg H Sys c st = Inr st1" "event_stmts_run dbg H Sys cs st1 = Inr st'"
    by (auto simp: bindR_def split: sum.splits)
  then have "owns_events ev s0 st1" using owns_events_step [OF assms(1,2) Cons.prems(2) _ st1(1)] Cons.prems(1) by simp
  then show ?case using Cons.IH st1(2) Cons.prems(1) by simp
qed simp

section \<open>Properties\<close>

text \<open>
  C14. A client that only declares \<open>CxPlatEvent\<close> objects and ends their scopes, in any order, never closes an event of someone else and never loses one: the events of the system that no live object
  holds are exactly those of the start, unchanged, every live object whose creation succeeded holds an event of its own, and once all scopes have ended the events are those of the start.
\<close>

theorem CxPlatEvent_owns_handle:
  assumes "documented_events Sys ev" "documented_handles Sys ev" and "list_all creates_or_ends cs"
    and "event_stmts_run dbg H Sys cs (s0, Map.empty) = Inr (s, objs)"
  shows "(\<forall>x h. objs x = Some (Some h) \<longrightarrow> ev s h \<noteq> None \<and> ev s0 h = None \<and> (\<forall>y. objs y = Some (Some h) \<longrightarrow> y = x)) \<and>
    (\<forall>h. (\<nexists>x. objs x = Some (Some h)) \<longrightarrow> ev s h = ev s0 h) \<and> (objs = Map.empty \<longrightarrow> ev s = ev s0)"
proof -
  have "owns_events ev s0 (s, objs)"
    by (rule owns_events_run [OF assms(1-3) _ assms(4)]) (simp add: owns_events_def held_def held_once_def)
  then have own: "held_once objs" "\<And>h. if held objs h then ev s h \<noteq> None \<and> ev s0 h = None else ev s h = ev s0 h"
    by (simp_all add: owns_events_def)
  have "ev s h = ev s0 h" if "\<nexists>x. objs x = Some (Some h)" for h using own(2) [of h] that by (simp add: held_def)
  moreover from this have "ev s = ev s0" if "objs = Map.empty" using that by (intro ext) simp
  moreover have "ev s h \<noteq> None \<and> ev s0 h = None" if "objs x = Some (Some h)" for x h
  proof -
    have "held objs h" using that by (auto simp: held_def)
    then show ?thesis using own(2) [of h] by simp
  qed
  ultimately show ?thesis using own(1) unfolding held_once_def by blast
qed

lemma one_event_handles: "documented_handles one_event id"
  by (auto simp: documented_handles_def one_event_def split: if_splits)

theorem CxPlatEvent_owns_handle_witness:
  "\<exists>s. event_stmts_run True id one_event [Declare 1 (Some True), EndScope 1, Declare 2 None, EndScope 2] (Map.empty, Map.empty) = Inr (s, Map.empty) \<and>
     id s = (Map.empty :: nat \<rightharpoonup> bool \<times> bool)"
proof -
  let ?cs = "[Declare 1 (Some True), EndScope 1, Declare 2 None, EndScope 2]"
  obtain s where s: "event_stmts_run True id one_event ?cs (Map.empty, Map.empty) = Inr (s, Map.empty)"
    by (simp add: declare_object_def winuser_CxPlatEvent_default_def winuser_CxPlatEvent_manual_def winuser_CxPlatEventInitialize_def one_event_def
        winuser_CxPlatEvent_destructor_def winuser_CxPlatEventUninitialize_def)
  show ?thesis using CxPlatEvent_owns_handle [OF one_event_documented one_event_handles _ s] s by simp
qed

text \<open>
  C39. A copy of a \<open>CxPlatEvent\<close> closes the handle a second time. If between the two ends of scope the system gives the handle out again, to an event
  of another object, the second destructor closes that event while its owner still holds the handle.
\<close>

theorem CxPlatEvent_copy_closes_foreign:
  assumes "documented_events Sys ev" "documented_handles Sys ev" and "ev s h \<noteq> None"
    and "CreateEvent Sys False False (winuser_CxPlatEvent_destructor H Sys (Some h) s) = (Some h, s1)"
  shows "\<exists>s'. event_stmts_run dbg H Sys [CopyOf 2 1, EndScope 1, Declare 3 None, EndScope 2] (s, [1 \<mapsto> Some h]) = Inr (s', [3 \<mapsto> Some h]) \<and>
    ev s1 h = Some (False, False) \<and> ev s' h = None"
proof -
  have "ev s1 h = Some (False, False)"
    using assms(1) [unfolded documented_events_def, THEN conjunct1, rule_format, OF assms(4)] by simp
  moreover from this have "ev (winuser_CxPlatEvent_destructor H Sys (Some h) s1) h = None"
    using destructor_closes [OF assms(2), of s1 h H] by simp
  ultimately show ?thesis using assms(4)
    by (auto simp: declare_object_def winuser_CxPlatEvent_default_def winuser_CxPlatEventInitialize_def fun_eq_iff)
qed

theorem CxPlatEvent_copy_closes_foreign_witness:
  "\<exists>s'. event_stmts_run True id one_event [CopyOf 2 1, EndScope 1, Declare 3 None, EndScope 2] ([0 \<mapsto> (False, False)], [1 \<mapsto> Some 0]) = Inr (s', [3 \<mapsto> Some 0]) \<and> id s' 0 = None"
proof -
  have "CreateEvent one_event False False (winuser_CxPlatEvent_destructor id one_event (Some 0) [0 \<mapsto> (False, False)]) = (Some 0, [0 \<mapsto> (False, False)])"
    by (simp add: one_event_def winuser_CxPlatEvent_destructor_def winuser_CxPlatEventUninitialize_def)
  from CxPlatEvent_copy_closes_foreign [OF one_event_documented one_event_handles _ this, of True] show ?thesis by auto
qed

end
