(* ===== verification/Spec2Isabelle.thy ===== *)
theory Spec2Isabelle
  imports CxPrelude CxTime KArrayRep CxVector CxKalloc CxEvent CxLock CxDispatch CxWinLock CxWinEvent CxInterlocked CxAlloc CxStartup CxProcessor CxThread CxMacros CxLifecycle CxAsync CxMemory CxServices KArrayUse CxEventClass
begin

text \<open>
  \<^bold>\<open>Verification of cxplat\<close>

  cxplat is a portability layer in C and C++: one set of names for time, memory, locks, events,
  threads, processors and random numbers, with one implementation for POSIX
  (\<open>inc/cxplat_posix.h\<close>, \<open>inc/cxplat_posix_shim.h\<close>, \<open>src/lib/cxplat_posix.c\<close>), one for user mode
  Windows (\<open>inc/cxplat_winuser.h\<close>, \<open>src/lib/cxplat_winuser.c\<close>) and one for the Windows kernel
  (\<open>inc/cxplat_winkernel.h\<close>, \<open>src/lib/cxplat_winkernel.c\<close>); classes over them in \<open>inc/cxplat.hpp\<close> and
  \<open>inc/cxplatvector.h\<close>, and a container for the kernel in \<open>inc/karray.h\<close>. A definition that has a
  prefix \<open>posix_\<close>, \<open>linux_\<close>, \<open>bsd_\<close>, \<open>darwin_\<close>, \<open>freebsd_\<close>, \<open>winuser_\<close> or \<open>winkernel_\<close> is the one of that platform; the rest of its name is
  the name in the source.

  \<^bold>\<open>Conventions.\<close> Integers that can wrap are words of their C width, \<open>size_t\<close> and \<open>ULONG\<close> in the container are
  naturals with the reductions written out. A failed assertion, a fail-fast, a trap, a use after free
  and whatever else the languages leave undefined is a value of \<open>fault\<close>; code that can crash returns
  \<open>fault + 'a\<close>. A debug build is the argument \<open>dbg\<close>. A call that blocks yields \<open>None\<close>. Functions of the system and of third
  parties are arguments: their answers, or the functions themselves, are fields of a record
  (\<open>win_system\<close>, \<open>posix_thread_os\<close>, \<open>critical_section_api\<close> and so on), and what the code relies on is a
  predicate on that record (\<open>good_system\<close>, \<open>documented_lock\<close>, \<open>documented_events\<close> and so on)
  with a concrete instance in a witness. Concurrent code is the list of its statements, run one at a time by any
  number of threads in any order, as an inductive step relation; \<open>reachable\<close> and the locales \<open>safe_system\<close> and \<open>simulation\<close>
  of \<open>CxPrelude\<close> carry the invariants and refinements. Operations that the system makes atomic are
  sequences of calls in the order of their effect (\<open>lock_run\<close>).

  \<^bold>\<open>The theories.\<close>

  \<^item> \<open>CxPrelude\<close>: words, faults and their combinators, reachability, invariants, simulation.

  \<^item> \<open>CxTime\<close>: the unit macros of \<open>inc/cxplat.h\<close> and the clocks, conversions, deadlines and sleeps of the three platforms. The
  32-bit clocks measure elapsed time and order times through their wrap-around; the counter
  conversions are exact (for frequencies up to \<open>2 ^ 32 - 1000000\<close> Hz, the bound at which the intermediate products still fit) and come back to within a microsecond; the \<open>timespec\<close>
  arithmetic yields valid deadlines. \<open>CxPlatTimeUs64ToPlat\<close> of user mode and the kernel's \<open>CxPlatSleep\<close> above \<open>2 ^ 31\<close> milliseconds are shown
  not to do what they are meant to.

  \<^item> \<open>CxTraits\<close>, \<open>KArray\<close>, \<open>KArrayRep\<close>: \<open>inc/karray.h\<close>. \<open>CxTraits\<close> has the namespace \<open>cxplatstd\<close>, \<open>KArray\<close> every operation of the
  container over a pool of blocks of cells, \<open>KArrayRep\<close> the representation predicate. Every operation implements its list operation; any sequence of them
  is memory safe and the destructor gives back all storage; the overloads for rvalues turn out to copy.

  \<^item> \<open>KArrayUse\<close>: where the container may be used. At \<open>DISPATCH_LEVEL\<close> in a debug kernel \<open>PAGED_CODE\<close> keeps every call from changing it; the static assertion of the class makes its elements aligned.

  \<^item> \<open>CxVector\<close>: the two versions of \<open>CxPlatVector\<close> give the same answers.

  \<^item> \<open>CxKalloc\<close>: pool types, allocation tags, \<open>KALLOCATOR\<close>, \<open>DebugBlock\<close>, \<open>PAGED_OBJECT\<close> and \<open>NONPAGED_OBJECT\<close>: sizes do not
  overflow, and an object goes through one life, with its signature.

  \<^item> \<open>CxEvent\<close>: \<open>CXPLAT_EVENT\<close> on POSIX over a mutex and a condition variable. Every interleaving is a
  run of an atomic event; no assertion fails, no wake-up is lost, an automatic event lets one waiter pass per set.

  \<^item> \<open>CxWinEvent\<close>: the event macros of the two Windows platforms implement the same atomic event.

  \<^item> \<open>CxEventClass\<close>: \<open>CxPlatEvent\<close> as the owner of a handle: objects that are declared and go out of scope close exactly the events they created, a copy may close the event of another object.

  \<^item> \<open>CxLock\<close>, \<open>CxDispatch\<close>, \<open>CxWinLock\<close>: the locks. \<open>CxLock\<close> has the POSIX mutexes and read-write locks with the
  classes of \<open>inc/cxplat.hpp\<close>; \<open>CxDispatch\<close> the macros of the kernel, statement by statement: exclusion, critical regions, and the
  restored interrupt request level, which the shared dispatch lock can lose; \<open>CxWinLock\<close> the macros of user mode, and that
  clients which neither acquire a lock they hold nor release one they do not hold see the same behaviour on the three platforms.

  \<^item> \<open>CxInterlocked\<close>: the interlocked operations of the shim, for any sequence of concurrent steps.

  \<^item> \<open>CxAlloc\<close>: \<open>CxPlatAlloc\<close>, \<open>CxPlatFree\<close> and the injection of failures.

  \<^item> \<open>CxMemory\<close>: the macros that fill, copy and move bytes, over a memory with addresses that cannot be accessed, and the allocation macros of the kernel over its pool.

  \<^item> \<open>CxStartup\<close>: \<open>CxPlatInitialize\<close> and \<open>CxPlatUninitialize\<close> of POSIX and of the kernel, random numbers, thread ids, timed waits.

  \<^item> \<open>CxProcessor\<close>: the processor tables of user mode Windows and its start and stop: correct tables or a failure that keeps nothing,
  for every pattern of refused allocations and failed queries but the one that frees the buffer twice.

  \<^item> \<open>CxThread\<close>: \<open>CxPlatThreadCreate\<close> of Linux, the other POSIX systems, user mode Windows and the kernel on every path, with the
  threads, handles, references and context blocks it leaves; a custom start routine that keeps its contract calls the caller's routine once and gives back the context.

  \<^item> \<open>CxMacros\<close>: status codes, assertions, interrupt request level, flag enumerations. An assertion evaluates its expression
  once or, in a release build, never; this is why assertions without effects are guards everywhere else.

  \<^item> \<open>CxLifecycle\<close>: the library can be started and stopped any number of times on the three platforms, whatever starts fail.

  \<^item> \<open>CxServices\<close>: after a start that succeeds processor numbers are below the processor count and random numbers come from what the start opened, on the three platforms.

  \<^item> \<open>CxAsync\<close>: \<open>CxPlatAsyncT\<close> interleaved with its thread, over one interface to threads with three instances. The callback runs once and within
  the life of the object when the creation reports truthfully, and only then.

  \<^item> This theory: start-up, tables, thread creation and the current processor number of user mode Windows fit together.

  \<^bold>\<open>Bounds.\<close> There is no fuel: loops are recursion over the data, and the concurrent machines have no bound on threads or steps. A processor group has at most 64 active processors (the width of its mask) where
  masks are shifted. \<open>long\<close> has 64 bits on POSIX and 32 on Windows, pointers have 64.

  \<^bold>\<open>Not modelled.\<close> \<open>inc/cxplat_sal_stub.h\<close> defines annotations as nothing, \<open>inc/cxplat_winkernel_shim.h\<close> names integer types,
  \<open>src/lib/inline.c\<close> repeats the declarations of inline functions so that they get an external definition, and code segment and calling convention
  macros direct the linker: none of these has behaviour. \<open>CxPlatSchedulerYield\<close> and the Windows \<open>CxPlatSleep\<close> and
  \<open>CxPlatCurThreadID\<close> are other names of system functions and touch no state of the library. Trace
  events expand to nothing and appear only where they are the whole body. \<open>CxPlatThreadCustomStart\<close> is left to the user of the library: it is a parameter, with the contract that the header states for it. Weak memory is not modelled: the steps of a machine are
  sequentially consistent. The tests and scripts are not part of the library.
\<close>

lemma active_infos_length: "length (active_infos R) \<le> 65535"
proof -
  have "unat (ActiveGroupCount R) < 2 ^ LENGTH(16)" by (rule unsigned_less)
  then show ?thesis by (simp add: active_infos_def)
qed

lemma demo_initialize: "\<exists>g. winuser_CxPlatInitialize False demo_system demo_globals = Inr (CXPLAT_STATUS_SUCCESS, g)"
  by (simp add: winuser_CxPlatInitialize_def CxPlatProcessorInfoInit_def CxPlatGetProcessorGroupInfo_def alloc_g_def winuser_CxPlatAlloc_def
      allocate_tables_def error_label_def free_g_def winuser_CxPlatFree_def HeapFree_def demo_system_def demo_globals_def demo_groups_def demo_heap_def
      Let_def CXPLAT_STATUS_SUCCESS_def CXPLAT_STATUS_OUT_OF_MEMORY_def)

text \<open>
  C3. Start-up, processor tables, thread creation and the current processor number fit together in user mode
  Windows: after a successful \<open>CxPlatInitialize\<close>, creating a thread for any processor number below \<open>CxPlatProcessorCount\<close> faults nowhere,
  starts the caller's routine, and asks for a group and a mask such that, on the
  processor the mask names, \<open>CxPlatProcCurrentNumber\<close> returns the very number the caller asked for; without the affinity flag the mask is that
  of all active processors of the group.
\<close>

theorem affinitized_thread_sees_ideal_processor:
  assumes "good_system S" "good_codes S" and "QueryLength S \<noteq> 0" "QueryLength S + AllocOffset < 2 ^ 64"
    and "QueryResult S = Some R" "good_groups R" and "\<forall>i \<in> set (active_infos R). act i \<le> 64"
    and "live (the_heap g0) = Map.empty" "CxPlatProcessorInfo g0 = None" "CxPlatProcessorGroupInfo g0 = None"
    and init: "winuser_CxPlatInitialize dbg S g0 = Inr (CXPLAT_STATUS_SUCCESS, g)"
    and ideal: "unat (IdealProcessor Config) < unat (CxPlatProcessorCount g)" and create: "CreateThread os = Some h"
  shows "\<exists>t G N. winuser_CxPlatThreadCreate dbg False S os Config (g, w) =
      Inr (CXPLAT_STATUS_SUCCESS, Some h, g, w\<lparr>win_handles := (win_handles w)(h \<mapsto> t)\<rparr>) \<and>
    win_started t = User (Callback Config) (Context Config) \<and>
    group_affinity t = Some (G, if flagged Config CXPLAT_THREAD_FLAG_SET_AFFINITIZE
       then push_bit (unat N) 1 else ActiveProcessorMask (active_infos R ! unat G)) \<and>
    winuser_CxPlatProcCurrentNumber G N g = Inr (ucast (IdealProcessor Config))"
proof -
  let ?infos = "active_infos R"
  have L: "layout_ok ?infos g"
    using initialize_then_uninitialize [OF assms(1-6,8-10), of dbg] init assms(2) by (auto simp: good_codes_def)
  then have total: "unat (IdealProcessor Config) < total ?infos" using ideal by (simp add: layout_ok_def)
  obtain t :: win_thread and e :: CXPLAT_PROCESSOR_INFO where t: "winuser_configure dbg os Config g (User (Callback Config) (Context Config)) = Inr t"
      "win_started t = User (Callback Config) (Context Config)" and e: "unat (Group e) < length ?infos"
      "unat (Index e) < act (?infos ! unat (Group e))" "total (take (unat (Group e)) ?infos) + unat (Index e) = unat (IdealProcessor Config)"
    and aff: "group_affinity t = Some (Group e, if flagged Config CXPLAT_THREAD_FLAG_SET_AFFINITIZE
       then push_bit (unat (Index e)) 1 else ActiveProcessorMask (?infos ! unat (Group e)))"
    using winuser_configure_spec [OF L active_infos_length assms(7) total, of dbg os "User (Callback Config) (Context Config)"] by blast
  define N :: u8 where "N = of_nat (unat (Index e))"
  have "unat (of_nat k :: u8) = k" if "k < 256" for k using that by (simp add: unat_of_nat)
  from this [of "unat (Index e)"] have N: "unat N = unat (Index e)"
    using e(2) act_less [of "?infos ! unat (Group e)"] unfolding N_def by linarith
  obtain r where r: "winuser_CxPlatProcCurrentNumber (Group e) N g = Inr r"
      "unat r = total (take (unat (Group e)) ?infos) + unat N mod act (?infos ! unat (Group e))"
    using current_number_spec [OF L e(1), of N] e(2) by auto
  have "unat r = unat (IdealProcessor Config)" using r(2) N e(2,3) by simp
  moreover have "unat (IdealProcessor Config) < 2 ^ LENGTH(16)" by (rule unsigned_less)
  then have "unat (ucast (IdealProcessor Config) :: u32) = unat (IdealProcessor Config)"
    by (simp add: unsigned_ucast_eq take_bit_nat_eq_self)
  ultimately have "r = ucast (IdealProcessor Config)" by (simp add: word_unat_eq_iff)
  then show ?thesis using t create aff r(1) N
    by (intro exI [of _ t] exI [of _ "Group e"] exI [of _ N]) (simp add: winuser_CxPlatThreadCreate_def)
qed

theorem affinitized_thread_sees_ideal_processor_witness:
  "\<exists>g t G N. winuser_CxPlatInitialize False demo_system demo_globals = Inr (CXPLAT_STATUS_SUCCESS, g) \<and>
     winuser_CxPlatThreadCreate False False demo_system \<lparr>CreateThread = Some 9, ThreadError = 0, Widen = (\<lambda>_. [])\<rparr> (demo_config 2 5)
       (g, \<lparr>win_handles = Map.empty, win_contexts = Map.empty\<rparr>) =
       Inr (CXPLAT_STATUS_SUCCESS, Some 9, g, \<lparr>win_handles = [9 \<mapsto> t], win_contexts = Map.empty\<rparr>) \<and>
     winuser_CxPlatProcCurrentNumber G N g = Inr 5"
proof -
  let ?os = "\<lparr>CreateThread = Some 9, ThreadError = 0, Widen = (\<lambda>_. [])\<rparr>"
    and ?w = "\<lparr>win_handles = Map.empty, win_contexts = Map.empty\<rparr>"
  obtain g where g: "winuser_CxPlatInitialize False demo_system demo_globals = Inr (CXPLAT_STATUS_SUCCESS, g)"
    using demo_initialize ..
  have "layout_ok (active_infos demo_groups) g"
    using initialize_then_uninitialize [OF demo_good(1,2,5,6,7,3) demo_globals_good(4,2,3), of False] g demo_good(2) by (auto simp: good_codes_def)
  then have n: "unat (CxPlatProcessorCount g) = 6" unfolding demo_good(4) by (simp add: layout_ok_def demo_groups_def total_def act_def)
  have a: "\<forall>i \<in> set (active_infos demo_groups). act i \<le> 64" unfolding demo_good(4) by (simp add: demo_groups_def act_def)
  have i: "unat (IdealProcessor (demo_config 2 5)) < unat (CxPlatProcessorCount g)" by (simp add: n demo_config_def)
  from affinitized_thread_sees_ideal_processor [OF demo_good(1,2,5,6,7,3) a demo_globals_good(4,2,3) g i, of ?os 9 ?w]
  obtain t G N where "winuser_CxPlatThreadCreate False False demo_system ?os (demo_config 2 5) (g, ?w) =
      Inr (CXPLAT_STATUS_SUCCESS, Some 9, g, ?w\<lparr>win_handles := (win_handles ?w)(9 \<mapsto> t)\<rparr>)"
      "winuser_CxPlatProcCurrentNumber G N g = Inr (ucast (IdealProcessor (demo_config 2 5)))" by auto
  then show ?thesis using g by (intro exI [of _ g] exI [of _ t] exI [of _ G] exI [of _ N]) (simp add: demo_config_def)
qed

end
